(* ===== verification/Prelude.thy ===== *)
theory Prelude
  imports Main "HOL-Library.Word" "HOL-Library.Multiset"
begin

text \<open>
  The vocabulary every component shares: machine integers at their width, Rust's
  \<^verbatim>\<open>Result\<close>, the ways in which a Rust computation can fail to return, and the
  state-passing computations in which the stateful functions are written.

  A computation over a state \<open>'s\<close> maps a state to an outcome and the state it leaves
  behind.  The outcome is a value, or one of the failures: a panic (with its message), a
  process abort, undefined behaviour (\<^verbatim>\<open>unreachable_unchecked\<close> reached), blocking
  forever, or not having finished when the trace of events it was given ends.  The state after a failure is kept, because Rust runs destructors while a panic
  unwinds and because a caller may observe what a failed call left behind.
\<close>

named_theorems comp_simps \<open>evaluation of the state-passing combinators\<close>
named_theorems platform_laws \<open>documented behaviour of the libraries outside the repository\<close>

section \<open>Machine integers\<close>

type_synonym u8 = "8 word"
type_synonym u32 = "32 word"
type_synonym u64 = "64 word"
type_synonym i64 = "64 word"
type_synonym usize = "64 word"
type_synonym c_int = "32 word"

definition u64_MAX :: u64 where
  "u64_MAX = - 1"

definition checked_mul :: "'l::len word \<Rightarrow> 'l word \<Rightarrow> 'l word option" where
  "checked_mul a b = (if unat a * unat b < 2 ^ LENGTH('l) then Some (a * b) else None)"

lemma checked_mul_Some_unat:
  "checked_mul a b = Some c \<Longrightarrow> unat c = unat a * unat b"
  by (auto simp: checked_mul_def unat_word_ariths split: if_splits)

lemma checked_mul_None_iff:
  fixes a b :: "'l::len word"
  shows "checked_mul a b = None \<longleftrightarrow> 2 ^ LENGTH('l) \<le> unat a * unat b"
  by (auto simp: checked_mul_def not_less split: if_splits)

lemma unat_u64_MAX: "unat u64_MAX = 2 ^ 64 - 1"
  by (simp add: u64_MAX_def unsigned_minus_1_eq_mask mask_eq_exp_minus_1)

lemma le_u64_MAX [simp]: "a \<le> u64_MAX"
  by (simp add: u64_MAX_def)

section \<open>Results and failures\<close>

datatype ('a, 'e) result = Ok 'a | Err 'e

fun is_err :: "('a, 'e) result \<Rightarrow> bool" where
  "is_err (Ok _) = False"
| "is_err (Err _) = True"

datatype failure = Panicked string | Aborted string | Exited c_int | Undefined | Blocked | Unfinished

datatype 'a outcome = Val 'a | Fail failure

type_synonym io_error = c_int
type_synonym 'a io_result = "('a, io_error) result"

section \<open>State-passing computations\<close>

type_synonym ('s, 'a) comp = "'s \<Rightarrow> 'a outcome \<times> 's"

definition ret :: "'a \<Rightarrow> ('s, 'a) comp" where
  "ret x = (\<lambda>s. (Val x, s))"

definition bind :: "('s, 'a) comp \<Rightarrow> ('a \<Rightarrow> ('s, 'b) comp) \<Rightarrow> ('s, 'b) comp" where
  "bind m f = (\<lambda>s. case m s of (Val x, t) \<Rightarrow> f x t | (Fail e, t) \<Rightarrow> (Fail e, t))"

definition andthen :: "('s, 'a) comp \<Rightarrow> ('s, 'b) comp \<Rightarrow> ('s, 'b) comp" where
  "andthen m n = bind m (\<lambda>_. n)"

definition failing :: "failure \<Rightarrow> ('s, 'a) comp" where
  "failing e = (\<lambda>s. (Fail e, s))"

abbreviation panic :: "string \<Rightarrow> ('s, 'a) comp" where
  "panic msg \<equiv> failing (Panicked msg)"

definition gets :: "('s \<Rightarrow> 'a) \<Rightarrow> ('s, 'a) comp" where
  "gets f = (\<lambda>s. (Val (f s), s))"

definition modify :: "('s \<Rightarrow> 's) \<Rightarrow> ('s, unit) comp" where
  "modify f = (\<lambda>s. (Val (), f s))"

definition only_if :: "bool \<Rightarrow> ('s, unit) comp \<Rightarrow> ('s, unit) comp" where
  "only_if b m = (if b then m else ret ())"

text \<open>
  Destructors.  Those of the values a panic leaves behind run while it unwinds, and a second
  panic among them aborts the process; an abort or a blocked thread runs none.
\<close>

definition on_panic :: "('s, 'a) comp \<Rightarrow> ('s, unit) comp \<Rightarrow> ('s, 'a) comp" where
  "on_panic m d = (\<lambda>s. case m s of
      (Fail (Panicked msg), t) \<Rightarrow>
        (case d t of (Val _, u) \<Rightarrow> (Fail (Panicked msg), u)
         | (Fail (Panicked _), u) \<Rightarrow> (Fail (Aborted ''panic in a destructor during cleanup''), u)
         | (Fail e, u) \<Rightarrow> (Fail e, u))
    | r \<Rightarrow> r)"

definition with_cleanup :: "('s, 'a) comp \<Rightarrow> ('s, unit) comp \<Rightarrow> ('s, 'a) comp" where
  "with_cleanup m d = bind (on_panic m d) (\<lambda>x. andthen d (ret x))"

lemma comp_run [comp_simps, simp]:
  "ret x s = (Val x, s)"
  "failing e s = (Fail e, s)"
  "gets g s = (Val (g s), s)"
  "modify h s = (Val (), h s)"
  by (simp_all add: ret_def failing_def gets_def modify_def)

lemma bind_run [comp_simps]:
  "bind m f s = (case m s of (Val x, t) \<Rightarrow> f x t | (Fail e, t) \<Rightarrow> (Fail e, t))"
  by (simp add: bind_def)

lemma andthen_run [comp_simps]:
  "andthen m n s = (case m s of (Val x, t) \<Rightarrow> n t | (Fail e, t) \<Rightarrow> (Fail e, t))"
  by (simp add: andthen_def bind_def)

lemma only_if_run [comp_simps]: "only_if b m s = (if b then m s else (Val (), s))"
  by (simp add: only_if_def)

lemma on_panic_Val [comp_simps]: "m s = (Val x, t) \<Longrightarrow> on_panic m d s = (Val x, t)"
  by (simp add: on_panic_def)

lemma with_cleanup_Val [comp_simps]:
  "m s = (Val x, t) \<Longrightarrow> d t = (Val y, u) \<Longrightarrow> with_cleanup m d s = (Val x, u)"
  by (simp add: with_cleanup_def on_panic_Val comp_simps)

lemma bind_assoc: "bind (bind m f) g = bind m (\<lambda>x. bind (f x) g)"
  by (rule ext) (simp add: bind_def split: prod.splits outcome.splits)

lemma bind_ret [simp]: "bind (ret x) f = f x"
  by (rule ext) (simp add: bind_def)

lemma bind_Val_iff:
  "bind m f s = (Val y, u) \<longleftrightarrow> (\<exists>x t. m s = (Val x, t) \<and> f x t = (Val y, u))"
  by (auto simp: bind_def split: prod.splits outcome.splits)

text \<open>
  \<^verbatim>\<open>Option::expect\<close>, \<^verbatim>\<open>Option::unwrap\<close>, \<^verbatim>\<open>Result::expect\<close> and \<^verbatim>\<open>Result::unwrap\<close>: a panic where there is nothing to
  return.  That of a result ends with the error, as its \<^verbatim>\<open>Debug\<close> implementation \<open>dbg\<close> prints it.
\<close>

definition expect :: "string \<Rightarrow> 'a option \<Rightarrow> ('s, 'a) comp" where
  "expect msg x = (case x of Some y \<Rightarrow> ret y | None \<Rightarrow> panic msg)"

definition expect_ok :: "string \<Rightarrow> ('e \<Rightarrow> string) \<Rightarrow> ('a, 'e) result \<Rightarrow> ('s, 'a) comp" where
  "expect_ok msg dbg x = (case x of Ok y \<Rightarrow> ret y | Err e \<Rightarrow> panic (msg @ '': '' @ dbg e))"

abbreviation unwrap :: "'a option \<Rightarrow> ('s, 'a) comp" where
  "unwrap \<equiv> expect ''called `Option::unwrap()` on a `None` value''"

abbreviation unwrap_ok :: "('e \<Rightarrow> string) \<Rightarrow> ('a, 'e) result \<Rightarrow> ('s, 'a) comp" where
  "unwrap_ok \<equiv> expect_ok ''called `Result::unwrap()` on an `Err` value''"

text \<open>\<^verbatim>\<open>Debug\<close> for \<^verbatim>\<open>Option\<close>.\<close>

definition debug_option :: "('e \<Rightarrow> string) \<Rightarrow> 'e option \<Rightarrow> string" where
  "debug_option dbg x = (case x of None \<Rightarrow> ''None'' | Some e \<Rightarrow> ''Some('' @ dbg e @ '')'')"

lemma expect_run [comp_simps, simp]:
  "expect msg (Some x) = ret x"
  "expect msg None = panic msg"
  "expect_ok msg dbg (Ok x) = ret x"
  "expect_ok msg dbg (Err e) = panic (msg @ '': '' @ dbg e)"
  by (simp_all add: expect_def expect_ok_def)

text \<open>Rust's \<^verbatim>\<open>?\<close> operator on a result inside a function that itself returns a result.\<close>

definition or_return :: "('s, ('a, 'e) result) comp \<Rightarrow> ('a \<Rightarrow> ('s, ('b, 'e) result) comp) \<Rightarrow>
    ('s, ('b, 'e) result) comp" where
  "or_return m f = bind m (\<lambda>r. case r of Ok x \<Rightarrow> f x | Err e \<Rightarrow> ret (Err e))"

lemma or_return_run [comp_simps]:
  "or_return m f s = (case m s of (Val (Ok x), t) \<Rightarrow> f x t | (Val (Err e), t) \<Rightarrow> (Val (Err e), t)
                 | (Fail e, t) \<Rightarrow> (Fail e, t))"
  by (simp add: or_return_def bind_def split: prod.splits outcome.splits result.splits)

text \<open>How a computation that returns has got there.\<close>

lemma Val_iffs:
  "andthen m n s = (Val y, u) \<longleftrightarrow> (\<exists>x t. m s = (Val x, t) \<and> n t = (Val y, u))"
  "expect msg o' s = (Val x, t) \<longleftrightarrow> o' = Some x \<and> t = s"
  "expect_ok msg' dbg z s = (Val x', t') \<longleftrightarrow> z = Ok x' \<and> t' = s"
  by (auto simp: andthen_def bind_Val_iff expect_def expect_ok_def split: option.splits result.splits)

lemma or_return_Ok_iff:
  "or_return m f s = (Val (Ok y), u) \<longleftrightarrow> (\<exists>x t. m s = (Val (Ok x), t) \<and> f x t = (Val (Ok y), u))"
  by (auto simp: or_return_run split: prod.splits outcome.splits result.splits)

lemma or_return_Err_iff:
  "or_return m f s = (Val (Err e), u) \<longleftrightarrow> m s = (Val (Err e), u) \<or> (\<exists>x t. m s = (Val (Ok x), t) \<and> f x t = (Val (Err e), u))"
  by (auto simp: or_return_run split: prod.splits outcome.splits result.splits)

lemma on_panic_Val_iff: "on_panic m d s = (Val x, t) \<longleftrightarrow> m s = (Val x, t)"
  by (auto simp: on_panic_def split: prod.splits outcome.splits failure.splits)

lemma with_cleanup_Val_iff:
  "with_cleanup m d s = (Val x, u) \<longleftrightarrow> (\<exists>t y. m s = (Val x, t) \<and> d t = (Val y, u))"
  by (auto simp: with_cleanup_def bind_Val_iff Val_iffs on_panic_Val_iff)

text \<open>
  Assertions and arithmetic that depend on the build profile.  Cargo's development profile
  enables debug assertions and overflow checks, its release profile disables both; the
  manifest overrides neither, so one flag describes a build.
\<close>

definition debug_assert :: "bool \<Rightarrow> bool \<Rightarrow> string \<Rightarrow> ('s, unit) comp" where
  "debug_assert debug b msg = (if debug \<and> \<not> b then panic msg else ret ())"

definition assert :: "bool \<Rightarrow> string \<Rightarrow> ('s, unit) comp" where
  "assert b msg = (if b then ret () else panic msg)"

definition add_checked :: "bool \<Rightarrow> 'l::len word \<Rightarrow> 'l word \<Rightarrow> ('s, 'l word) comp" where
  "add_checked debug a b =
     (if debug \<and> \<not> unat a + unat b < 2 ^ LENGTH('l)
      then panic ''attempt to add with overflow'' else ret (a + b))"

definition sub_checked :: "bool \<Rightarrow> 'l::len word \<Rightarrow> 'l word \<Rightarrow> ('s, 'l word) comp" where
  "sub_checked debug a b =
     (if debug \<and> a < b then panic ''attempt to subtract with overflow'' else ret (a - b))"

definition mul_checked :: "bool \<Rightarrow> 'l::len word \<Rightarrow> 'l word \<Rightarrow> ('s, 'l word) comp" where
  "mul_checked debug a b =
     (if debug \<and> \<not> unat a * unat b < 2 ^ LENGTH('l)
      then panic ''attempt to multiply with overflow'' else ret (a * b))"

lemma debug_assert_holds [simp]: "b \<Longrightarrow> debug_assert debug b msg = ret ()"
  by (simp add: debug_assert_def)

lemma debug_assert_release [simp]: "debug_assert False b msg = ret ()"
  by (simp add: debug_assert_def)

lemma assert_holds [simp]: "b \<Longrightarrow> assert b msg = ret ()"
  by (simp add: assert_def)

lemma add_checked_fits:
  fixes a b :: "'l::len word"
  assumes "unat a + unat b < 2 ^ LENGTH('l)"
  shows "add_checked debug a b = ret (a + b)" and "unat (a + b) = unat a + unat b"
  using assms by (simp_all add: add_checked_def unat_word_ariths)

lemma mul_checked_fits:
  fixes a b :: "'l::len word"
  assumes "unat a * unat b < 2 ^ LENGTH('l)"
  shows "mul_checked debug a b = ret (a * b)" and "unat (a * b) = unat a * unat b"
  using assms by (simp_all add: mul_checked_def unat_word_ariths)

section \<open>Vectors\<close>

text \<open>\<^verbatim>\<open>Vec::pop\<close> and \<^verbatim>\<open>Vec::push\<close> work at the end of the vector.\<close>

definition vec_pop :: "'a list \<Rightarrow> 'a option \<times> 'a list" where
  "vec_pop xs = (if xs = [] then (None, []) else (Some (last xs), butlast xs))"

definition vec_push :: "'a \<Rightarrow> 'a list \<Rightarrow> 'a list" where
  "vec_push x xs = xs @ [x]"

lemma vec_pop_simps [simp]:
  "vec_pop [] = (None, [])"
  "vec_pop (xs @ [x]) = (Some x, xs)"
  by (simp_all add: vec_pop_def)

lemma vec_pop_push [simp]: "vec_pop (vec_push x xs) = (Some x, xs)"
  by (simp add: vec_push_def)

lemma vec_pop_cases:
  obtains (empty) "xs = []" "vec_pop xs = (None, [])"
  | (top) ys y where "xs = ys @ [y]" "vec_pop xs = (Some y, ys)"
  by (cases xs rule: rev_cases) (auto intro: that)

end
