(* ===== verification/Reusable.thy ===== *)
theory Reusable
  imports Prelude
begin

text \<open>
  The object pools of \<^verbatim>\<open>src/reusable.rs\<close>: the trait \<^verbatim>\<open>SharedMut\<close> with its two
  implementations (\<^verbatim>\<open>RefCell\<close> and \<^verbatim>\<open>Mutex\<close>), and \<^verbatim>\<open>Pool\<close>/\<^verbatim>\<open>Reusable\<close> on top of it.

  A pool lives somewhere in the state of the process; a \<^emph>\<open>place\<close> says where.  The pool's
  builder is a computation over the same state, so it is an argument of the operations and
  not a component of the pool.  The two interfaces are locales: \<open>shared_mut\<close> is what the
  pool relies on (exclusive access to the vector), \<open>pool\<close> adds the place and the builder and
  proves the pool's contract once for every pool of the program.
\<close>

section \<open>The cells of the standard library\<close>

record 'v refcell =
  rc_value :: 'v
  rc_borrowed :: bool

record 'v mutex =
  mx_value :: 'v
  mx_locked :: bool
  mx_poisoned :: bool

datatype borrow_mut_error = BorrowMutError

datatype poison_error = PoisonError

text \<open>
  How the standard library prints these errors.  (Before Rust 1.56 the second read
  \<^verbatim>\<open>PoisonError { inner: .. }\<close>, in quotation marks.)
\<close>

fun debug_borrow_mut_error :: "borrow_mut_error \<Rightarrow> string" where
  "debug_borrow_mut_error BorrowMutError = ''BorrowMutError''"

fun debug_poison_error :: "poison_error \<Rightarrow> string" where
  "debug_poison_error PoisonError = ''PoisonError { .. }''"

definition refcell_default :: "'v list refcell" where
  "refcell_default = \<lparr>rc_value = [], rc_borrowed = False\<rparr>"

definition mutex_default :: "'v list mutex" where
  "mutex_default = \<lparr>mx_value = [], mx_locked = False, mx_poisoned = False\<rparr>"

section \<open>The trait SharedMut\<close>

text \<open>
  \<open>try_into_inner\<close> gives access to the contents or an error; \<open>drop_guard\<close> is the destructor
  of the guard it hands out (\<^verbatim>\<open>RefMut\<close>, \<^verbatim>\<open>MutexGuard\<close>), told whether a panic is
  unwinding and which contents the guard's holder left.  The trait asks of \<^verbatim>\<open>Error\<close> that it can be
  printed.
\<close>

record ('c, 'v, 'e) shared_mut_ops =
  try_into_inner :: "'c \<Rightarrow> ('v, 'e) result outcome \<times> 'c"
  drop_guard :: "bool \<Rightarrow> 'v \<Rightarrow> 'c \<Rightarrow> 'c"
  debug_error :: "'e \<Rightarrow> string"

definition refcell_try_into_inner ::
    "'v refcell \<Rightarrow> ('v, borrow_mut_error) result outcome \<times> 'v refcell" where
  "refcell_try_into_inner c =
     (if rc_borrowed c then (Val (Err BorrowMutError), c)
      else (Val (Ok (rc_value c)), c\<lparr>rc_borrowed := True\<rparr>))"

definition refcell_ops :: "('v refcell, 'v, borrow_mut_error) shared_mut_ops" where
  "refcell_ops = \<lparr>try_into_inner = refcell_try_into_inner,
     drop_guard = (\<lambda>_ v c. c\<lparr>rc_value := v, rc_borrowed := False\<rparr>),
     debug_error = debug_borrow_mut_error\<rparr>"

text \<open>
  Locking a mutex this thread already holds never returns.  A poisoned mutex answers with an
  error; the guard inside the error is released with it.
\<close>

definition mutex_try_into_inner ::
    "'v mutex \<Rightarrow> ('v, poison_error) result outcome \<times> 'v mutex" where
  "mutex_try_into_inner c =
     (if mx_locked c then (Fail Blocked, c)
      else if mx_poisoned c then (Val (Err PoisonError), c)
      else (Val (Ok (mx_value c)), c\<lparr>mx_locked := True\<rparr>))"

definition mutex_ops :: "('v mutex, 'v, poison_error) shared_mut_ops" where
  "mutex_ops = \<lparr>try_into_inner = mutex_try_into_inner,
     drop_guard = (\<lambda>panicking v c. c\<lparr>mx_value := v, mx_locked := False,
                                      mx_poisoned := mx_poisoned c \<or> panicking\<rparr>),
     debug_error = debug_poison_error\<rparr>"

section \<open>Pools\<close>

record ('s, 'c) place =
  place_get :: "'s \<Rightarrow> 'c"
  place_put :: "'c \<Rightarrow> 's \<Rightarrow> 's"

record 't reusable =
  reusable_value :: "'t option"

definition inner_of :: "('c, 'v, 'e) shared_mut_ops \<Rightarrow> ('s, 'c) place \<Rightarrow>
    ('s, ('v, 'e) result) comp" where
  "inner_of sm pl = (\<lambda>s. case try_into_inner sm (place_get pl s) of (r, c) \<Rightarrow> (r, place_put pl c s))"

text \<open>Running \<open>m\<close> while the guard is held, with \<open>vec\<close> the contents it will leave.\<close>

definition holding :: "('c, 'v, 'e) shared_mut_ops \<Rightarrow> ('s, 'c) place \<Rightarrow> 'v \<Rightarrow>
    ('s, 'a) comp \<Rightarrow> ('s, 'a) comp" where
  "holding sm pl vec m = (\<lambda>s. case m s of
      (Val x, t) \<Rightarrow> (Val x, place_put pl (drop_guard sm False vec (place_get pl t)) t)
    | (Fail (Panicked msg), t) \<Rightarrow>
        (Fail (Panicked msg), place_put pl (drop_guard sm True vec (place_get pl t)) t)
    | (Fail e, t) \<Rightarrow> (Fail e, t))"

text \<open>
  \<^verbatim>\<open>Reusable::try_from\<close>: the guard is a temporary of the statement that pops the vector,
  so it is still held while \<^verbatim>\<open>or_else\<close> calls the builder.
\<close>

definition try_from :: "('c, 't list, 'e) shared_mut_ops \<Rightarrow> ('s, 'c) place \<Rightarrow>
    ('s, 't option) comp \<Rightarrow> ('s, ('t reusable, 'e option) result) comp" where
  "try_from sm pl builder =
     bind (inner_of sm pl) (\<lambda>r. case r of
       Err e \<Rightarrow> ret (Err (Some e))
     | Ok vec \<Rightarrow> (case vec_pop vec of (popped, vec') \<Rightarrow>
         bind (holding sm pl vec' (case popped of Some v \<Rightarrow> ret (Some v) | None \<Rightarrow> builder))
           (\<lambda>value. case value of
              Some v \<Rightarrow> ret (Ok \<lparr>reusable_value = Some v\<rparr>)
            | None \<Rightarrow> ret (Err None))))"

definition deref :: "'t reusable \<Rightarrow> ('s, 't) comp" where
  "deref r = unwrap (reusable_value r)"

definition deref_mut :: "('t \<Rightarrow> 't) \<Rightarrow> 't reusable \<Rightarrow> ('s, 't reusable) comp" where
  "deref_mut f r = bind (unwrap (reusable_value r)) (\<lambda>v. ret (r\<lparr>reusable_value := Some (f v)\<rparr>))"

text \<open>\<^verbatim>\<open>Drop for Reusable\<close>: the value goes back; a poisoned or borrowed pool panics.\<close>

definition drop_reusable :: "('c, 't list, 'e) shared_mut_ops \<Rightarrow> ('s, 'c) place \<Rightarrow>
    't reusable \<Rightarrow> ('s, unit) comp" where
  "drop_reusable sm pl r =
     bind (unwrap (reusable_value r)) (\<lambda>v.
     bind (inner_of sm pl) (\<lambda>res.
     bind (unwrap_ok (debug_error sm) res) (\<lambda>vec. holding sm pl (vec_push v vec) (ret ()))))"

fun drop_results :: "('c, 't list, 'e) shared_mut_ops \<Rightarrow> ('s, 'c) place \<Rightarrow>
    ('t reusable, 'x) result list \<Rightarrow> ('s, unit) comp" where
  "drop_results sm pl [] = ret ()"
| "drop_results sm pl (Ok r # rs) =
     andthen (on_panic (drop_reusable sm pl r) (drop_results sm pl rs)) (drop_results sm pl rs)"
| "drop_results sm pl (Err _ # rs) = drop_results sm pl rs"

text \<open>
  \<^verbatim>\<open>Pool::prealloc\<close>: first \<open>count\<close> attempts are collected (a failed attempt does not stop
  the collection), then the list is consumed, each value being dropped back into the pool and
  the first error ending the loop; what is left of the list is dropped with it.
\<close>

fun prealloc_collect :: "('c, 't list, 'e) shared_mut_ops \<Rightarrow> ('s, 'c) place \<Rightarrow>
    ('s, 't option) comp \<Rightarrow> ('t reusable, 'e option) result list \<Rightarrow> nat \<Rightarrow>
    ('s, ('t reusable, 'e option) result list) comp" where
  "prealloc_collect sm pl builder swap 0 = ret swap"
| "prealloc_collect sm pl builder swap (Suc n) =
     bind (on_panic (try_from sm pl builder) (drop_results sm pl swap))
       (\<lambda>x. prealloc_collect sm pl builder (swap @ [x]) n)"

fun prealloc_consume :: "('c, 't list, 'e) shared_mut_ops \<Rightarrow> ('s, 'c) place \<Rightarrow>
    ('t reusable, 'e option) result list \<Rightarrow> ('s, (unit, 'e option) result) comp" where
  "prealloc_consume sm pl [] = ret (Ok ())"
| "prealloc_consume sm pl (Ok r # rs) =
     andthen (on_panic (drop_reusable sm pl r) (drop_results sm pl rs)) (prealloc_consume sm pl rs)"
| "prealloc_consume sm pl (Err e # rs) = andthen (drop_results sm pl rs) (ret (Err e))"

definition prealloc :: "('c, 't list, 'e) shared_mut_ops \<Rightarrow> ('s, 'c) place \<Rightarrow>
    ('s, 't option) comp \<Rightarrow> nat \<Rightarrow> ('s, (unit, 'e option) result) comp" where
  "prealloc sm pl builder n =
     bind (prealloc_collect sm pl builder [] n) (prealloc_consume sm pl)"

text \<open>\<^verbatim>\<open>Default for Pool\<close>: a new pool whose builder makes default values, and always makes one.\<close>

definition default_builder :: "('s, 't) comp \<Rightarrow> ('s, 't option) comp" where
  "default_builder dflt = bind dflt (\<lambda>v. ret (Some v))"

section \<open>The interface of a shared cell\<close>

locale shared_mut =
  fixes sm :: "('c, 'v, 'e) shared_mut_ops"
    and ready :: "'c \<Rightarrow> bool"
    and inner :: "'c \<Rightarrow> 'v"
  assumes grants: "ready c \<Longrightarrow> fst (try_into_inner sm c) = Val (Ok (inner c))"
    and excludes: "ready c \<Longrightarrow> \<not> ready (snd (try_into_inner sm c))"
    and refuses: "\<not> ready c \<Longrightarrow> fst (try_into_inner sm c) \<noteq> Val (Ok v)"
    and refusal_keeps: "\<not> ready c \<Longrightarrow> snd (try_into_inner sm c) = c"
    and gives_back: "ready c \<Longrightarrow> ready (drop_guard sm False v (snd (try_into_inner sm c)))"
    and writes_back: "inner (drop_guard sm p v (snd (try_into_inner sm c))) = v"
begin

text \<open>At most one guard is out: after a grant, every further request is refused.\<close>

lemma exclusive:
  "ready c \<Longrightarrow> fst (try_into_inner sm (snd (try_into_inner sm c))) \<noteq> Val (Ok v)"
  by (rule refuses) (rule excludes)

end

definition refcell_ready :: "'v refcell \<Rightarrow> bool" where
  "refcell_ready c \<longleftrightarrow> \<not> rc_borrowed c"

definition mutex_ready :: "'v mutex \<Rightarrow> bool" where
  "mutex_ready c \<longleftrightarrow> \<not> mx_locked c \<and> \<not> mx_poisoned c"

lemmas cell_defs = refcell_ops_def refcell_try_into_inner_def refcell_ready_def
  mutex_ops_def mutex_try_into_inner_def mutex_ready_def

lemma mutex_fields:
  "try_into_inner mutex_ops c = (if mx_locked c then (Fail Blocked, c)
     else if mx_poisoned c then (Val (Err PoisonError), c)
     else (Val (Ok (mx_value c)), c\<lparr>mx_locked := True\<rparr>))"
  "drop_guard mutex_ops panicking v c = c\<lparr>mx_value := v, mx_locked := False,
     mx_poisoned := mx_poisoned c \<or> panicking\<rparr>"
  by (simp_all add: mutex_ops_def mutex_try_into_inner_def)

interpretation refcell: shared_mut refcell_ops refcell_ready rc_value
  by unfold_locales (auto simp: cell_defs)

interpretation mutex: shared_mut mutex_ops mutex_ready mx_value
  by unfold_locales (auto simp: cell_defs)

section \<open>The contract of a pool\<close>

text \<open>
  \<open>builder_frame\<close>: the builder works elsewhere; it does not touch the pool that calls it.
\<close>

locale pool = shared_mut sm ready inner
  for sm :: "('c, 't list, 'e) shared_mut_ops"
    and ready :: "'c \<Rightarrow> bool"
    and inner :: "'c \<Rightarrow> 't list" +
  fixes pl :: "('s, 'c) place"
    and builder :: "('s, 't option) comp"
  assumes get_put: "place_get pl (place_put pl c s) = c"
    and put_put: "place_put pl c (place_put pl d s) = place_put pl c s"
    and builder_frame: "builder (place_put pl c s) = map_prod id (place_put pl c) (builder s)"
begin

text \<open>The pool can be used and holds \<open>vec\<close>.\<close>

definition holds :: "'t list \<Rightarrow> 's \<Rightarrow> bool" where
  "holds vec s \<longleftrightarrow> ready (place_get pl s) \<and> inner (place_get pl s) = vec"

text \<open>The state in which the pool's contents are \<open>vec\<close> and all else is as in \<open>s\<close>.\<close>

definition refill :: "'t list \<Rightarrow> 's \<Rightarrow> 's" where
  "refill vec s = place_put pl (drop_guard sm False vec
     (snd (try_into_inner sm (place_get pl s)))) s"

lemma holds_refill: "ready (place_get pl s) \<Longrightarrow> holds vec (refill vec s)"
  by (simp add: holds_def refill_def get_put gives_back writes_back)

lemma holds_ready: "holds vec s \<Longrightarrow> ready (place_get pl s)"
  by (simp add: holds_def)

lemma inner_of_grants:
  "ready (place_get pl s) \<Longrightarrow> inner_of sm pl s =
     (Val (Ok (inner (place_get pl s))), place_put pl (snd (try_into_inner sm (place_get pl s))) s)"
  by (simp add: inner_of_def split_beta grants)

lemma inner_of_refuses:
  assumes "\<not> ready (place_get pl s)"
  shows "fst (inner_of sm pl s) \<noteq> Val (Ok v)"
    and "place_get pl (snd (inner_of sm pl s)) = place_get pl s"
  using refuses [OF assms, of v] refusal_keeps [OF assms]
  by (simp_all add: inner_of_def split_beta get_put)

text \<open>A non-empty pool serves the value dropped last, without calling the builder.\<close>

lemma try_from_top:
  assumes "holds (ys @ [y]) s"
  shows "try_from sm pl builder s = (Val (Ok \<lparr>reusable_value = Some y\<rparr>), refill ys s)"
  using assms
  by (simp add: holds_def try_from_def comp_simps inner_of_grants holding_def refill_def
      get_put put_put)

text \<open>An empty pool asks the builder, holding the guard meanwhile.\<close>

lemma try_from_built:
  assumes "holds [] s" and "builder s = (Val (Some v), t)"
  shows "try_from sm pl builder s =
    (Val (Ok \<lparr>reusable_value = Some v\<rparr>), place_put pl (place_get pl (refill [] s)) t)"
  using assms
  by (simp add: holds_def try_from_def comp_simps inner_of_grants holding_def refill_def
      get_put put_put builder_frame)

lemma try_from_exhausted:
  assumes "holds [] s" and "builder s = (Val None, t)"
  shows "try_from sm pl builder s =
    (Val (Err None), place_put pl (place_get pl (refill [] s)) t)"
  using assms
  by (simp add: holds_def try_from_def comp_simps inner_of_grants holding_def refill_def
      get_put put_put builder_frame)

lemma try_from_panics:
  assumes "holds [] s" and "builder s = (Fail (Panicked msg), t)"
  shows "try_from sm pl builder s =
    (Fail (Panicked msg), place_put pl (drop_guard sm True []
       (snd (try_into_inner sm (place_get pl s)))) t)"
  using assms
  by (simp add: holds_def try_from_def comp_simps inner_of_grants holding_def
      get_put put_put builder_frame)

lemma drop_reusable_pushes:
  assumes "holds vec s"
  shows "drop_reusable sm pl \<lparr>reusable_value = Some v\<rparr> s = (Val (), refill (vec @ [v]) s)"
  using assms
  by (simp add: holds_def drop_reusable_def comp_simps inner_of_grants holding_def refill_def
      get_put put_put vec_push_def)

lemma drop_reusable_twice:
  "drop_reusable sm pl \<lparr>reusable_value = None\<rparr> s =
    (Fail (Panicked ''called `Option::unwrap()` on a `None` value''), s)"
  by (simp add: drop_reusable_def comp_simps)

text \<open>Taking a value and dropping it again leaves the pool with the contents it had.\<close>

lemma take_drop_roundtrip:
  assumes "holds vec s" and "vec \<noteq> []"
  shows "\<exists>r t u. try_from sm pl builder s = (Val (Ok r), t) \<and>
    drop_reusable sm pl r t = (Val (), u) \<and> holds vec u"
proof -
  obtain ys y where vec: "vec = ys @ [y]"
    using assms(2) by (cases vec rule: rev_cases) auto
  have r: "ready (place_get pl s)" and t: "holds ys (refill ys s)"
    using assms(1) by (simp_all add: holds_ready holds_refill)
  have "drop_reusable sm pl \<lparr>reusable_value = Some y\<rparr> (refill ys s) =
      (Val (), refill vec (refill ys s))"
    using drop_reusable_pushes [OF t] by (simp add: vec)
  moreover have "holds vec (refill vec (refill ys s))"
    by (rule holds_refill) (rule holds_ready [OF t])
  moreover have "try_from sm pl builder s = (Val (Ok \<lparr>reusable_value = Some y\<rparr>), refill ys s)"
    using assms(1) by (simp add: vec try_from_top)
  ultimately show ?thesis by blast
qed

text \<open>
  Preallocation: the values the pool had stay in it, the builder adds as many as are missing
  to make \<open>n\<close>, and the values that went through the list come back in the order in which
  they were taken, so those the pool already had are reversed.
\<close>

lemma prealloc_collects:
  assumes "holds vec s" and "\<And>s. \<exists>v t. builder s = (Val (Some v), t)"
  shows "\<exists>built t. prealloc_collect sm pl builder swap n s =
      (Val (swap @ map (\<lambda>v. Ok \<lparr>reusable_value = Some v\<rparr>)
         (rev (drop (length vec - n) vec) @ built)), t) \<and>
    length built = n - length vec \<and> holds (take (length vec - n) vec) t"
  using assms(1)
proof (induction n arbitrary: vec s swap)
  case 0
  then show ?case by simp
next
  case (Suc n)
  show ?case
  proof (cases vec rule: rev_cases)
    case Nil
    obtain v t where b: "builder s = (Val (Some v), t)" using assms(2) by blast
    let ?t = "place_put pl (place_get pl (refill [] s)) t"
    have "holds [] ?t"
      using holds_refill [of s "[]"] Suc.prems by (simp add: holds_def get_put)
    from Suc.IH [OF this, of "swap @ [Ok \<lparr>reusable_value = Some v\<rparr>]"]
    obtain built u where "prealloc_collect sm pl builder (swap @ [Ok \<lparr>reusable_value = Some v\<rparr>]) n ?t =
        (Val (swap @ map (\<lambda>v. Ok \<lparr>reusable_value = Some v\<rparr>) (v # built)), u)"
      and "length built = n" and "holds [] u" by auto
    then show ?thesis
      using try_from_built [OF Suc.prems [unfolded Nil] b] Nil
      by (intro exI [of _ "v # built"] exI [of _ u]) (simp add: comp_simps)
  next
    case (snoc ys y)
    have "holds ys (refill ys s)" using Suc.prems by (simp add: holds_ready holds_refill)
    from Suc.IH [OF this, of "swap @ [Ok \<lparr>reusable_value = Some y\<rparr>]"] show ?thesis
      using try_from_top [OF Suc.prems [unfolded snoc]]
      by (simp add: snoc comp_simps)
  qed
qed

lemma prealloc_consumes:
  assumes "holds vec s"
  shows "\<exists>t. prealloc_consume sm pl (map (\<lambda>v. Ok \<lparr>reusable_value = Some v\<rparr>) vs) s =
      (Val (Ok ()), t) \<and> holds (vec @ vs) t"
  using assms
proof (induction vs arbitrary: vec s)
  case Nil
  then show ?case by simp
next
  case (Cons v vs)
  have "holds (vec @ [v]) (refill (vec @ [v]) s)"
    using Cons.prems by (simp add: holds_ready holds_refill)
  from Cons.IH [OF this] show ?case
    by (simp add: comp_simps drop_reusable_pushes [OF Cons.prems])
qed

lemma prealloc_fills:
  assumes "holds vec s" and "\<And>s. \<exists>v t. builder s = (Val (Some v), t)"
  shows "\<exists>built t. prealloc sm pl builder n s = (Val (Ok ()), t) \<and> length built = n - length vec \<and>
    holds (take (length vec - n) vec @ rev (drop (length vec - n) vec) @ built) t"
proof -
  obtain built t where
    c: "prealloc_collect sm pl builder [] n s =
      (Val (map (\<lambda>v. Ok \<lparr>reusable_value = Some v\<rparr>) (rev (drop (length vec - n) vec) @ built)), t)"
    and "length built = n - length vec" and h: "holds (take (length vec - n) vec) t"
    using prealloc_collects [OF assms, of "[]" n] by auto
  with prealloc_consumes [OF h, of "rev (drop (length vec - n) vec) @ built"] show ?thesis
    by (auto simp: prealloc_def comp_simps)
qed

end

section \<open>A pool in a local variable\<close>

text \<open>
  A static pool is filled while it still is a local variable of its initializer, so that a
  panic in between leaves the static unset.
\<close>

definition with_local :: "'c \<Rightarrow> ('c \<times> 's, 'a) comp \<Rightarrow> ('s, 'a \<times> 'c) comp" where
  "with_local c m = (\<lambda>s. case m (c, s) of
      (Val x, (d, t)) \<Rightarrow> (Val (x, d), t)
    | (Fail e, (d, t)) \<Rightarrow> (Fail e, t))"

definition elsewhere :: "('s, 'a) comp \<Rightarrow> ('c \<times> 's, 'a) comp" where
  "elsewhere m = (\<lambda>(c, s). map_prod id (Pair c) (m s))"

lemma elsewhere_iff: "elsewhere m (c, s) = (r, (c', t)) \<longleftrightarrow> c' = c \<and> m s = (r, t)"
  by (cases "m s") (auto simp: elsewhere_def)

definition local_place :: "('c \<times> 's, 'c) place" where
  "local_place = \<lparr>place_get = fst, place_put = (\<lambda>c (_, s). (c, s))\<rparr>"

interpretation local: pool mutex_ops mutex_ready mx_value local_place "elsewhere b"
  for b :: "('s, 't option) comp"
  by unfold_locales (auto simp: local_place_def elsewhere_def prod.map_comp comp_def id_def
      split: prod.splits)

text \<open>A pool of default values always has one more.\<close>

lemma default_builder_serves:
  assumes "dflt s = (Val v, t)"
  shows "\<exists>c. try_from mutex_ops local_place (elsewhere (default_builder dflt)) (mutex_default, s) =
    (Val (Ok \<lparr>reusable_value = Some v\<rparr>), c, t)"
proof -
  have h: "local.holds [] (mutex_default, s)"
    unfolding local.holds_def by (simp add: local_place_def mutex_default_def mutex_ready_def)
  have "elsewhere (default_builder dflt) (mutex_default, s) = (Val (Some v), mutex_default, t)"
    using assms by (simp add: elsewhere_def default_builder_def comp_simps)
  from local.try_from_built [OF h this] show ?thesis by (auto simp: local_place_def split: prod.splits)
qed

section \<open>Who holds what\<close>

text \<open>
  The clients of a pool: a step takes a value, is refused one, or drops a value it holds.
\<close>

inductive pool_step :: "('c, 't list, 'e) shared_mut_ops \<Rightarrow> ('s, 'c) place \<Rightarrow>
    ('s, 't option) comp \<Rightarrow> 't list \<times> 's \<Rightarrow> 't list \<times> 's \<Rightarrow> bool"
  for sm pl builder where
  take_value: "try_from sm pl builder s = (Val (Ok \<lparr>reusable_value = Some v\<rparr>), t) \<Longrightarrow>
    pool_step sm pl builder (held, s) (v # held, t)"
| take_refused: "try_from sm pl builder s = (Val (Err e), t) \<Longrightarrow>
    pool_step sm pl builder (held, s) (held, t)"
| drop_value: "v \<in> set held \<Longrightarrow> drop_reusable sm pl \<lparr>reusable_value = Some v\<rparr> s = (Val (), t) \<Longrightarrow>
    pool_step sm pl builder (held, s) (remove1 v held, t)"

text \<open>
  A pool whose builder never makes the same value twice: \<open>stock s\<close> is what it may still make
  from \<open>s\<close> on, as long as \<open>live\<close> holds.
\<close>

locale fresh_pool = pool sm ready inner pl builder
  for sm :: "('c, 't list, 'e) shared_mut_ops"
    and ready :: "'c \<Rightarrow> bool"
    and inner :: "'c \<Rightarrow> 't list"
    and pl :: "('s, 'c) place"
    and builder :: "('s, 't option) comp" +
  fixes stock :: "'s \<Rightarrow> 't set"
    and live :: "'s \<Rightarrow> bool"
  assumes stock_put: "stock (place_put pl c s) = stock s"
    and builder_fresh: "live s \<Longrightarrow> builder s = (Val (Some v), t) \<Longrightarrow> v \<in> stock s \<and> stock t \<subseteq> stock s - {v}"
    and builder_none: "live s \<Longrightarrow> builder s = (Val None, t) \<Longrightarrow> stock t \<subseteq> stock s"
begin

text \<open>
  No value has two owners: the pool, the holders and the builder's future are disjoint, and
  all of them come out of \<open>A\<close>.
\<close>

definition owned :: "'t set \<Rightarrow> 't list \<Rightarrow> 's \<Rightarrow> bool" where
  "owned A held s \<longleftrightarrow> (\<exists>vec. holds vec s \<and> distinct (vec @ held) \<and>
     set (vec @ held) \<inter> stock s = {} \<and> set (vec @ held) \<union> stock s \<subseteq> A)"

lemma stock_refill [simp]: "stock (refill vec s) = stock s"
  by (simp add: refill_def stock_put)

lemma try_from_cases:
  assumes "holds vec s"
  obtains (popped) ys y where "vec = ys @ [y]"
      "try_from sm pl builder s = (Val (Ok \<lparr>reusable_value = Some y\<rparr>), refill ys s)"
  | (built) v t where "vec = []" "builder s = (Val (Some v), t)"
      "try_from sm pl builder s =
        (Val (Ok \<lparr>reusable_value = Some v\<rparr>), place_put pl (place_get pl (refill [] s)) t)"
  | (exhausted) t where "vec = []" "builder s = (Val None, t)"
      "try_from sm pl builder s = (Val (Err None), place_put pl (place_get pl (refill [] s)) t)"
  | (failed) e u t where "vec = []" "builder s = (Fail e, u)" "try_from sm pl builder s = (Fail e, t)"
proof (cases vec rule: rev_cases)
  case Nil
  obtain v t where b: "builder s = (v, t)" by (metis prod.collapse)
  show ?thesis
  proof (cases v)
    case (Fail e)
    with b Nil assms have "\<exists>u. try_from sm pl builder s = (Fail e, u)"
      by (cases e) (simp_all add: holds_def try_from_def comp_simps inner_of_grants holding_def builder_frame)
    with Nil b Fail failed show ?thesis by blast
  next
    case (Val w)
    with b Nil assms exhausted built show ?thesis
      by (cases w) (auto simp: try_from_exhausted try_from_built)
  qed
next
  case (snoc ys y)
  with assms show ?thesis by (intro popped) (simp_all add: try_from_top)
qed

lemma holds_rebuilt: "holds vec s \<Longrightarrow> holds [] (place_put pl (place_get pl (refill [] s)) t)"
  using holds_refill [of s "[]"] by (simp add: holds_def get_put)

lemma owned_take:
  assumes "owned A held s" and "live s" and "try_from sm pl builder s = (Val r, t)"
  shows "case r of Ok w \<Rightarrow> owned A (the (reusable_value w) # held) t | Err _ \<Rightarrow> owned A held t"
proof -
  from assms(1) obtain vec where h: "holds vec s" and d: "distinct (vec @ held)"
    and s: "set (vec @ held) \<inter> stock s = {}" "set (vec @ held) \<union> stock s \<subseteq> A" by (auto simp: owned_def)
  from h show ?thesis
  proof (cases rule: try_from_cases)
    case (popped ys y)
    have "holds ys (refill ys s)" using h by (simp add: holds_ready holds_refill)
    with popped assms(3) d s show ?thesis
      by (auto simp: owned_def intro!: exI [of _ ys])
  next
    case (built v u)
    with builder_fresh [OF assms(2)] have "v \<in> stock s \<and> stock u \<subseteq> stock s - {v}" by blast
    with built assms(3) d s holds_rebuilt [OF h, of u] show ?thesis
      by (auto simp: owned_def stock_put intro!: exI [of _ "[]"])
  next
    case (exhausted u)
    with builder_none [OF assms(2)] have "stock u \<subseteq> stock s" by blast
    with exhausted assms(3) d s holds_rebuilt [OF h, of u] show ?thesis
      by (auto simp: owned_def stock_put intro!: exI [of _ "[]"])
  next
    case failed
    with assms(3) show ?thesis by simp
  qed
qed

lemma owned_drop:
  assumes "owned A held s" and "v \<in> set held"
    and "drop_reusable sm pl \<lparr>reusable_value = Some v\<rparr> s = (Val (), t)"
  shows "owned A (remove1 v held) t"
proof -
  from assms(1) obtain vec where h: "holds vec s" and d: "distinct (vec @ held)"
    and s: "set (vec @ held) \<inter> stock s = {}" "set (vec @ held) \<union> stock s \<subseteq> A" by (auto simp: owned_def)
  have "t = refill (vec @ [v]) s" using assms(3) drop_reusable_pushes [OF h] by simp
  moreover have "holds (vec @ [v]) (refill (vec @ [v]) s)"
    using h by (simp add: holds_ready holds_refill)
  ultimately show ?thesis
    using d s assms(2) by (auto simp: owned_def intro!: exI [of _ "vec @ [v]"])
qed

lemma owned_step:
  assumes "pool_step sm pl builder (held, s) (held', t)" and "live s" and "owned A held s"
  shows "owned A held' t"
  using assms(1)
proof cases
  case (take_value v)
  with owned_take [OF assms(3,2)] show ?thesis by fastforce
next
  case (take_refused e)
  with owned_take [OF assms(3,2)] show ?thesis by fastforce
next
  case (drop_value v)
  with owned_drop [OF assms(3)] show ?thesis by simp
qed

lemma owned_drops: "owned A held s \<Longrightarrow> \<exists>t. drop_reusable sm pl \<lparr>reusable_value = Some v\<rparr> s = (Val (), t)"
  unfolding owned_def using drop_reusable_pushes by blast

lemma owned_less:
  "owned A held s \<Longrightarrow> place_get pl t = place_get pl s \<Longrightarrow> stock t \<subseteq> stock s \<Longrightarrow> owned A held t"
  unfolding owned_def holds_def by (elim exE conjE) (intro exI conjI; auto)

lemma owned_perm:
  assumes "mset held = mset held'"
  shows "owned A held s = owned A held' s"
proof -
  have "distinct held = distinct held'" "set held = set held'"
    using assms by (auto dest: mset_eq_imp_distinct_iff mset_eq_setD)
  then show ?thesis by (simp add: owned_def)
qed

lemma try_from_holds_value:
  "try_from sm pl builder s = (Val (Ok r), t) \<Longrightarrow> \<exists>v. r = \<lparr>reusable_value = Some v\<rparr>"
  by (auto simp: try_from_def comp_simps split: prod.splits outcome.splits result.splits option.splits)

text \<open>The values in a list of attempts, and the attempts that are well-formed.\<close>

definition taken :: "('t reusable, 'x) result list \<Rightarrow> 't list" where
  "taken xs = concat (map (\<lambda>x. case x of Ok r \<Rightarrow> [the (reusable_value r)] | Err _ \<Rightarrow> []) xs)"

definition filled :: "('t reusable, 'x) result list \<Rightarrow> bool" where
  "filled xs \<longleftrightarrow> (\<forall>r. Ok r \<in> set xs \<longrightarrow> (\<exists>v. r = \<lparr>reusable_value = Some v\<rparr>))"

lemma taken_simps [simp]:
  "taken [] = []" "taken (Ok r # xs) = the (reusable_value r) # taken xs" "taken (Err e # xs) = taken xs"
  "taken (xs @ ys) = taken xs @ taken ys"
  by (simp_all add: taken_def)

lemma filled_simps [simp]:
  "filled []" "filled (Ok r # xs) \<longleftrightarrow> (\<exists>v. r = \<lparr>reusable_value = Some v\<rparr>) \<and> filled xs" "filled (Err e # xs) = filled xs"
  "filled (xs @ ys) \<longleftrightarrow> filled xs \<and> filled ys"
  by (auto simp: filled_def)

lemma owned_collect:
  assumes "\<And>s. live s" and "filled swap" and "owned A (taken swap @ held) s"
    and "prealloc_collect sm pl builder swap n s = (Val swap', t)"
  shows "filled swap' \<and> owned A (taken swap' @ held) t"
  using assms(2-)
proof (induction n arbitrary: swap s)
  case 0
  then show ?case by simp
next
  case (Suc n)
  from Suc.prems(3) obtain x u where x: "try_from sm pl builder s = (Val x, u)"
    and rest: "prealloc_collect sm pl builder (swap @ [x]) n u = (Val swap', t)"
    by (auto simp: comp_simps on_panic_def split: prod.splits outcome.splits failure.splits)
  have "filled (swap @ [x]) \<and> owned A (taken (swap @ [x]) @ held) u"
  proof (cases x)
    case (Ok r)
    then obtain v where v: "r = \<lparr>reusable_value = Some v\<rparr>" using x try_from_holds_value by blast
    then have "owned A (v # taken swap @ held) u"
      using owned_take [OF Suc.prems(2) assms(1) x] Ok by simp
    moreover have "owned A (v # taken swap @ held) u = owned A (taken swap @ v # held) u"
      by (rule owned_perm) simp
    ultimately show ?thesis using Ok v Suc.prems(1) by simp
  next
    case (Err e)
    then show ?thesis using owned_take [OF Suc.prems(2) assms(1) x] Suc.prems(1) by simp
  qed
  with Suc.IH [OF _ _ rest] show ?case by blast
qed

lemma owned_drop_results:
  assumes "filled xs" and "owned A (taken xs @ held) s" and "drop_results sm pl xs s = (Val (), t)"
  shows "owned A held t"
  using assms
proof (induction xs arbitrary: s)
  case Nil
  then show ?case by simp
next
  case (Cons x xs)
  show ?case
  proof (cases x)
    case (Ok r)
    with Cons.prems obtain v u where "r = \<lparr>reusable_value = Some v\<rparr>" and "drop_reusable sm pl r s = (Val (), u)"
      and "drop_results sm pl xs u = (Val (), t)"
      by (auto simp: comp_simps on_panic_def split: prod.splits outcome.splits failure.splits)
    with Cons.IH [of u] owned_drop [OF Cons.prems(2), of v u] Cons.prems(1) Ok show ?thesis by simp
  qed (use Cons in simp)
qed

lemma owned_consume:
  assumes "filled xs" and "owned A (taken xs @ held) s" and "prealloc_consume sm pl xs s = (Val r, t)"
  shows "owned A held t"
  using assms
proof (induction xs arbitrary: s)
  case Nil
  then show ?case by simp
next
  case (Cons x xs)
  show ?case
  proof (cases x)
    case (Ok w)
    with Cons.prems obtain v u where "w = \<lparr>reusable_value = Some v\<rparr>" and "drop_reusable sm pl w s = (Val (), u)"
      and "prealloc_consume sm pl xs u = (Val r, t)"
      by (auto simp: comp_simps on_panic_def split: prod.splits outcome.splits failure.splits)
    with Cons.IH [of u] owned_drop [OF Cons.prems(2), of v u] Cons.prems(1) Ok show ?thesis by simp
  next
    case (Err e)
    with Cons.prems have "drop_results sm pl xs s = (Val (), t)"
      by (auto simp: comp_simps split: prod.splits outcome.splits)
    with owned_drop_results Cons.prems Err show ?thesis by simp
  qed
qed

text \<open>Preallocation gives nobody anything that has an owner.\<close>

lemma owned_prealloc:
  assumes "\<And>s. live s" and "owned A held s" and "prealloc sm pl builder n s = (Val r, t)"
  shows "owned A held t"
proof -
  from assms(3) obtain swap u where c: "prealloc_collect sm pl builder [] n s = (Val swap, u)"
    and d: "prealloc_consume sm pl swap u = (Val r, t)" by (auto simp: prealloc_def bind_Val_iff)
  from owned_collect [OF assms(1) _ _ c, of A held] assms(2) owned_consume [OF _ _ d, of A held]
  show ?thesis by simp
qed

lemma owned_distinct: "owned A held s \<Longrightarrow> distinct held \<and> set held \<subseteq> A"
  by (auto simp: owned_def)

end

end
