(* ===== verification/Platform.thy ===== *)
theory Platform
  imports Reusable
begin

text \<open>
  What the library is built on and the repository does not contain: the C library and the
  kernel behind it, \<^verbatim>\<open>libgotcha\<close> (\<^verbatim>\<open>external/libgotcha\<close>, a submodule) and
  \<^verbatim>\<open>libtimetravel\<close> (\<^verbatim>\<open>external/libtimetravel\<close>, a submodule).  They are parameters:
  three records of functions over an abstract world \<open>'w\<close>, each extending the one before.

  The world is what only those libraries and the kernel can touch.  Nothing is known about it
  except through \<open>view\<close>, which reads off the six facts the library relies on: the libset the
  thread executes in, its signal mask, the signals pending for it, its thread pointer, the
  \<^verbatim>\<open>errno\<close> cell of each libset and the process's signal handlers.  The documented behaviour of a function is a named predicate
  (\<open>sigset_doc\<close>, \<open>sigmask_doc\<close>, \<dots>) saying what it does to the view; theorems that need it
  have it as a hypothesis.
\<close>

section \<open>The C library and the kernel\<close>

type_synonym pthread_t = usize
type_synonym handler = usize
type_synonym group = nat

text \<open>\<^verbatim>\<open>sigset_t\<close> represents a set of signal numbers.\<close>

type_synonym sigset_t = "c_int set"

record sigaction_t =
  sa_sigaction :: handler
  sa_mask :: sigset_t
  sa_flags :: c_int
  sa_restorer :: "usize option"

record sigevent_t =
  sigev_value :: usize
  sigev_signo :: c_int
  sigev_notify :: c_int
  sigev_notify_thread_id :: c_int

record timespec =
  tv_sec :: i64
  tv_nsec :: i64

record itimerspec =
  it_interval :: timespec
  it_value :: timespec

record kview =
  v_group :: group
  v_mask :: sigset_t
  v_pending :: sigset_t
  v_fs :: usize
  v_errno :: "group \<Rightarrow> c_int"
  v_handler :: "c_int \<Rightarrow> handler option"

text \<open>
  A C function that reports through an out parameter returns its code, the value written
  there, and the world.  The text of an operating-system error comes from the C library.
\<close>

record 'w libc =
  debug_build :: bool
  view :: "'w \<Rightarrow> kview"
  system_time :: "'w \<Rightarrow> (u64 \<times> u32) option"
  last_os_error :: "'w \<Rightarrow> io_error"
  io_error_display :: "io_error \<Rightarrow> string"
  io_error_debug :: "io_error \<Rightarrow> string"
  addr_of_preempt :: handler
  c_zeroed_sigset :: sigset_t
  c_sigemptyset :: "sigset_t \<Rightarrow> c_int \<times> sigset_t"
  c_sigfillset :: "sigset_t \<Rightarrow> c_int \<times> sigset_t"
  c_sigaddset :: "sigset_t \<Rightarrow> c_int \<Rightarrow> c_int \<times> sigset_t"
  c_sigdelset :: "sigset_t \<Rightarrow> c_int \<Rightarrow> c_int \<times> sigset_t"
  c_sigismember :: "sigset_t \<Rightarrow> c_int \<Rightarrow> c_int"
  c_sigaction :: "c_int \<Rightarrow> sigaction_t option \<Rightarrow> 'w \<Rightarrow> (c_int \<times> sigaction_t) \<times> 'w"
  c_pthread_sigmask :: "c_int \<Rightarrow> sigset_t \<Rightarrow> 'w \<Rightarrow> (c_int \<times> sigset_t) \<times> 'w"
  c_pthread_self :: "'w \<Rightarrow> pthread_t"
  c_uninit_sigevent :: sigevent_t
  c_timer_create :: "c_int \<Rightarrow> sigevent_t \<Rightarrow> 'w \<Rightarrow> (c_int \<times> usize) \<times> 'w"
  c_timer_settime :: "usize \<Rightarrow> c_int \<Rightarrow> itimerspec \<Rightarrow> 'w \<Rightarrow> (c_int \<times> itimerspec) \<times> 'w"
  c_timer_delete :: "usize \<Rightarrow> 'w \<Rightarrow> c_int \<times> 'w"
  c_arch_prctl :: "c_int \<Rightarrow> 'w \<Rightarrow> (c_int \<times> usize) \<times> 'w"
  c_dl_allocate_tls :: "'w \<Rightarrow> usize option \<times> 'w"
  c_dl_deallocate_tls :: "usize \<Rightarrow> 'w \<Rightarrow> 'w"
  c_call_tls_dtors :: "'w \<Rightarrow> 'w"
  c_ctype_init :: "'w \<Rightarrow> 'w"

section \<open>libgotcha\<close>

text \<open>
  The fields with \<open>tt_\<close> are \<^verbatim>\<open>timetravel::errno::errno\<close>, the \<^verbatim>\<open>errno\<close> of the libset the
  thread executes in, read and written.
\<close>

record 'w gotcha = "'w libc" +
  group_SHARED :: group
  group_is_shared :: "group \<Rightarrow> bool"
  group_thread_get :: "'w \<Rightarrow> group"
  group_thread_set :: "group \<Rightarrow> 'w \<Rightarrow> 'w"
  group_new :: "'w \<Rightarrow> group option \<times> 'w"
  group_renew :: "group \<Rightarrow> 'w \<Rightarrow> bool \<times> 'w"
  group_limit :: nat
  group_lookup_errno_location :: "group \<Rightarrow> 'w \<Rightarrow> usize option"
  errno_location_read :: "usize \<Rightarrow> 'w \<Rightarrow> c_int"
  errno_location_write :: "usize \<Rightarrow> c_int \<Rightarrow> 'w \<Rightarrow> 'w"
  tt_errno :: "'w \<Rightarrow> c_int"
  tt_set_errno :: "c_int \<Rightarrow> 'w \<Rightarrow> 'w"
  group_lookup_ctype_init :: "group \<Rightarrow> 'w \<Rightarrow> ('w \<Rightarrow> 'w) option"
  gotcha_shared_hook :: "'w \<Rightarrow> 'w"
  libgotcha_pthread_kill :: "pthread_t \<Rightarrow> c_int \<Rightarrow> 'w \<Rightarrow> c_int \<times> 'w"
  libgotcha_arch_prctl :: "c_int \<Rightarrow> usize \<Rightarrow> 'w \<Rightarrow> c_int \<times> 'w"

section \<open>The state of the process and calls into the world\<close>

record 'w process =
  world :: 'w

definition prim :: "('w \<Rightarrow> 'a \<times> 'w) \<Rightarrow> (('w, 's) process_scheme, 'a) comp" where
  "prim f = (\<lambda>s. case f (world s) of (x, w) \<Rightarrow> (Val x, s\<lparr>world := w\<rparr>))"

definition primu :: "('w \<Rightarrow> 'w) \<Rightarrow> (('w, 's) process_scheme, unit) comp" where
  "primu f = modify (\<lambda>s. s\<lparr>world := f (world s)\<rparr>)"

definition asks :: "('w \<Rightarrow> 'a) \<Rightarrow> (('w, 's) process_scheme, 'a) comp" where
  "asks f = gets (\<lambda>s. f (world s))"

lemma prim_run [comp_simps]:
  "prim f s = (Val (fst (f (world s))), s\<lparr>world := snd (f (world s))\<rparr>)"
  "primu h s = (Val (), s\<lparr>world := h (world s)\<rparr>)"
  "asks k s = (Val (k (world s)), s)"
  by (simp_all add: prim_def primu_def asks_def split_beta)

section \<open>Documented behaviour\<close>

text \<open>
  The thread's current libset is a register of \<^verbatim>\<open>libgotcha\<close>: what is set is what is read, and
  exactly the starting libset is the shared one.
\<close>

definition group_doc :: "('w, 'z) gotcha_scheme \<Rightarrow> bool" where
  "group_doc G \<longleftrightarrow>
     (\<forall>w. group_thread_get G w = v_group (view G w)) \<and>
     (\<forall>g w. view G (group_thread_set G g w) = (view G w)\<lparr>v_group := g\<rparr>) \<and>
     (\<forall>g. group_is_shared G g \<longleftrightarrow> g = group_SHARED G) \<and>
     (\<forall>w. view G (gotcha_shared_hook G w) = view G w)"

text \<open>\<^verbatim>\<open>errno\<close> is one cell for each libset; a libset's own accessor denotes its cell.\<close>

definition errno_doc :: "('w, 'z) gotcha_scheme \<Rightarrow> bool" where
  "errno_doc G \<longleftrightarrow>
     (\<forall>w. tt_errno G w = v_errno (view G w) (v_group (view G w))) \<and>
     (\<forall>e w. view G (tt_set_errno G e w) =
        (view G w)\<lparr>v_errno := (v_errno (view G w))(v_group (view G w) := e)\<rparr>) \<and>
     (\<forall>g w f e. group_lookup_errno_location G g w = Some f \<longrightarrow>
        (\<forall>w'. errno_location_read G f w' = v_errno (view G w') g \<and>
          view G (errno_location_write G f e w') =
            (view G w')\<lparr>v_errno := (v_errno (view G w'))(g := e)\<rparr>))"

lemma group_laws [platform_laws]:
  assumes "group_doc G"
  shows "group_thread_get G w = v_group (view G w)"
    and "view G (group_thread_set G g w) = (view G w)\<lparr>v_group := g\<rparr>"
    and "group_is_shared G g \<longleftrightarrow> g = group_SHARED G"
    and "view G (gotcha_shared_hook G w) = view G w"
  using assms by (simp_all add: group_doc_def)

lemma errno_laws [platform_laws]:
  assumes "errno_doc G"
  shows "tt_errno G w = v_errno (view G w) (v_group (view G w))"
    and "view G (tt_set_errno G e w) =
      (view G w)\<lparr>v_errno := (v_errno (view G w))(v_group (view G w) := e)\<rparr>"
  using assms by (simp_all add: errno_doc_def)

end
