(* ===== verification/Libsignal.thy ===== *)
theory Libsignal
  imports Platform
begin

text \<open>
  \<^verbatim>\<open>internal/libsignal\<close>: the wrappers around the C library's signal functions.  The
  numbers behind the enumerations are those of x86-64 GNU/Linux, the only supported platform.
\<close>

section \<open>Operations and signals\<close>

datatype operation = Block | Unblock | SetMask

fun operation_as_c_int :: "operation \<Rightarrow> c_int" where
  "operation_as_c_int Block = 0"
| "operation_as_c_int Unblock = 1"
| "operation_as_c_int SetMask = 2"

datatype signal = Abort | Alarm | Bus | Breakpoint | Child | Continue | Coprocessor
  | FilesystemLimit | FloatingPoint | Hangup | Illegal | Interrupt | Kill | Pipe | Pollable
  | ProfilingTimer | Quit | Segfault | Syscall | TerminalInput | TerminalOutput | TerminalStop
  | Terminate | PowerFailure | ProcessorLimit | UrgentSocket | User1 | User2 | VirtualAlarm
  | WindowResize

fun signal_as_c_int :: "signal \<Rightarrow> c_int" where
  "signal_as_c_int Abort = 6"
| "signal_as_c_int Alarm = 14"
| "signal_as_c_int Bus = 7"
| "signal_as_c_int Breakpoint = 5"
| "signal_as_c_int Child = 17"
| "signal_as_c_int Continue = 18"
| "signal_as_c_int Coprocessor = 16"
| "signal_as_c_int FilesystemLimit = 25"
| "signal_as_c_int FloatingPoint = 8"
| "signal_as_c_int Hangup = 1"
| "signal_as_c_int Illegal = 4"
| "signal_as_c_int Interrupt = 2"
| "signal_as_c_int Kill = 9"
| "signal_as_c_int Pipe = 13"
| "signal_as_c_int Pollable = 29"
| "signal_as_c_int ProfilingTimer = 27"
| "signal_as_c_int Quit = 3"
| "signal_as_c_int Segfault = 11"
| "signal_as_c_int Syscall = 31"
| "signal_as_c_int TerminalInput = 21"
| "signal_as_c_int TerminalOutput = 22"
| "signal_as_c_int TerminalStop = 20"
| "signal_as_c_int Terminate = 15"
| "signal_as_c_int PowerFailure = 30"
| "signal_as_c_int ProcessorLimit = 24"
| "signal_as_c_int UrgentSocket = 23"
| "signal_as_c_int User1 = 10"
| "signal_as_c_int User2 = 12"
| "signal_as_c_int VirtualAlarm = 26"
| "signal_as_c_int WindowResize = 28"

definition signal_eq :: "signal \<Rightarrow> signal \<Rightarrow> bool" where
  "signal_eq a b \<longleftrightarrow> signal_as_c_int a = signal_as_c_int b"

section \<open>Signal sets\<close>

definition sigset :: "('w, 'z) libc_scheme \<Rightarrow> (sigset_t \<Rightarrow> sigset_t) \<Rightarrow> sigset_t" where
  "sigset L f = f (c_zeroed_sigset L)"

definition sigset_empty :: "('w, 'z) libc_scheme \<Rightarrow> sigset_t" where
  "sigset_empty L = sigset L (\<lambda>me. snd (c_sigemptyset L me))"

definition sigset_full :: "('w, 'z) libc_scheme \<Rightarrow> sigset_t" where
  "sigset_full L = sigset L (\<lambda>me. snd (c_sigfillset L me))"

definition sigset_add :: "('w, 'z) libc_scheme \<Rightarrow> signal \<Rightarrow> sigset_t \<Rightarrow> sigset_t" where
  "sigset_add L sig me = snd (c_sigaddset L me (signal_as_c_int sig))"

definition sigset_del :: "('w, 'z) libc_scheme \<Rightarrow> signal \<Rightarrow> sigset_t \<Rightarrow> sigset_t" where
  "sigset_del L sig me = snd (c_sigdelset L me (signal_as_c_int sig))"

definition sigset_has :: "('w, 'z) libc_scheme \<Rightarrow> signal \<Rightarrow> sigset_t \<Rightarrow> bool" where
  "sigset_has L sig me \<longleftrightarrow> c_sigismember L me (signal_as_c_int sig) \<noteq> 0"

section \<open>Actions\<close>

definition sigaction_new :: "handler \<Rightarrow> sigset_t \<Rightarrow> c_int \<Rightarrow> sigaction_t" where
  "sigaction_new h blocked flags =
     \<lparr>sa_sigaction = h, sa_mask = blocked, sa_flags = flags, sa_restorer = None\<rparr>"

text \<open>
  The accessors \<^verbatim>\<open>sa_sigaction\<close> and \<^verbatim>\<open>sa_sigaction_mut\<close> transmute the handler, a code address,
  into a reference to a handler: the address the reference points to is the handler itself, so
  reading through it (\<open>handler_at\<close>) reads the memory where the handler's instructions are.
\<close>

definition action_sa_sigaction :: "sigaction_t \<Rightarrow> usize" where
  "action_sa_sigaction self = sa_sigaction self"

definition action_sa_sigaction_mut :: "sigaction_t \<Rightarrow> usize" where
  "action_sa_sigaction_mut self = sa_sigaction self"

definition handler_at :: "(usize \<Rightarrow> usize) \<Rightarrow> usize \<Rightarrow> handler" where
  "handler_at memory reference = memory reference"

text \<open>The trait object \<^verbatim>\<open>&dyn Actionable\<close>: a \<^verbatim>\<open>Sigaction\<close>, or \<^verbatim>\<open>()\<close> for none.\<close>

datatype actionable = Action sigaction_t | NoAction

fun maybe :: "actionable \<Rightarrow> sigaction_t option" where
  "maybe (Action act) = Some act"
| "maybe NoAction = None"

section \<open>System calls\<close>

definition sigaction :: "('w, 'z) libc_scheme \<Rightarrow> signal \<Rightarrow> actionable \<Rightarrow>
    (('w, 's) process_scheme, sigaction_t io_result) comp" where
  "sigaction L sig new =
     bind (prim (c_sigaction L (signal_as_c_int sig) (maybe new))) (\<lambda>(code, old).
       if code = 0 then ret (Ok old) else bind (asks (last_os_error L)) (\<lambda>e. ret (Err e)))"

definition pthread_sigmask :: "('w, 'z) libc_scheme \<Rightarrow> operation \<Rightarrow> sigset_t \<Rightarrow>
    (('w, 's) process_scheme, sigset_t io_result) comp" where
  "pthread_sigmask L how new =
     bind (prim (c_pthread_sigmask L (operation_as_c_int how) new)) (\<lambda>(code, old).
       if code = 0 then ret (Ok old) else ret (Err code))"

definition sigprocmask :: "('w, 'z) libc_scheme \<Rightarrow> operation \<Rightarrow> sigset_t \<Rightarrow>
    (('w, 's) process_scheme, sigset_t io_result) comp" where
  "sigprocmask L how new = pthread_sigmask L how new"

definition pthread_kill :: "('w, 'z) gotcha_scheme \<Rightarrow> pthread_t \<Rightarrow> signal \<Rightarrow>
    (('w, 's) process_scheme, unit io_result) comp" where
  "pthread_kill G thread sig =
     bind (prim (libgotcha_pthread_kill G thread (signal_as_c_int sig))) (\<lambda>code.
       if code = 0 then ret (Ok ()) else ret (Err code))"

definition pthread_self :: "('w, 'z) libc_scheme \<Rightarrow> (('w, 's) process_scheme, pthread_t) comp" where
  "pthread_self L = asks (c_pthread_self L)"

section \<open>Documented behaviour\<close>

text \<open>\<^verbatim>\<open>sigsetops(3)\<close>, for signal numbers the system supports.\<close>

definition sigset_doc :: "('w, 'z) libc_scheme \<Rightarrow> bool" where
  "sigset_doc L \<longleftrightarrow>
     (\<forall>me. snd (c_sigemptyset L me) = {}) \<and>
     (\<forall>me sig. signal_as_c_int sig \<in> snd (c_sigfillset L me)) \<and>
     (\<forall>me sig. snd (c_sigaddset L me (signal_as_c_int sig)) = insert (signal_as_c_int sig) me) \<and>
     (\<forall>me sig. snd (c_sigdelset L me (signal_as_c_int sig)) = me - {signal_as_c_int sig}) \<and>
     (\<forall>me sig. c_sigismember L me (signal_as_c_int sig) = (if signal_as_c_int sig \<in> me then 1 else 0))"

text \<open>
  \<^verbatim>\<open>pthread_sigmask(3)\<close>: the only documented error is an invalid operation, and the wrapper
  passes the three valid ones; the call reports the old mask and changes nothing but the mask.
\<close>

fun mask_after :: "operation \<Rightarrow> sigset_t \<Rightarrow> sigset_t \<Rightarrow> sigset_t" where
  "mask_after Block new old = old \<union> new"
| "mask_after Unblock new old = old - new"
| "mask_after SetMask new old = new"

definition masked :: "('w, 'z) libc_scheme \<Rightarrow> operation \<Rightarrow> sigset_t \<Rightarrow> 'w \<Rightarrow> 'w" where
  "masked L how new w = snd (c_pthread_sigmask L (operation_as_c_int how) new w)"

definition sigmask_doc :: "('w, 'z) libc_scheme \<Rightarrow> bool" where
  "sigmask_doc L \<longleftrightarrow> (\<forall>how new w.
     fst (c_pthread_sigmask L (operation_as_c_int how) new w) = (0, v_mask (view L w)) \<and>
     view L (masked L how new w) = (view L w)\<lparr>v_mask := mask_after how new (v_mask (view L w))\<rparr>)"

text \<open>
  \<^verbatim>\<open>sigaction(2)\<close>: a successful call installs the new action if it is given one; without one
  it only reports.
\<close>

definition sigaction_doc :: "('w, 'z) libc_scheme \<Rightarrow> bool" where
  "sigaction_doc L \<longleftrightarrow> (\<forall>no act w. case c_sigaction L no act w of ((code, old), w') \<Rightarrow>
     (code = 0 \<longrightarrow> view L w' = (case act of None \<Rightarrow> view L w
        | Some a \<Rightarrow> (view L w)\<lparr>v_handler := (v_handler (view L w))(no \<mapsto> sa_sigaction a)\<rparr>)) \<and>
     (code \<noteq> 0 \<longrightarrow> view L w' = view L w))"

text \<open>
  \<^verbatim>\<open>pthread_kill(3)\<close> to the calling thread with a supported signal: neither documented error
  applies, and the signal becomes pending for the thread.
\<close>

definition killed :: "('w, 'z) gotcha_scheme \<Rightarrow> signal \<Rightarrow> 'w \<Rightarrow> 'w" where
  "killed G no w = snd (libgotcha_pthread_kill G (c_pthread_self G w) (signal_as_c_int no) w)"

definition kill_doc :: "('w, 'z) gotcha_scheme \<Rightarrow> bool" where
  "kill_doc G \<longleftrightarrow> (\<forall>no w.
     fst (libgotcha_pthread_kill G (c_pthread_self G w) (signal_as_c_int no) w) = 0 \<and>
     view G (killed G no w) =
       (view G w)\<lparr>v_pending := insert (signal_as_c_int no) (v_pending (view G w))\<rparr>)"

section \<open>Lemmas\<close>

lemma signal_as_c_int_inj: "signal_as_c_int a = signal_as_c_int b \<longleftrightarrow> a = b"
  by (cases a; cases b; simp)

lemma signal_as_c_int_range: "1 \<le> unat (signal_as_c_int a) \<and> unat (signal_as_c_int a) \<le> 31"
  by (cases a) simp_all

lemma signal_eq_iff [simp]: "signal_eq a b \<longleftrightarrow> a = b"
  by (simp add: signal_eq_def signal_as_c_int_inj)

lemma sigset_laws [platform_laws]:
  assumes "sigset_doc L"
  shows "sigset_empty L = {}"
    and "signal_as_c_int a \<in> sigset_full L"
    and "sigset_add L a me = insert (signal_as_c_int a) me"
    and "sigset_del L a me = me - {signal_as_c_int a}"
    and "sigset_has L a me \<longleftrightarrow> signal_as_c_int a \<in> me"
  using assms
  by (simp_all add: sigset_doc_def sigset_empty_def sigset_full_def sigset_add_def
      sigset_del_def sigset_has_def sigset_def)

text \<open>The accessors give the handler of an action only where its code begins with its own address.\<close>

lemma handler_at_new:
  "handler_at memory (action_sa_sigaction (sigaction_new h blocked flags)) = h \<longleftrightarrow> memory h = h"
  "action_sa_sigaction_mut act = action_sa_sigaction act"
  by (simp_all add: handler_at_def action_sa_sigaction_def action_sa_sigaction_mut_def sigaction_new_def)

text \<open>The set operations of the trait, in terms of each other.\<close>

lemma sigset_has_ops:
  assumes "sigset_doc L"
  shows "\<not> sigset_has L a (sigset_empty L)"
    and "sigset_has L a (sigset_full L)"
    and "sigset_has L a (sigset_add L b me) \<longleftrightarrow> a = b \<or> sigset_has L a me"
    and "sigset_has L a (sigset_del L b me) \<longleftrightarrow> a \<noteq> b \<and> sigset_has L a me"
  by (auto simp: sigset_laws [OF assms] signal_as_c_int_inj)

lemma sigmask_laws [platform_laws]:
  assumes "sigmask_doc L"
  shows "pthread_sigmask L how new s =
      (Val (Ok (v_mask (view L (world s)))), s\<lparr>world := masked L how new (world s)\<rparr>)"
    and "view L (masked L how new w) = (view L w)\<lparr>v_mask := mask_after how new (v_mask (view L w))\<rparr>"
  using assms by (simp_all add: sigmask_doc_def pthread_sigmask_def masked_def comp_simps)

lemma kill_laws [platform_laws]:
  assumes "kill_doc G"
  shows "pthread_kill G (c_pthread_self G (world s)) no s =
      (Val (Ok ()), s\<lparr>world := killed G no (world s)\<rparr>)"
    and "view G (killed G no w) =
      (view G w)\<lparr>v_pending := insert (signal_as_c_int no) (v_pending (view G w))\<rparr>"
  using assms by (simp_all add: kill_doc_def pthread_kill_def killed_def comp_simps)

lemma sigaction_cases:
  assumes "sigaction_doc L"
  obtains (ok) old w where "sigaction L sig new s = (Val (Ok old), s\<lparr>world := w\<rparr>)"
      "view L w = (case maybe new of None \<Rightarrow> view L (world s)
        | Some a \<Rightarrow> (view L (world s))\<lparr>v_handler :=
            (v_handler (view L (world s)))(signal_as_c_int sig \<mapsto> sa_sigaction a)\<rparr>)"
  | (failed) e w where "sigaction L sig new s = (Val (Err e), s\<lparr>world := w\<rparr>)"
      "view L w = view L (world s)"
proof -
  obtain code old w where
    c: "c_sigaction L (signal_as_c_int sig) (maybe new) (world s) = ((code, old), w)"
    by (metis prod.collapse)
  note d = assms [unfolded sigaction_doc_def, rule_format,
      where no = "signal_as_c_int sig" and act = "maybe new" and w = "world s"]
  show ?thesis
  proof (cases "code = 0")
    case True
    with c d show ?thesis by (intro ok [of old w]) (simp_all add: sigaction_def comp_simps)
  next
    case False
    with c d show ?thesis
      by (intro failed [of "last_os_error L w" w]) (simp_all add: sigaction_def comp_simps)
  qed
qed

end
