(* ===== verification/Tcb.thy ===== *)
theory Tcb
  imports Libsignal
begin

text \<open>
  \<^verbatim>\<open>src/tcb.rs\<close>, the virtual thread-control blocks, and \<^verbatim>\<open>src/tcbstub.rs\<close>, what replaces
  them when the library is built without thread-local storage support.  A thread-control block
  is addressed by the thread pointer (the \<^verbatim>\<open>fs\<close> base on x86-64); the library itself writes
  four of its words, so the words are state of the model.
\<close>

section \<open>State\<close>

record 'w tcbs = "'w process" +
  tcb_words :: "usize \<Rightarrow> nat \<Rightarrow> usize"

datatype maybe_mut = Ref usize | Mut usize

text \<open>\<^verbatim>\<open>From<&MaybeMut> for &usize\<close>: either way, the address.\<close>

fun maybe_mut_into :: "maybe_mut \<Rightarrow> usize" where
  "maybe_mut_into (Ref other) = other"
| "maybe_mut_into (Mut other) = other"

record tcb =
  tcb_fs :: "maybe_mut option"

record tcb_guard =
  guard_this :: tcb
  guard_parent :: tcb

datatype get_op = Get_Cpuid | Get_Fs | Get_Gs
datatype set_op = Set_Cpuid | Set_Fs | Set_Gs

fun get_op_as_c_int :: "get_op \<Rightarrow> c_int" where
  "get_op_as_c_int Get_Cpuid = 0x1011"
| "get_op_as_c_int Get_Fs = 0x1003"
| "get_op_as_c_int Get_Gs = 0x1004"

fun set_op_as_c_int :: "set_op \<Rightarrow> c_int" where
  "set_op_as_c_int Set_Cpuid = 0x1012"
| "set_op_as_c_int Set_Fs = 0x1002"
| "set_op_as_c_int Set_Gs = 0x1001"

section \<open>Operations\<close>

definition arch_prctl_get :: "('w, 'z) libc_scheme \<Rightarrow> get_op \<Rightarrow>
    (('w, 's) process_scheme, usize io_result) comp" where
  "arch_prctl_get L op =
     bind (prim (c_arch_prctl L (get_op_as_c_int op))) (\<lambda>(code, addr).
       if code = 0 then ret (Ok addr) else bind (asks (last_os_error L)) (\<lambda>e. ret (Err e)))"

definition arch_prctl_set :: "('w, 'z) gotcha_scheme \<Rightarrow> set_op \<Rightarrow> usize \<Rightarrow>
    (('w, 's) process_scheme, unit io_result) comp" where
  "arch_prctl_set G op val =
     bind (prim (libgotcha_arch_prctl G (set_op_as_c_int op) val)) (\<lambda>code.
       if code = 0 then ret (Ok ()) else bind (asks (last_os_error G)) (\<lambda>e. ret (Err e)))"

definition tcb_current :: "('w, 'z) libc_scheme \<Rightarrow>
    (('w, 's) process_scheme, tcb io_result) comp" where
  "tcb_current L = or_return (arch_prctl_get L Get_Fs) (\<lambda>fs. ret (Ok \<lparr>tcb_fs = Some (Ref fs)\<rparr>))"

definition write_word :: "usize \<Rightarrow> nat \<Rightarrow> usize \<Rightarrow> (('w, 's) tcbs_scheme, unit) comp" where
  "write_word fs i v = modify (\<lambda>s. s\<lparr>tcb_words := (tcb_words s)(fs := (tcb_words s fs)(i := v))\<rparr>)"

definition tcb_new :: "('w, 'z) libc_scheme \<Rightarrow> (('w, 's) tcbs_scheme, tcb) comp" where
  "tcb_new L =
     bind (prim (c_dl_allocate_tls L)) (\<lambda>fs.
     bind (expect ''libinger: could not allocate thread-control block'' fs) (\<lambda>fs.
     andthen (write_word fs 0 fs)
     (andthen (write_word fs 2 fs)
     (ret \<lparr>tcb_fs = Some (Mut fs)\<rparr>))))"

definition POINTER_GUARD :: nat where "POINTER_GUARD = 6"
definition KERNEL_THREAD :: nat where "KERNEL_THREAD = 90"

definition install_ctype :: "('w, 'z) gotcha_scheme \<Rightarrow> group option \<Rightarrow>
    (('w, 's) process_scheme, unit) comp" where
  "install_ctype G grp =
     andthen (primu (c_ctype_init G)) (case grp of
       None \<Rightarrow> ret ()
     | Some g \<Rightarrow> bind (asks (group_lookup_ctype_init G g)) (\<lambda>f. case f of
         Some ctype_init \<Rightarrow> primu ctype_init
       | None \<Rightarrow> failing (Aborted ''install(): could not get address of __ctype_init()'')))"

definition install_unguarded :: "('w, 'z) gotcha_scheme \<Rightarrow> group option \<Rightarrow> tcb \<Rightarrow>
    (('w, 's) tcbs_scheme, tcb option io_result) comp" where
  "install_unguarded G grp self =
     bind (unwrap (tcb_fs self)) (\<lambda>fs. case fs of
       Mut fs \<Rightarrow> or_return (tcb_current G) (\<lambda>cur.
         bind (unwrap (tcb_fs cur)) (\<lambda>c.
         bind (gets (\<lambda>s. tcb_words s (maybe_mut_into c))) (\<lambda>words.
         andthen (write_word fs POINTER_GUARD (words POINTER_GUARD))
         (andthen (write_word fs KERNEL_THREAD (words KERNEL_THREAD))
         (or_return (arch_prctl_set G Set_Fs fs) (\<lambda>_.
          andthen (install_ctype G grp) (ret (Ok (Some cur)))))))))
     | Ref fs \<Rightarrow> or_return (arch_prctl_set G Set_Fs fs) (\<lambda>_. ret (Ok None)))"

definition unguarded_parent :: "('w, 'z) gotcha_scheme \<Rightarrow>
    (('w, 's) process_scheme, tcb option io_result) comp \<Rightarrow>
    (('w, 's) process_scheme, tcb io_result) comp" where
  "unguarded_parent G this = or_return this (\<lambda>t. case t of
       Some parent \<Rightarrow> ret (Ok parent)
     | None \<Rightarrow> tcb_current G)"

text \<open>\<^verbatim>\<open>if let Some(MaybeMut::Mut(fs))\<close>: the address of a block that is owned.\<close>

fun owned_of :: "maybe_mut option \<Rightarrow> usize option" where
  "owned_of (Some (Mut fs)) = Some fs"
| "owned_of (Some (Ref _)) = None"
| "owned_of None = None"

text \<open>\<^verbatim>\<open>ThreadControlBlock::take\<close>: what the block is, and the empty block that stays behind.\<close>

definition tcb_take :: "tcb \<Rightarrow> maybe_mut option \<times> tcb" where
  "tcb_take self = (tcb_fs self, self\<lparr>tcb_fs := None\<rparr>)"

lemma tcb_take_run [simp]: "tcb_take b = (tcb_fs b, \<lparr>tcb_fs = None\<rparr>)" "\<lparr>tcb_fs = tcb_fs b\<rparr> = b"
  by (simp_all add: tcb_take_def)

text \<open>
  \<^verbatim>\<open>Drop for ThreadControlBlockGuard\<close>.  The fields of a guard are dropped after it; what is
  left in them by then is an empty block and a borrowed parent, neither of which has anything
  to release.
\<close>

definition drop_tcb_guard :: "('w, 'z) gotcha_scheme \<Rightarrow> tcb_guard \<Rightarrow>
    (('w, 's) tcbs_scheme, unit) comp" where
  "drop_tcb_guard G self =
     (let dealloc = owned_of (fst (tcb_take (guard_this self))) in
      andthen (only_if (dealloc \<noteq> None) (primu (c_call_tls_dtors G)))
      (bind (install_unguarded G None (guard_parent self)) (\<lambda>r.
       bind (unwrap_ok (io_error_debug G) r) (\<lambda>_.
       case dealloc of Some fs \<Rightarrow> primu (c_dl_deallocate_tls G fs) | None \<Rightarrow> ret ()))))"

text \<open>
  \<^verbatim>\<open>Drop for ThreadControlBlock\<close>: an owned block is installed once more so that its
  destructors run on it.  The message printed when that fails is the \<^verbatim>\<open>else\<close> branch.
\<close>

definition drop_tcb :: "('w, 'z) gotcha_scheme \<Rightarrow> tcb \<Rightarrow> (('w, 's) tcbs_scheme, unit) comp" where
  "drop_tcb G self = (case tcb_fs self of
       Some (Mut _) \<Rightarrow>
         bind (unguarded_parent G (install_unguarded G None self)) (\<lambda>r. case r of
           Ok parent \<Rightarrow> drop_tcb_guard G \<lparr>guard_this = \<lparr>tcb_fs = fst (tcb_take self)\<rparr>, guard_parent = parent\<rparr>
         | Err _ \<Rightarrow> ret ())
     | _ \<Rightarrow> ret ())"

text \<open>\<^verbatim>\<open>install\<close> consumes the block; when it fails, the block is dropped on the way out.\<close>

definition install :: "('w, 'z) gotcha_scheme \<Rightarrow> tcb \<Rightarrow> group \<Rightarrow>
    (('w, 's) tcbs_scheme, tcb_guard io_result) comp" where
  "install G self grp =
     bind (on_panic (unguarded_parent G (install_unguarded G (Some grp) self)) (drop_tcb G self))
       (\<lambda>r. case r of
          Ok parent \<Rightarrow> ret (Ok \<lparr>guard_this = self, guard_parent = parent\<rparr>)
        | Err e \<Rightarrow> andthen (drop_tcb G self) (ret (Err e)))"

text \<open>\<^verbatim>\<open>uninstall\<close> takes the block out of the guard, which is then dropped.\<close>

definition uninstall :: "('w, 'z) gotcha_scheme \<Rightarrow> tcb_guard \<Rightarrow>
    (('w, 's) tcbs_scheme, tcb io_result) comp" where
  "uninstall G self = (case tcb_take (guard_this self) of (this, left) \<Rightarrow>
     andthen (drop_tcb_guard G (self\<lparr>guard_this := left\<rparr>)) (ret (Ok \<lparr>tcb_fs = this\<rparr>)))"

section \<open>The stub\<close>

datatype stub_tcb = Stub_Tcb
datatype stub_guard = Stub_Guard

definition stub_new :: "('s, stub_tcb) comp" where
  "stub_new = ret Stub_Tcb"

definition stub_install :: "stub_tcb \<Rightarrow> group \<Rightarrow> ('s, stub_guard io_result) comp" where
  "stub_install self grp = ret (Ok Stub_Guard)"

definition stub_uninstall :: "stub_guard \<Rightarrow> ('s, stub_tcb io_result) comp" where
  "stub_uninstall self = ret (Ok Stub_Tcb)"

text \<open>Their destructors do nothing.\<close>

definition drop_stub_tcb :: "stub_tcb \<Rightarrow> ('s, unit) comp" where
  "drop_stub_tcb self = ret ()"

definition drop_stub_guard :: "stub_guard \<Rightarrow> ('s, unit) comp" where
  "drop_stub_guard self = ret ()"

section \<open>Documented behaviour\<close>

text \<open>
  \<^verbatim>\<open>arch_prctl(2)\<close>, also through \<^verbatim>\<open>libgotcha\<close>'s entry point, and the loader's functions,
  which do not change what the thread's view shows.
\<close>

definition prctl_doc :: "('w, 'z) gotcha_scheme \<Rightarrow> bool" where
  "prctl_doc G \<longleftrightarrow>
     (\<forall>w. case c_arch_prctl G (get_op_as_c_int Get_Fs) w of ((code, addr), w') \<Rightarrow>
        view G w' = view G w \<and> (code = 0 \<longrightarrow> addr = v_fs (view G w))) \<and>
     (\<forall>a w. case libgotcha_arch_prctl G (set_op_as_c_int Set_Fs) a w of (code, w') \<Rightarrow>
        (code = 0 \<longrightarrow> view G w' = (view G w)\<lparr>v_fs := a\<rparr>) \<and> (code \<noteq> 0 \<longrightarrow> view G w' = view G w)) \<and>
     (\<forall>w. view G (c_ctype_init G w) = view G w) \<and>
     (\<forall>g w f. group_lookup_ctype_init G g w = Some f \<longrightarrow> view G (f w) = view G w) \<and>
     (\<forall>w. view G (c_call_tls_dtors G w) = view G w) \<and>
     (\<forall>a w. view G (c_dl_deallocate_tls G a w) = view G w) \<and>
     (\<forall>w. view G (snd (c_dl_allocate_tls G w)) = view G w)"

lemma prctl_laws [platform_laws]:
  assumes "prctl_doc G"
  shows "view G (c_ctype_init G w) = view G w"
    and "group_lookup_ctype_init G g v = Some f \<Longrightarrow> view G (f v) = view G v"
    and "view G (c_call_tls_dtors G w) = view G w"
    and "view G (c_dl_deallocate_tls G a w) = view G w"
    and "view G (snd (c_dl_allocate_tls G w)) = view G w"
  using assms by (simp_all add: prctl_doc_def)

lemma tcb_current_cases:
  assumes "prctl_doc G"
  obtains (ok) w where "tcb_current G s = (Val (Ok \<lparr>tcb_fs = Some (Ref (v_fs (view G (world s))))\<rparr>), s\<lparr>world := w\<rparr>)"
      "view G w = view G (world s)"
  | (failed) e w where "tcb_current G s = (Val (Err e), s\<lparr>world := w\<rparr>)" "view G w = view G (world s)"
proof -
  obtain code a w where c: "c_arch_prctl G (get_op_as_c_int Get_Fs) (world s) = ((code, a), w)"
    by (metis prod.collapse)
  have d: "view G w = view G (world s) \<and> (code = 0 \<longrightarrow> a = v_fs (view G (world s)))"
    using assms [unfolded prctl_doc_def, THEN conjunct1, rule_format, where w = "world s"] c by simp
  show ?thesis
  proof (cases "code = 0")
    case True
    with c d show ?thesis
      by (intro ok [of w]) (simp_all add: tcb_current_def arch_prctl_get_def comp_simps)
  next
    case False
    with c d show ?thesis
      by (intro failed [of "last_os_error G w" w])
        (simp_all add: tcb_current_def arch_prctl_get_def comp_simps)
  qed
qed

lemma arch_prctl_set_cases:
  assumes "prctl_doc G"
  obtains (ok) w where "arch_prctl_set G Set_Fs a s = (Val (Ok ()), s\<lparr>world := w\<rparr>)"
      "view G w = (view G (world s))\<lparr>v_fs := a\<rparr>"
  | (failed) e w where "arch_prctl_set G Set_Fs a s = (Val (Err e), s\<lparr>world := w\<rparr>)"
      "view G w = view G (world s)"
proof -
  obtain code w where c: "libgotcha_arch_prctl G (set_op_as_c_int Set_Fs) a (world s) = (code, w)"
    by (metis prod.collapse)
  have d: "(code = 0 \<longrightarrow> view G w = (view G (world s))\<lparr>v_fs := a\<rparr>) \<and> (code \<noteq> 0 \<longrightarrow> view G w = view G (world s))"
    using assms [unfolded prctl_doc_def, THEN conjunct2, THEN conjunct1, rule_format,
        where w = "world s" and a = a] c by simp
  show ?thesis
  proof (cases "code = 0")
    case True
    with c d show ?thesis
      by (intro ok [of w]) (simp_all add: arch_prctl_set_def comp_simps)
  next
    case False
    with c d show ?thesis
      by (intro failed [of "last_os_error G w" w]) (simp_all add: arch_prctl_set_def comp_simps)
  qed
qed

section \<open>Installing and uninstalling\<close>

abbreviation fs_of :: "('w, 'z) libc_scheme \<Rightarrow> ('w, 's) process_scheme \<Rightarrow> usize" where
  "fs_of L s \<equiv> v_fs (view L (world s))"

text \<open>The words the block at \<open>a\<close> takes over from the block at \<open>cur\<close>.\<close>

definition inherit :: "usize \<Rightarrow> usize \<Rightarrow> ('w, 's) tcbs_scheme \<Rightarrow> ('w, 's) tcbs_scheme" where
  "inherit a cur s = s\<lparr>tcb_words := (tcb_words s)(a := (tcb_words s a)
     (POINTER_GUARD := tcb_words s cur POINTER_GUARD,
      KERNEL_THREAD := tcb_words s cur KERNEL_THREAD))\<rparr>"

lemma world_before_words: "s\<lparr>world := w, tcb_words := f\<rparr> = s\<lparr>tcb_words := f, world := w\<rparr>"
  by (cases s) simp

lemma install_ctype_cases:
  assumes "prctl_doc G"
  obtains (ok) w where "install_ctype G grp s = (Val (), s\<lparr>world := w\<rparr>)" "view G w = view G (world s)"
  | (aborted) msg t where "install_ctype G grp s = (Fail (Aborted msg), t)"
proof (cases grp)
  case None
  then show ?thesis
    by (intro ok [of "c_ctype_init G (world s)"])
      (simp_all add: install_ctype_def comp_simps prctl_laws [OF assms])
next
  case (Some g)
  let ?w = "c_ctype_init G (world s)"
  show ?thesis
  proof (cases "group_lookup_ctype_init G g ?w")
    case None
    with Some show ?thesis
      by (intro aborted) (simp add: install_ctype_def comp_simps)
  next
    case f: (Some f)
    with Some show ?thesis
      by (intro ok [of "f ?w"]) (simp_all add: install_ctype_def comp_simps prctl_laws [OF assms])
  qed
qed

lemma install_unguarded_Mut_cases:
  assumes "prctl_doc G"
  obtains (ok) w where "install_unguarded G grp \<lparr>tcb_fs = Some (Mut a)\<rparr> s =
      (Val (Ok (Some \<lparr>tcb_fs = Some (Ref (fs_of G s))\<rparr>)), (inherit a (fs_of G s) s)\<lparr>world := w\<rparr>)"
      "view G w = (view G (world s))\<lparr>v_fs := a\<rparr>"
  | (failed) e t where "install_unguarded G grp \<lparr>tcb_fs = Some (Mut a)\<rparr> s = (Val (Err e), t)"
      "view G (world t) = view G (world s)"
  | (aborted) msg t where "install_unguarded G grp \<lparr>tcb_fs = Some (Mut a)\<rparr> s = (Fail (Aborted msg), t)"
  using assms
proof (cases rule: tcb_current_cases [where s = s])
  case (failed e w)
  then show ?thesis
    by (intro that(2) [of e "s\<lparr>world := w\<rparr>"]) (simp_all add: install_unguarded_def comp_simps)
next
  case (ok w)
  let ?s = "(inherit a (fs_of G s) s)\<lparr>world := w\<rparr>"
  have v: "view G (world ?s) = view G (world s)" using ok by simp
  have run: "install_unguarded G grp \<lparr>tcb_fs = Some (Mut a)\<rparr> s =
      or_return (arch_prctl_set G Set_Fs a) (\<lambda>_. andthen (install_ctype G grp)
        (ret (Ok (Some \<lparr>tcb_fs = Some (Ref (fs_of G s))\<rparr>)))) ?s"
    using ok by (simp add: install_unguarded_def comp_simps inherit_def write_word_def
        world_before_words)
  from assms show ?thesis
  proof (cases rule: arch_prctl_set_cases [where s = ?s and a = a])
    case (failed e u)
    then show ?thesis using run v
      by (intro that(2) [of e "?s\<lparr>world := u\<rparr>"]) (simp_all add: comp_simps)
  next
    case set: (ok u)
    from assms show ?thesis
    proof (cases rule: install_ctype_cases [where s = "?s\<lparr>world := u\<rparr>" and grp = grp])
      case (ok x)
      with set run v show ?thesis by (intro that(1) [of x]) (simp_all add: comp_simps)
    next
      case (aborted msg t)
      with set run show ?thesis by (intro that(3)) (simp add: comp_simps)
    qed
  qed
qed

lemma install_unguarded_Ref_cases:
  assumes "prctl_doc G"
  obtains (ok) w where "install_unguarded G grp \<lparr>tcb_fs = Some (Ref a)\<rparr> s = (Val (Ok None), s\<lparr>world := w\<rparr>)"
      "view G w = (view G (world s))\<lparr>v_fs := a\<rparr>"
  | (failed) e w where "install_unguarded G grp \<lparr>tcb_fs = Some (Ref a)\<rparr> s = (Val (Err e), s\<lparr>world := w\<rparr>)"
      "view G w = view G (world s)"
  using assms
proof (cases rule: arch_prctl_set_cases [where s = s and a = a])
  case (ok w)
  then show ?thesis by (intro that(1) [of w]) (simp_all add: install_unguarded_def comp_simps)
next
  case (failed e w)
  then show ?thesis by (intro that(2) [of e w]) (simp_all add: install_unguarded_def comp_simps)
qed

text \<open>Dropping a guard puts the parent's thread pointer back, or panics.\<close>

lemma drop_tcb_guard_restores:
  assumes "prctl_doc G" and "guard_parent gd = \<lparr>tcb_fs = Some (Ref p)\<rparr>"
    and "drop_tcb_guard G gd s = (Val (), t)"
  shows "view G (world t) = (view G (world s))\<lparr>v_fs := p\<rparr>" and "tcb_words t = tcb_words s"
proof -
  let ?d = "owned_of (tcb_fs (guard_this gd))"
  let ?s = "if ?d = None then s else s\<lparr>world := c_call_tls_dtors G (world s)\<rparr>"
  have v: "view G (world ?s) = view G (world s)" "tcb_words ?s = tcb_words s"
    by (simp_all add: prctl_laws [OF assms(1)])
  have run: "drop_tcb_guard G gd s = bind (install_unguarded G None \<lparr>tcb_fs = Some (Ref p)\<rparr>) (\<lambda>r.
      bind (unwrap_ok (io_error_debug G) r) (\<lambda>_. case ?d of Some fs \<Rightarrow> primu (c_dl_deallocate_tls G fs) | None \<Rightarrow> ret ())) ?s"
    by (cases ?d) (simp_all add: drop_tcb_guard_def comp_simps Let_def assms(2))
  have "view G (world t) = (view G (world s))\<lparr>v_fs := p\<rparr> \<and> tcb_words t = tcb_words s"
    using assms(1)
  proof (cases rule: install_unguarded_Ref_cases [where s = ?s and a = p and grp = None])
    case (ok w)
    with run assms(3) v show ?thesis
      by (auto simp: comp_simps prctl_laws [OF assms(1)] split: option.splits)
  next
    case (failed e w)
    with run assms(3) show ?thesis by (simp add: comp_simps)
  qed
  then show "view G (world t) = (view G (world s))\<lparr>v_fs := p\<rparr>" and "tcb_words t = tcb_words s"
    by simp_all
qed

lemma install_Ok:
  assumes "prctl_doc G" and "install G \<lparr>tcb_fs = Some (Mut a)\<rparr> grp s = (Val (Ok gd), t)"
  shows "gd = \<lparr>guard_this = \<lparr>tcb_fs = Some (Mut a)\<rparr>, guard_parent = \<lparr>tcb_fs = Some (Ref (fs_of G s))\<rparr>\<rparr>"
    and "view G (world t) = (view G (world s))\<lparr>v_fs := a\<rparr>"
    and "tcb_words t = tcb_words (inherit a (fs_of G s) s)"
proof -
  have "gd = \<lparr>guard_this = \<lparr>tcb_fs = Some (Mut a)\<rparr>, guard_parent = \<lparr>tcb_fs = Some (Ref (fs_of G s))\<rparr>\<rparr>
    \<and> view G (world t) = (view G (world s))\<lparr>v_fs := a\<rparr> \<and> tcb_words t = tcb_words (inherit a (fs_of G s) s)"
    using assms(1)
  proof (cases rule: install_unguarded_Mut_cases [where s = s and a = a and grp = "Some grp"])
    case (ok w)
    with assms(2) show ?thesis
      by (auto simp: install_def comp_simps unguarded_parent_def on_panic_def)
  next
    case (failed e u)
    with assms(2) show ?thesis
      by (auto simp: install_def comp_simps unguarded_parent_def on_panic_def
          split: prod.splits outcome.splits)
  next
    case (aborted msg u)
    with assms(2) show ?thesis
      by (simp add: install_def comp_simps unguarded_parent_def on_panic_def)
  qed
  then show "gd = \<lparr>guard_this = \<lparr>tcb_fs = Some (Mut a)\<rparr>, guard_parent = \<lparr>tcb_fs = Some (Ref (fs_of G s))\<rparr>\<rparr>"
    and "view G (world t) = (view G (world s))\<lparr>v_fs := a\<rparr>"
    and "tcb_words t = tcb_words (inherit a (fs_of G s) s)" by simp_all
qed

lemma uninstall_Val:
  assumes "prctl_doc G" and "guard_parent gd = \<lparr>tcb_fs = Some (Ref p)\<rparr>"
    and "uninstall G gd s = (Val r, t)"
  shows "r = Ok (guard_this gd)" and "view G (world t) = (view G (world s))\<lparr>v_fs := p\<rparr>"
    and "tcb_words t = tcb_words s"
  using assms drop_tcb_guard_restores [OF assms(1), of "gd\<lparr>guard_this := \<lparr>tcb_fs = None\<rparr>\<rparr>" p s t]
  by (auto simp: uninstall_def comp_simps split: prod.splits outcome.splits)

text \<open>Dropping an owned block leaves the thread pointer where it was, unless it panics.\<close>

lemma drop_tcb_restores:
  assumes "prctl_doc G" and "drop_tcb G \<lparr>tcb_fs = Some (Mut a)\<rparr> s = (Val (), t)"
  shows "view G (world t) = view G (world s)"
  using assms(1)
proof (cases rule: install_unguarded_Mut_cases [where s = s and a = a and grp = None])
  case (ok w)
  let ?gd = "\<lparr>guard_this = \<lparr>tcb_fs = Some (Mut a)\<rparr>, guard_parent = \<lparr>tcb_fs = Some (Ref (fs_of G s))\<rparr>\<rparr>"
  have "drop_tcb_guard G ?gd ((inherit a (fs_of G s) s)\<lparr>world := w\<rparr>) = (Val (), t)"
    using ok assms(2) by (simp add: drop_tcb_def comp_simps unguarded_parent_def)
  from drop_tcb_guard_restores(1) [OF assms(1) _ this] ok show ?thesis by simp
next
  case (failed e u)
  with assms(2) show ?thesis by (simp add: drop_tcb_def comp_simps unguarded_parent_def)
next
  case (aborted msg u)
  with assms(2) show ?thesis by (simp add: drop_tcb_def comp_simps unguarded_parent_def)
qed

lemma install_Err:
  assumes "prctl_doc G" and "install G \<lparr>tcb_fs = Some (Mut a)\<rparr> grp s = (Val (Err e), t)"
  shows "view G (world t) = view G (world s)"
  using assms(1)
proof (cases rule: install_unguarded_Mut_cases [where s = s and a = a and grp = "Some grp"])
  case (ok w)
  with assms(2) show ?thesis
    by (auto simp: install_def comp_simps unguarded_parent_def on_panic_def)
next
  case (failed e' u)
  with assms(2) have "drop_tcb G \<lparr>tcb_fs = Some (Mut a)\<rparr> u = (Val (), t)"
    by (auto simp: install_def comp_simps unguarded_parent_def on_panic_def
        split: prod.splits outcome.splits)
  from drop_tcb_restores [OF assms(1) this] failed show ?thesis by simp
next
  case (aborted msg u)
  with assms(2) show ?thesis
    by (simp add: install_def comp_simps unguarded_parent_def on_panic_def)
qed

section \<open>The interface of a thread-control block\<close>

text \<open>
  What \<^verbatim>\<open>resume\<close> relies on, from the real blocks and from the stub alike: a block that was
  installed comes back from \<^verbatim>\<open>uninstall\<close>, and the thread pointer is then again what it was
  before; a block that could not be installed leaves it where it was.
\<close>

locale tcb_provider =
  fixes install :: "'b \<Rightarrow> group \<Rightarrow> ('s, 'g io_result) comp"
    and uninstall :: "'g \<Rightarrow> ('s, 'b io_result) comp"
    and pointer :: "'s \<Rightarrow> usize"
    and valid :: "'b \<Rightarrow> bool"
  assumes install_Err_pointer: "valid b \<Longrightarrow> install b g s = (Val (Err e), t) \<Longrightarrow> pointer t = pointer s"
    and uninstall_gives_back: "valid b \<Longrightarrow> install b g s = (Val (Ok gd), t) \<Longrightarrow>
      uninstall gd u = (Val r, v) \<Longrightarrow> r = Ok b \<and> pointer v = pointer s"
begin

text \<open>Any computation can run between the two: what it does to the pointer is undone.\<close>

lemma bracket:
  assumes "valid b"
    and "or_return (install b g) (\<lambda>gd. andthen body (uninstall gd)) s = (Val r, v)"
  shows "pointer v = pointer s" and "r = Ok b \<or> (\<exists>e. r = Err e)"
proof -
  obtain x t where i: "install b g s = (Val x, t)"
    using assms(2) by (auto simp: comp_simps split: prod.splits outcome.splits)
  have "pointer v = pointer s \<and> (r = Ok b \<or> (\<exists>e. r = Err e))"
  proof (cases x)
    case (Err e)
    with i assms install_Err_pointer [OF assms(1)] show ?thesis by (auto simp: comp_simps)
  next
    case (Ok gd)
    with i assms(2) obtain u where "uninstall gd u = (Val r, v)"
      by (auto simp: comp_simps split: prod.splits outcome.splits)
    with i Ok uninstall_gives_back [OF assms(1)] show ?thesis by blast
  qed
  then show "pointer v = pointer s" and "r = Ok b \<or> (\<exists>e. r = Err e)" by simp_all
qed

end

definition owned_block :: "tcb \<Rightarrow> bool" where
  "owned_block b \<longleftrightarrow> (\<exists>a. b = \<lparr>tcb_fs = Some (Mut a)\<rparr>)"

interpretation tcb: tcb_provider "install G" "uninstall G" "fs_of G"
    "\<lambda>b. prctl_doc G \<and> owned_block b"
  for G :: "('w, 'z) gotcha_scheme"
proof unfold_locales
  fix b g and s :: "('w, 's) tcbs_scheme" and e t
  assume "prctl_doc G \<and> owned_block b" and "install G b g s = (Val (Err e), t)"
  then show "fs_of G t = fs_of G s" by (auto simp: owned_block_def dest: install_Err)
next
  fix b g and s :: "('w, 's) tcbs_scheme" and gd t u r v
  assume a: "prctl_doc G \<and> owned_block b" "install G b g s = (Val (Ok gd), t)"
    "uninstall G gd u = (Val r, v)"
  then obtain x where "b = \<lparr>tcb_fs = Some (Mut x)\<rparr>" by (auto simp: owned_block_def)
  with a install_Ok(1) [of G x g s gd t] have
    "gd = \<lparr>guard_this = b, guard_parent = \<lparr>tcb_fs = Some (Ref (fs_of G s))\<rparr>\<rparr>" by simp
  with a uninstall_Val(1,2) [of G gd "fs_of G s" u r v] show "r = Ok b \<and> fs_of G v = fs_of G s"
    by simp
qed

interpretation stub: tcb_provider stub_install stub_uninstall "\<lambda>_. p" "\<lambda>_. True"
  for p
  by unfold_locales (simp_all add: stub_install_def stub_uninstall_def, metis stub_tcb.exhaust)

end
