(* ===== verification/Timer.thy ===== *)
theory Timer
  imports Libsignal
begin

text \<open>
  \<^verbatim>\<open>src/timer.rs\<close>: POSIX per-process timers.  A \<^verbatim>\<open>sigevent\<close> starts out uninitialized, so
  the fields no constructor writes keep whatever the platform's uninitialized value has.
\<close>

section \<open>Clocks and notifications\<close>

datatype clock = Boot | BootAlarm | Mono | Process | Real | RealAlarm | Thread

fun clock_as_c_int :: "clock \<Rightarrow> c_int" where
  "clock_as_c_int Boot = 7"
| "clock_as_c_int BootAlarm = 9"
| "clock_as_c_int Mono = 1"
| "clock_as_c_int Process = 2"
| "clock_as_c_int Real = 0"
| "clock_as_c_int RealAlarm = 8"
| "clock_as_c_int Thread = 3"

definition SIGEV_SIGNAL :: c_int where "SIGEV_SIGNAL = 0"
definition SIGEV_NONE :: c_int where "SIGEV_NONE = 1"
definition SIGEV_THREAD_ID :: c_int where "SIGEV_THREAD_ID = 4"
definition TIMER_ABSTIME :: c_int where "TIMER_ABSTIME = 1"

definition uninitialized :: "('w, 'z) libc_scheme \<Rightarrow> sigevent_t" where
  "uninitialized L = c_uninit_sigevent L"

definition sigevent_new :: "('w, 'z) libc_scheme \<Rightarrow> c_int \<Rightarrow> sigevent_t" where
  "sigevent_new L notify = (uninitialized L)\<lparr>sigev_notify := notify\<rparr>"

definition sigevent_none :: "('w, 'z) libc_scheme \<Rightarrow> sigevent_t" where
  "sigevent_none L = sigevent_new L SIGEV_NONE"

definition sigevent_signal :: "('w, 'z) libc_scheme \<Rightarrow> signal \<Rightarrow> sigevent_t" where
  "sigevent_signal L sig =
     (let this = sigevent_new L SIGEV_SIGNAL in this\<lparr>sigev_signo := signal_as_c_int sig\<rparr>)"

definition sigevent_thread_id :: "('w, 'z) libc_scheme \<Rightarrow> signal \<Rightarrow> c_int \<Rightarrow> sigevent_t" where
  "sigevent_thread_id L sig thread =
     (let this = sigevent_new L SIGEV_THREAD_ID in
        this\<lparr>sigev_signo := signal_as_c_int sig, sigev_notify_thread_id := thread\<rparr>)"

section \<open>Timers\<close>

type_synonym timer = usize

definition timer_create :: "('w, 'z) libc_scheme \<Rightarrow> clock \<Rightarrow> sigevent_t \<Rightarrow>
    (('w, 's) process_scheme, timer io_result) comp" where
  "timer_create L clockid sevp =
     bind (prim (c_timer_create L (clock_as_c_int clockid) sevp)) (\<lambda>(code, timer).
       if code \<noteq> 0 then bind (asks (last_os_error L)) (\<lambda>e. ret (Err e)) else ret (Ok timer))"

definition timer_settime :: "('w, 'z) libc_scheme \<Rightarrow> timer \<Rightarrow> bool \<Rightarrow> itimerspec \<Rightarrow>
    (('w, 's) process_scheme, itimerspec io_result) comp" where
  "timer_settime L timerid absolute new =
     (let flags = (if absolute then TIMER_ABSTIME else 0) in
      bind (prim (c_timer_settime L timerid flags new)) (\<lambda>(code, old).
        if code \<noteq> 0 then bind (asks (last_os_error L)) (\<lambda>e. ret (Err e)) else ret (Ok old)))"

definition timer_delete :: "('w, 'z) libc_scheme \<Rightarrow> timer \<Rightarrow>
    (('w, 's) process_scheme, unit io_result) comp" where
  "timer_delete L timerid =
     bind (prim (c_timer_delete L timerid)) (\<lambda>code.
       if code \<noteq> 0 then bind (asks (last_os_error L)) (\<lambda>e. ret (Err e)) else ret (Ok ()))"

section \<open>Documented behaviour\<close>

text \<open>
  \<^verbatim>\<open>timer_settime(2)\<close>: \<open>EINVAL\<close> when a nanoseconds field is negative or above 999,999,999.
\<close>

definition timespec_valid :: "timespec \<Rightarrow> bool" where
  "timespec_valid t \<longleftrightarrow> 0 \<le> sint (tv_sec t) \<and> 0 \<le> sint (tv_nsec t) \<and> sint (tv_nsec t) \<le> 999999999"

definition itimerspec_valid :: "itimerspec \<Rightarrow> bool" where
  "itimerspec_valid it \<longleftrightarrow> timespec_valid (it_interval it) \<and> timespec_valid (it_value it)"

text \<open>
  \<^verbatim>\<open>timer_create(2)\<close> and \<^verbatim>\<open>timer_settime(2)\<close>.  \<open>tmr\<close> tells what timers there are: the clock each follows, what it is to do
  when it expires, and the flags and times it was last armed with, if any.  A new timer is not armed, a call that fails to arm
  one changes none, and the calls for signals have nothing to do with them.
\<close>

type_synonym 'w timers = "'w \<Rightarrow> timer \<Rightarrow> (c_int \<times> sigevent_t \<times> (c_int \<times> itimerspec) option) option"

definition armed_doc :: "('w, 'z) libc_scheme \<Rightarrow> 'w timers \<Rightarrow> bool" where
  "armed_doc L tmr \<longleftrightarrow>
     (\<forall>c e w. case c_timer_create L c e w of ((code, t), w') \<Rightarrow> code = 0 \<longrightarrow> tmr w' = (tmr w)(t \<mapsto> (c, e, None))) \<and>
     (\<forall>t f it w. case c_timer_settime L t f it w of ((code, _), w') \<Rightarrow> tmr w' = (if code = 0
        then (tmr w)(t := map_option (\<lambda>(c, e, _). (c, e, Some (f, it))) (tmr w t)) else tmr w)) \<and>
     (\<forall>n a w. tmr (snd (c_sigaction L n a w)) = tmr w) \<and> (\<forall>h m w. tmr (snd (c_pthread_sigmask L h m w)) = tmr w)"

lemma armed_laws:
  assumes "armed_doc L tmr"
  shows "fst (fst (c_timer_create L c e w)) = 0 \<Longrightarrow>
      tmr (snd (c_timer_create L c e w)) = (tmr w)(snd (fst (c_timer_create L c e w)) \<mapsto> (c, e, None))"
    and "tmr (snd (c_timer_settime L t f it w)) = (if fst (fst (c_timer_settime L t f it w)) = 0
      then (tmr w)(t := map_option (\<lambda>(c, e, _). (c, e, Some (f, it))) (tmr w t)) else tmr w)"
    and "tmr (snd (c_sigaction L n a w)) = tmr w" and "tmr (snd (c_pthread_sigmask L h m w)) = tmr w"
  using assms by (simp_all add: armed_doc_def split_beta)

text \<open>The timer calls leave the calling thread's view alone.\<close>

definition timer_doc :: "('w, 'z) libc_scheme \<Rightarrow> bool" where
  "timer_doc L \<longleftrightarrow>
     (\<forall>c e w. view L (snd (c_timer_create L c e w)) = view L w) \<and>
     (\<forall>t f n w. view L (snd (c_timer_settime L t f n w)) = view L w) \<and>
     (\<forall>t w. view L (snd (c_timer_delete L t w)) = view L w)"

lemma timer_laws [platform_laws]:
  assumes "timer_doc L"
  shows "view L (snd (c_timer_create L c e w)) = view L w"
    and "view L (snd (c_timer_settime L t f n w)) = view L w"
    and "view L (snd (c_timer_delete L t w)) = view L w"
  using assms by (simp_all add: timer_doc_def)

text \<open>An event that raises a signal names that signal and nothing else the source sets.\<close>

lemma sigevent_signal_fields:
  "sigev_notify (sigevent_signal L sig) = SIGEV_SIGNAL"
  "sigev_signo (sigevent_signal L sig) = signal_as_c_int sig"
  "sigev_notify_thread_id (sigevent_signal L sig) = sigev_notify_thread_id (uninitialized L)"
  by (simp_all add: sigevent_signal_def sigevent_new_def)

end
