(* ===== verification/Pools.thy ===== *)
theory Pools
  imports Tcb Timer
begin

text \<open>
  The four process-wide pools: libsets (\<^verbatim>\<open>src/groups.rs\<close>), execution stacks
  (\<^verbatim>\<open>src/stacks.rs\<close>), preemption signals (\<^verbatim>\<open>src/signals.rs\<close>) and thread-control blocks
  (\<^verbatim>\<open>src/localstores.rs\<close>).  Each is a static that its first use initializes; the stacks and
  the blocks are preallocated, one for each libset there can be.
\<close>

section \<open>Statics\<close>

datatype once = Once_New | Once_Done | Once_Poisoned

record stack =
  stack_addr :: nat
  stack_len :: nat

record 'w statics = "'w tcbs" +
  GROUPS :: "group list mutex option"
  GROUPS_INIT :: once
  STACKS :: "stack list mutex option"
  STACKS_INIT :: once
  SIGNALS :: "signal list mutex option"
  SIGNALS_free :: usize
  SIGNALS_INIT :: once
  LOCALSTORES :: "tcb option list mutex option"
  LOCALSTORES_INIT :: once
  heap_next :: nat

text \<open>\<^verbatim>\<open>Once::call_once\<close>: a panicking initializer poisons it for good.\<close>

definition call_once :: "('s, once) place \<Rightarrow> ('s, unit) comp \<Rightarrow> ('s, unit) comp" where
  "call_once pl init = (\<lambda>s. case place_get pl s of
      Once_Done \<Rightarrow> (Val (), s)
    | Once_Poisoned \<Rightarrow> (Fail (Panicked ''Once instance has previously been poisoned''), s)
    | Once_New \<Rightarrow> (case init s of
        (Val _, t) \<Rightarrow> (Val (), place_put pl Once_Done t)
      | (Fail (Panicked msg), t) \<Rightarrow> (Fail (Panicked msg), place_put pl Once_Poisoned t)
      | (Fail e, t) \<Rightarrow> (Fail e, t)))"

section \<open>Groups\<close>

definition groups_place :: "(('w, 's) statics_scheme, group list mutex) place" where
  "groups_place = \<lparr>place_get = (\<lambda>s. the (GROUPS s)), place_put = (\<lambda>c s. s\<lparr>GROUPS := Some c\<rparr>)\<rparr>"

definition groups_once :: "(('w, 's) statics_scheme, once) place" where
  "groups_once = \<lparr>place_get = GROUPS_INIT, place_put = (\<lambda>c s. s\<lparr>GROUPS_INIT := c\<rparr>)\<rparr>"

definition group_builder :: "('w, 'z) gotcha_scheme \<Rightarrow>
    (('w, 's) process_scheme, group option) comp" where
  "group_builder G = prim (group_new G)"

definition assign_group :: "('w, 'z) gotcha_scheme \<Rightarrow>
    (('w, 's) statics_scheme, (group reusable, poison_error option) result) comp" where
  "assign_group G =
     andthen (call_once groups_once (modify (\<lambda>s. s\<lparr>GROUPS := Some mutex_default\<rparr>)))
     (bind (gets GROUPS) (\<lambda>groups.
      bind (unwrap groups) (\<lambda>_. try_from mutex_ops groups_place (group_builder G))))"

section \<open>Stacks\<close>

definition STACK_SIZE_BYTES :: nat where
  "STACK_SIZE_BYTES = 2 * 1024 * 1024"

definition stacks_place :: "(('w, 's) statics_scheme, stack list mutex) place" where
  "stacks_place = \<lparr>place_get = (\<lambda>s. the (STACKS s)), place_put = (\<lambda>c s. s\<lparr>STACKS := Some c\<rparr>)\<rparr>"

definition stacks_once :: "(('w, 's) statics_scheme, once) place" where
  "stacks_once = \<lparr>place_get = STACKS_INIT, place_put = (\<lambda>c s. s\<lparr>STACKS_INIT := c\<rparr>)\<rparr>"

definition stack_builder :: "(('w, 's) statics_scheme, stack option) comp" where
  "stack_builder = bind (gets heap_next) (\<lambda>a.
     andthen (modify (\<lambda>s. s\<lparr>heap_next := Suc a\<rparr>))
     (ret (Some \<lparr>stack_addr = a, stack_len = STACK_SIZE_BYTES\<rparr>)))"

definition alloc_stack :: "('w, 'z) gotcha_scheme \<Rightarrow>
    (('w, 's) statics_scheme, stack reusable) comp" where
  "alloc_stack G =
     andthen (call_once stacks_once
       (bind (with_local mutex_default (prealloc mutex_ops local_place (elsewhere stack_builder) (group_limit G)))
         (\<lambda>(r, stacks).
            andthen (expect_ok ''libinger: stack allocator lock was poisoned during init'' (debug_option debug_poison_error) r)
              (modify (\<lambda>s. s\<lparr>STACKS := Some stacks\<rparr>)))))
     (bind (gets STACKS) (\<lambda>stacks.
      bind (unwrap stacks) (\<lambda>_.
      bind (try_from mutex_ops stacks_place stack_builder)
        (expect_ok ''libinger: stack allocator lock is poisoned'' (debug_option debug_poison_error)))))"

text \<open>\<^verbatim>\<open>DerefAdapter\<close>: one dereference that goes through the pool's wrapper and the box.\<close>

record 't deref_adapter =
  adapted :: 't

definition adapter_from :: "'t \<Rightarrow> 't deref_adapter" where
  "adapter_from t = \<lparr>adapted = t\<rparr>"

definition adapter_deref :: "stack reusable deref_adapter \<Rightarrow> ('s, stack) comp" where
  "adapter_deref self = deref (adapted self)"

definition adapter_deref_mut :: "(stack \<Rightarrow> stack) \<Rightarrow> stack reusable deref_adapter \<Rightarrow>
    ('s, stack reusable deref_adapter) comp" where
  "adapter_deref_mut f self = bind (deref_mut f (adapted self)) (\<lambda>t. ret (self\<lparr>adapted := t\<rparr>))"

text \<open>\<^verbatim>\<open>concurrency_limit\<close> of \<^verbatim>\<open>lib.rs\<close>: as many functions as there can be libsets.\<close>

definition concurrency_limit :: "('w, 'z) gotcha_scheme \<Rightarrow> nat" where
  "concurrency_limit G = group_limit G"

section \<open>Signals\<close>

definition NOTIFICATION_SIGNALS :: "signal list" where
  "NOTIFICATION_SIGNALS = [Alarm, VirtualAlarm, ProfilingTimer, ProcessorLimit, FilesystemLimit,
     TerminalInput, TerminalOutput, PowerFailure, User1, User2,
     UrgentSocket, Pollable, Syscall, FloatingPoint, Hangup, Child]"

definition signals_place :: "(('w, 's) statics_scheme, signal list mutex) place" where
  "signals_place = \<lparr>place_get = (\<lambda>s. the (SIGNALS s)), place_put = (\<lambda>c s. s\<lparr>SIGNALS := Some c\<rparr>)\<rparr>"

definition signals_once :: "(('w, 's) statics_scheme, once) place" where
  "signals_once = \<lparr>place_get = SIGNALS_INIT, place_put = (\<lambda>c s. s\<lparr>SIGNALS_INIT := c\<rparr>)\<rparr>"

text \<open>The builder closure owns an atomic counter, which it advances on every call.\<close>

definition signal_builder :: "(('w, 's) statics_scheme, signal option) comp" where
  "signal_builder = bind (gets SIGNALS_free) (\<lambda>i.
     andthen (modify (\<lambda>s. s\<lparr>SIGNALS_free := i + 1\<rparr>))
     (ret (if unat i < length NOTIFICATION_SIGNALS then Some (NOTIFICATION_SIGNALS ! unat i) else None)))"

definition assign_signal ::
    "(('w, 's) statics_scheme, (signal reusable, poison_error option) result) comp" where
  "assign_signal =
     andthen (call_once signals_once
       (modify (\<lambda>s. s\<lparr>SIGNALS_free := 0, SIGNALS := Some mutex_default\<rparr>)))
     (bind (gets SIGNALS) (\<lambda>signals.
      bind (unwrap signals) (\<lambda>_. try_from mutex_ops signals_place signal_builder)))"

section \<open>Thread-control blocks\<close>

definition localstores_place :: "(('w, 's) statics_scheme, tcb option list mutex) place" where
  "localstores_place =
     \<lparr>place_get = (\<lambda>s. the (LOCALSTORES s)), place_put = (\<lambda>c s. s\<lparr>LOCALSTORES := Some c\<rparr>)\<rparr>"

definition localstores_once :: "(('w, 's) statics_scheme, once) place" where
  "localstores_once = \<lparr>place_get = LOCALSTORES_INIT, place_put = (\<lambda>c s. s\<lparr>LOCALSTORES_INIT := c\<rparr>)\<rparr>"

definition localstore_builder :: "('w, 'z) libc_scheme \<Rightarrow>
    (('w, 's) tcbs_scheme, tcb option option) comp" where
  "localstore_builder L = bind (tcb_new L) (\<lambda>b. ret (Some (Some b)))"

definition alloc_localstore :: "('w, 'z) gotcha_scheme \<Rightarrow>
    (('w, 's) statics_scheme, tcb option reusable) comp" where
  "alloc_localstore G =
     andthen (call_once localstores_once
       (bind (with_local mutex_default (prealloc mutex_ops local_place (elsewhere (localstore_builder G)) (group_limit G)))
         (\<lambda>(r, localstores).
            andthen (expect_ok ''libinger: TCB allocator lock was poisoned during init'' (debug_option debug_poison_error) r)
              (modify (\<lambda>s. s\<lparr>LOCALSTORES := Some localstores\<rparr>)))))
     (bind (gets LOCALSTORES) (\<lambda>localstores.
      bind (unwrap localstores) (\<lambda>_.
      bind (try_from mutex_ops localstores_place (localstore_builder G))
        (expect_ok ''libinger: TCB allocator lock is poisoned'' (debug_option debug_poison_error)))))"

section \<open>The pools are pools\<close>

lemmas place_defs = groups_place_def stacks_place_def signals_place_def localstores_place_def
lemmas builder_defs = group_builder_def stack_builder_def signal_builder_def localstore_builder_def

lemma place_fields:
  "place_get groups_place s = the (GROUPS s)" "place_put groups_place m s = s\<lparr>GROUPS := Some m\<rparr>"
  "place_get stacks_place s = the (STACKS s)" "place_put stacks_place k s = s\<lparr>STACKS := Some k\<rparr>"
  "place_get signals_place s = the (SIGNALS s)" "place_put signals_place n s = s\<lparr>SIGNALS := Some n\<rparr>"
  "place_get localstores_place s = the (LOCALSTORES s)"
  "place_put localstores_place l s = s\<lparr>LOCALSTORES := Some l\<rparr>"
  by (simp_all add: place_defs)

interpretation groups: pool mutex_ops mutex_ready mx_value groups_place "group_builder G"
  for G :: "('w, 'z) gotcha_scheme"
  by unfold_locales (simp_all add: place_defs builder_defs comp_simps)

definition stack_stock :: "('w, 's) statics_scheme \<Rightarrow> stack set" where
  "stack_stock s = {k. heap_next s \<le> stack_addr k}"

interpretation stacks: fresh_pool mutex_ops mutex_ready mx_value stacks_place stack_builder
  stack_stock "\<lambda>_. True"
  by unfold_locales (auto simp: place_defs builder_defs comp_simps stack_stock_def)

definition signal_stock :: "('w, 's) statics_scheme \<Rightarrow> signal set" where
  "signal_stock s = set (drop (unat (SIGNALS_free s)) NOTIFICATION_SIGNALS)"

lemma distinct_NOTIFICATION_SIGNALS: "distinct NOTIFICATION_SIGNALS"
  by (simp add: NOTIFICATION_SIGNALS_def)

lemma unat_Suc_free: "i \<noteq> - 1 \<Longrightarrow> unat (i + 1) = Suc (unat i)" for i :: usize
  by (simp add: unatSuc add.commute [of i 1]) (metis add.commute add_eq_0_iff unatSuc)

lemma signal_builder_run:
  "signal_builder s = (Val (if unat (SIGNALS_free s) < length NOTIFICATION_SIGNALS
     then Some (NOTIFICATION_SIGNALS ! unat (SIGNALS_free s)) else None),
     s\<lparr>SIGNALS_free := SIGNALS_free s + 1\<rparr>)"
  by (simp add: signal_builder_def comp_simps)

lemma signal_stock_frame: "signal_stock (s\<lparr>SIGNALS := c\<rparr>) = signal_stock s"
  by (simp add: signal_stock_def)

lemma signal_stock_next:
  assumes "SIGNALS_free s \<noteq> - 1"
  shows "signal_stock (s\<lparr>SIGNALS_free := SIGNALS_free s + 1\<rparr>) =
    (if unat (SIGNALS_free s) < length NOTIFICATION_SIGNALS
     then signal_stock s - {NOTIFICATION_SIGNALS ! unat (SIGNALS_free s)} else {})"
proof (cases "unat (SIGNALS_free s) < length NOTIFICATION_SIGNALS")
  case True
  let ?i = "unat (SIGNALS_free s)"
  have "drop ?i NOTIFICATION_SIGNALS = NOTIFICATION_SIGNALS ! ?i # drop (Suc ?i) NOTIFICATION_SIGNALS"
    using True by (simp add: Cons_nth_drop_Suc)
  moreover have "distinct (drop ?i NOTIFICATION_SIGNALS)"
    by (simp add: distinct_NOTIFICATION_SIGNALS)
  ultimately show ?thesis
    using True by (auto simp: signal_stock_def unat_Suc_free [OF assms])
next
  case False
  then show ?thesis by (simp add: signal_stock_def unat_Suc_free [OF assms])
qed

lemma signal_in_stock:
  "unat (SIGNALS_free s) < length NOTIFICATION_SIGNALS \<Longrightarrow>
     NOTIFICATION_SIGNALS ! unat (SIGNALS_free s) \<in> signal_stock s"
  by (simp add: signal_stock_def flip: Cons_nth_drop_Suc)

interpretation signals: fresh_pool mutex_ops mutex_ready mx_value signals_place signal_builder
  signal_stock "\<lambda>s. SIGNALS_free s \<noteq> - 1"
  by unfold_locales
    (auto simp: signals_place_def signal_builder_run signal_stock_frame signal_stock_next
      signal_in_stock split: if_splits)

interpretation localstores: pool mutex_ops mutex_ready mx_value localstores_place
  "localstore_builder G" for G :: "('w, 'z) gotcha_scheme"
  by unfold_locales
    (auto simp: place_defs builder_defs comp_simps tcb_new_def expect_def write_word_def
      split: option.split)

end
