(* ===== verification/Preemption.thy ===== *)
theory Preemption
  imports Pools
begin

text \<open>
  \<^verbatim>\<open>src/preemption.rs\<close>: which signal preempts a thread, and how preemption is enabled,
  disabled and deferred.

  Thread-local variables belong to a thread-control block, not to a kernel thread: the
  library swaps the block under a running thread, and an access reaches the variables of the
  block the thread pointer designates.  They are kept in a store indexed by thread pointer.
  A \<^verbatim>\<open>RealThreadId\<close> is a reference to the \<^verbatim>\<open>SIGNALER\<close> of one particular block, hence that
  block's address.
\<close>

section \<open>State\<close>

record preemption_signal =
  ps_signal :: "signal reusable"
  ps_timer :: timer

type_synonym real_thread_id = usize

record preempt_tls =
  tls_SIGNAL :: "real_thread_id option"
  tls_SIGNAL_torn :: bool
  tls_DEFERRED :: bool
  tls_ERRNO_LOCATION :: "usize option"
  tls_SIGNALER :: "preemption_signal option"

definition preempt_tls_default :: preempt_tls where
  "preempt_tls_default = \<lparr>tls_SIGNAL = None, tls_SIGNAL_torn = False, tls_DEFERRED = False,
     tls_ERRNO_LOCATION = None, tls_SIGNALER = None\<rparr>"

record 'w preemption = "'w statics" +
  ptls :: "usize \<Rightarrow> preempt_tls"
  HOOK_INIT :: once

definition tls_at :: "('w, 'z) libc_scheme \<Rightarrow> ('w, 's) preemption_scheme \<Rightarrow> preempt_tls" where
  "tls_at L s = ptls s (fs_of L s)"

definition set_tls_of :: "usize \<Rightarrow> (preempt_tls \<Rightarrow> preempt_tls) \<Rightarrow>
    (('w, 's) preemption_scheme, unit) comp" where
  "set_tls_of fs f = modify (\<lambda>s. s\<lparr>ptls := (ptls s)(fs := f (ptls s fs))\<rparr>)"

definition set_tls :: "('w, 'z) libc_scheme \<Rightarrow> (preempt_tls \<Rightarrow> preempt_tls) \<Rightarrow>
    (('w, 's) preemption_scheme, unit) comp" where
  "set_tls L f = bind (gets (fs_of L)) (\<lambda>fs. set_tls_of fs f)"

section \<open>Which signal\<close>

definition thread_signal :: "('w, 'z) libc_scheme \<Rightarrow>
    (('w, 's) preemption_scheme, (signal, unit) result) comp" where
  "thread_signal L =
     bind (gets (tls_at L)) (\<lambda>tls.
       if tls_SIGNAL_torn tls then ret (Err ())
       else case tls_SIGNAL tls of
         None \<Rightarrow> ret (Err ())
       | Some thread \<Rightarrow> bind (gets (\<lambda>s. tls_SIGNALER (ptls s thread))) (\<lambda>signaler. case signaler of
           None \<Rightarrow> ret (Err ())
         | Some ps \<Rightarrow> bind (deref (ps_signal ps)) (\<lambda>no. ret (Ok no))))"

definition mask_signal :: "('w, 'z) libc_scheme \<Rightarrow> operation \<Rightarrow> signal \<Rightarrow>
    (('w, 's) process_scheme, unit io_result) comp" where
  "mask_signal L un no =
     or_return (pthread_sigmask L un (sigset_add L no (sigset_empty L))) (\<lambda>_. ret (Ok ()))"

definition errno_group :: "('w, 'z) gotcha_scheme \<Rightarrow> group option \<Rightarrow>
    (('w, 's) preemption_scheme, usize) comp" where
  "errno_group G grp =
     andthen (case grp of
         None \<Rightarrow> ret ()
       | Some g \<Rightarrow> bind (asks (group_lookup_errno_location G g)) (\<lambda>f.
           bind (unwrap f) (\<lambda>f. set_tls G (\<lambda>t. t\<lparr>tls_ERRNO_LOCATION := Some f\<rparr>))))
     (bind (gets (\<lambda>s. tls_ERRNO_LOCATION (tls_at G s))) (\<lambda>f. unwrap f))"

section \<open>Enabling, disabling and deferring preemption\<close>

text \<open>
  \<^verbatim>\<open>enable_preemption\<close>.  \<open>unblock.get_or_insert(thread_signal()?)\<close> evaluates its argument
  whether or not there already is a signal to unblock.
\<close>

definition enable_preemption :: "('w, 'z) gotcha_scheme \<Rightarrow> group option \<Rightarrow>
    (('w, 's) preemption_scheme, (signal option, unit) result) comp" where
  "enable_preemption G grp =
     bind (errno_group G grp) (\<lambda>erryes.
     bind (asks (tt_errno G)) (\<lambda>errno.
     or_return (case grp of
         None \<Rightarrow> ret (Ok None)
       | Some g \<Rightarrow> andthen (primu (group_thread_set G g))
           (or_return (thread_signal G) (\<lambda>no. ret (Ok (Some no)))))
     (\<lambda>unblock.
     bind (gets (\<lambda>s. tls_DEFERRED (tls_at G s))) (\<lambda>deferred.
     andthen (set_tls G (\<lambda>t. t\<lparr>tls_DEFERRED := False\<rparr>))
     (or_return (if deferred
         then or_return (thread_signal G) (\<lambda>no.
           (let no' = (case unblock of Some u \<Rightarrow> u | None \<Rightarrow> no) in
            bind (pthread_self G) (\<lambda>self.
            andthen (pthread_kill G self no') (ret (Ok (Some no'))))))
         else ret (Ok unblock))
     (\<lambda>unblock.
     andthen (case unblock of
         Some no \<Rightarrow> andthen (mask_signal G Unblock no) (ret ())
       | None \<Rightarrow> ret ())
     (andthen (only_if (grp = None \<and> errno \<noteq> 0) (primu (errno_location_write G erryes errno)))
     (ret (Ok unblock)))))))))"

definition resume_preemption :: "('w, 'z) gotcha_scheme \<Rightarrow> (('w, 's) preemption_scheme, unit) comp" where
  "resume_preemption G = andthen (enable_preemption G None) (ret ())"

definition disable_preemption :: "('w, 'z) gotcha_scheme \<Rightarrow> signal option \<Rightarrow>
    (('w, 's) preemption_scheme, unit) comp" where
  "disable_preemption G block =
     andthen (primu (group_thread_set G (group_SHARED G)))
     (andthen (case block of
         Some no \<Rightarrow> andthen (mask_signal G Block no) (ret ())
       | None \<Rightarrow> ret ())
     (bind (gets (\<lambda>s. tls_SIGNAL_torn (tls_at G s))) (\<lambda>torn.
      andthen (if torn then panic ''cannot access a Thread Local Storage value during or after destruction: AccessError''
        else set_tls G (\<lambda>t. t\<lparr>tls_SIGNAL := None\<rparr>))
      (set_tls G (\<lambda>t. t\<lparr>tls_DEFERRED := False\<rparr>)))))"

definition is_preemptible :: "('w, 'z) gotcha_scheme \<Rightarrow> (('w, 's) process_scheme, bool) comp" where
  "is_preemptible G = asks (\<lambda>w. \<not> group_is_shared G (group_thread_get G w))"

text \<open>
  \<^verbatim>\<open>defer_preemption\<close> is given either a signal and the mask to add it to, which it returns
  updated, or nothing and then blocks the thread's own signal.
\<close>

definition defer_preemption :: "('w, 'z) gotcha_scheme \<Rightarrow> (sigset_t \<times> signal) option \<Rightarrow>
    (('w, 's) preemption_scheme, sigset_t option) comp" where
  "defer_preemption G signum =
     bind (is_preemptible G) (\<lambda>p.
     andthen (debug_assert (debug_build G) (\<not> p) ''assertion failed: ! is_preemptible()'')
     (bind (case signum of
         Some (sigmask, signo) \<Rightarrow> ret (Some (sigset_add G signo sigmask))
       | None \<Rightarrow> bind (thread_signal G) (\<lambda>r. bind (unwrap_ok (\<lambda>_. ''()'') r) (\<lambda>no.
           andthen (mask_signal G Block no) (ret None))))
     (\<lambda>sigmask.
      andthen (set_tls G (\<lambda>t. t\<lparr>tls_DEFERRED := True\<rparr>)) (ret sigmask))))"

section \<open>Preemption signals\<close>

definition SA_SIGINFO :: c_int where "SA_SIGINFO = 4"
definition SA_RESTART :: c_int where "SA_RESTART = 0x10000000"

definition i64_mul_checked :: "bool \<Rightarrow> i64 \<Rightarrow> i64 \<Rightarrow> ('s, i64) comp" where
  "i64_mul_checked debug a b =
     (if debug \<and> \<not> (- (2 ^ 63) \<le> sint a * sint b \<and> sint a * sint b < 2 ^ 63)
      then panic ''attempt to multiply with overflow'' else ret (a * b))"

abbreviation drop_signal :: "signal reusable \<Rightarrow> (('w, 's) statics_scheme, unit) comp" where
  "drop_signal \<equiv> drop_reusable mutex_ops signals_place"

text \<open>
  \<^verbatim>\<open>PreemptionSignal::new\<close> after the signal has been assigned; an error or a panic drops
  the signal back into its pool.
\<close>

definition preemption_signal_arm :: "('w, 'z) gotcha_scheme \<Rightarrow> handler \<Rightarrow> u64 \<Rightarrow> signal reusable \<Rightarrow>
    (('w, 's) statics_scheme, preemption_signal io_result) comp" where
  "preemption_signal_arm G handler quantum sig =
     bind (deref sig) (\<lambda>no.
     or_return (sigaction G no (Action (sigaction_new handler (sigset_empty G) (or SA_SIGINFO SA_RESTART)))) (\<lambda>_.
     or_return (mask_signal G Block no) (\<lambda>_.
     or_return (timer_create G Real (sigevent_signal G no)) (\<lambda>timer.
     bind (i64_mul_checked (debug_build G) quantum 1000) (\<lambda>interval.
     bind (i64_mul_checked (debug_build G) quantum 1000) (\<lambda>initial.
     (let it = \<lparr>it_interval = \<lparr>tv_sec = 0, tv_nsec = interval\<rparr>, it_value = \<lparr>tv_sec = 0, tv_nsec = initial\<rparr>\<rparr> in
      or_return (timer_settime G timer False it) (\<lambda>_.
      ret (Ok \<lparr>ps_signal = sig, ps_timer = timer\<rparr>)))))))))"

definition preemption_signal_new :: "('w, 'z) gotcha_scheme \<Rightarrow> handler \<Rightarrow> u64 \<Rightarrow>
    (('w, 's) statics_scheme, preemption_signal io_result) comp" where
  "preemption_signal_new G handler quantum =
     bind assign_signal (\<lambda>r.
     bind (expect_ok ''libinger: no available signal for preempting this thread'' (debug_option debug_poison_error) r) (\<lambda>sig.
     bind (on_panic (preemption_signal_arm G handler quantum sig) (drop_signal sig)) (\<lambda>r.
       case r of
         Ok ps \<Rightarrow> ret (Ok ps)
       | Err e \<Rightarrow> andthen (drop_signal sig) (ret (Err e)))))"

text \<open>
  \<^verbatim>\<open>Drop for PreemptionSignal\<close>, and then of its field: the two error messages are printed
  and have no other effect.
\<close>

definition drop_preemption_signal :: "('w, 'z) gotcha_scheme \<Rightarrow> preemption_signal \<Rightarrow>
    (('w, 's) statics_scheme, unit) comp" where
  "drop_preemption_signal G self =
     with_cleanup
       (andthen (timer_delete G (ps_timer self))
       (bind (deref (ps_signal self)) (\<lambda>no.
        andthen (sigaction G no NoAction) (ret ()))))
       (drop_signal (ps_signal self))"

section \<open>Threads\<close>

definition real_thread_id_current :: "('w, 'z) libc_scheme \<Rightarrow>
    (('w, 's) process_scheme, real_thread_id) comp" where
  "real_thread_id_current L = gets (fs_of L)"

definition hook_once :: "(('w, 's) preemption_scheme, once) place" where
  "hook_once = \<lparr>place_get = HOOK_INIT, place_put = (\<lambda>c s. s\<lparr>HOOK_INIT := c\<rparr>)\<rparr>"

definition thread_setup :: "('w, 'z) gotcha_scheme \<Rightarrow> real_thread_id \<Rightarrow> handler \<Rightarrow> u64 \<Rightarrow>
    (('w, 's) preemption_scheme, unit io_result) comp" where
  "thread_setup G thread handler quantum =
     bind (gets (\<lambda>s. tls_SIGNALER (ptls s thread))) (\<lambda>signaler.
     or_return (case signaler of
         Some _ \<Rightarrow> ret (Ok ())
       | None \<Rightarrow> or_return (preemption_signal_new G handler quantum) (\<lambda>ps.
           andthen (set_tls_of thread (\<lambda>t. t\<lparr>tls_SIGNALER := Some ps\<rparr>)) (ret (Ok ()))))
     (\<lambda>_.
      bind (gets (\<lambda>s. tls_SIGNAL_torn (tls_at G s))) (\<lambda>torn.
      andthen (if torn then panic ''cannot access a Thread Local Storage value during or after destruction: AccessError''
        else set_tls G (\<lambda>t. t\<lparr>tls_SIGNAL := Some thread\<rparr>))
      (andthen (call_once hook_once (primu (gotcha_shared_hook G)))
      (ret (Ok ()))))))"

section \<open>Lemmas\<close>

text \<open>The preemption signal of the thread whose thread pointer is \<open>fs\<close>, where it has one.\<close>

definition signal_in :: "(usize \<Rightarrow> preempt_tls) \<Rightarrow> usize \<Rightarrow> signal option" where
  "signal_in p fs =
     (if tls_SIGNAL_torn (p fs) then None
      else Option.bind (tls_SIGNAL (p fs)) (\<lambda>thread.
        Option.bind (tls_SIGNALER (p thread)) (\<lambda>ps. reusable_value (ps_signal ps))))"

abbreviation signal_at :: "('w, 'z) libc_scheme \<Rightarrow> ('w, 's) preemption_scheme \<Rightarrow> signal option" where
  "signal_at L s \<equiv> signal_in (ptls s) (fs_of L s)"

lemma signal_in_frame [simp]:
  "signal_in (p(a := (p a)\<lparr>tls_DEFERRED := d\<rparr>)) fs = signal_in p fs"
  "signal_in (p(a := (p a)\<lparr>tls_ERRNO_LOCATION := l\<rparr>)) fs = signal_in p fs"
  "signal_in (p(a := (p a)\<lparr>tls_ERRNO_LOCATION := l, tls_DEFERRED := d\<rparr>)) fs = signal_in p fs"
  by (auto simp: signal_in_def intro!: Option.bind_cong)

lemma signal_in_Some:
  "signal_in p fs = Some no \<Longrightarrow> \<not> tls_SIGNAL_torn (p fs) \<and> (\<exists>thread ps. tls_SIGNAL (p fs) = Some thread \<and>
     tls_SIGNALER (p thread) = Some ps \<and> reusable_value (ps_signal ps) = Some no)"
  by (auto simp: signal_in_def bind_eq_Some_conv split: if_splits)

lemma thread_signal_Some: "signal_at L s = Some no \<Longrightarrow> thread_signal L s = (Val (Ok no), s)"
  by (drule signal_in_Some) (auto simp: thread_signal_def tls_at_def comp_simps deref_def)

text \<open>A signal handed out by the pool stays inside its wrapper until that is dropped.\<close>

definition signalers_wf :: "(usize \<Rightarrow> preempt_tls) \<Rightarrow> bool" where
  "signalers_wf p \<longleftrightarrow> (\<forall>a ps. tls_SIGNALER (p a) = Some ps \<longrightarrow> reusable_value (ps_signal ps) \<noteq> None)"

lemma thread_signal_None:
  "signalers_wf (ptls s) \<Longrightarrow> signal_at L s = None \<Longrightarrow> thread_signal L s = (Val (Err ()), s)"
  by (fastforce simp: thread_signal_def tls_at_def comp_simps deref_def signal_in_def signalers_wf_def
      bind_eq_None_conv split: option.splits if_splits)

lemma signalers_wf_upd [simp]:
  "signalers_wf p \<Longrightarrow> tls_SIGNALER t = tls_SIGNALER (p a) \<Longrightarrow> signalers_wf (p(a := t))"
  by (auto simp: signalers_wf_def)

text \<open>
  The documented behaviour the preemption code relies on, together: libsets, \<^verbatim>\<open>errno\<close>, signal
  sets, the signal mask, and signalling oneself.
\<close>

definition preempt_doc :: "('w, 'z) gotcha_scheme \<Rightarrow> bool" where
  "preempt_doc G \<longleftrightarrow> group_doc G \<and> errno_doc G \<and> sigset_doc G \<and> sigmask_doc G \<and> kill_doc G"

lemma preempt_docD:
  assumes "preempt_doc G"
  shows "group_doc G" and "errno_doc G" and "sigset_doc G" and "sigmask_doc G" and "kill_doc G"
  using assms by (simp_all add: preempt_doc_def)

lemmas preempt_laws = group_laws [OF preempt_docD(1)] errno_laws [OF preempt_docD(2)]
  sigset_laws [OF preempt_docD(3)] sigmask_laws [OF preempt_docD(4)] kill_laws [OF preempt_docD(5)]

lemma mask_signal_run:
  assumes "preempt_doc G"
  shows "mask_signal G how no s =
      (Val (Ok ()), s\<lparr>world := masked G how {signal_as_c_int no} (world s)\<rparr>)"
  by (simp add: mask_signal_def comp_simps preempt_laws [OF assms])

lemma set_tls_run [comp_simps]:
  "set_tls L f s = (Val (), s\<lparr>ptls := (ptls s)(fs_of L s := f (ptls s (fs_of L s)))\<rparr>)"
  "set_tls_of a f s = (Val (), s\<lparr>ptls := (ptls s)(a := f (ptls s a))\<rparr>)"
  by (simp_all add: set_tls_def set_tls_of_def comp_simps)

text \<open>
  Disabling preemption: the thread is back in the shared libset, has no preemption signal and
  nothing deferred; a signal handed in is blocked.
\<close>

definition disabled_world :: "('w, 'z) gotcha_scheme \<Rightarrow> signal option \<Rightarrow> 'w \<Rightarrow> 'w" where
  "disabled_world G block w = (let w' = group_thread_set G (group_SHARED G) w in
     case block of None \<Rightarrow> w' | Some no \<Rightarrow> masked G Block {signal_as_c_int no} w')"

lemma disabled_world_view:
  assumes "preempt_doc G"
  shows "view G (disabled_world G block w) = (view G w)\<lparr>v_group := group_SHARED G,
    v_mask := v_mask (view G w) \<union> signal_as_c_int ` set_option block\<rparr>"
  by (cases block) (simp_all add: disabled_world_def preempt_laws [OF assms])

lemma disable_preemption_run:
  assumes "preempt_doc G" and "\<not> tls_SIGNAL_torn (tls_at G s)"
  shows "disable_preemption G block s = (Val (), s\<lparr>world := disabled_world G block (world s),
      ptls := (ptls s)(fs_of G s := (tls_at G s)\<lparr>tls_SIGNAL := None, tls_DEFERRED := False\<rparr>)\<rparr>)"
  using assms(2)
  by (cases block)
    (simp_all add: disable_preemption_def comp_simps preempt_laws [OF assms(1)]
      mask_signal_run [OF assms(1)] tls_at_def disabled_world_def)

text \<open>
  Entering a preemptible function: the thread executes in the function's libset, its signal is
  unblocked, and a preemption that was deferred before is not forgotten.
\<close>

definition entered_world :: "('w, 'z) gotcha_scheme \<Rightarrow> group \<Rightarrow> bool \<Rightarrow> signal \<Rightarrow> 'w \<Rightarrow> 'w" where
  "entered_world G g deferred no w = (let w' = group_thread_set G g w in
     masked G Unblock {signal_as_c_int no} (if deferred then killed G no w' else w'))"

lemma entered_world_view:
  assumes "preempt_doc G"
  shows "view G (entered_world G g deferred no w) = (view G w)\<lparr>v_group := g,
    v_mask := v_mask (view G w) - {signal_as_c_int no},
    v_pending := v_pending (view G w) \<union> (if deferred then {signal_as_c_int no} else {})\<rparr>"
  by (simp add: entered_world_def preempt_laws [OF assms])

lemma enable_preemption_group:
  assumes "preempt_doc G" and "group_lookup_errno_location G g (world s) = Some f"
    and "signal_at G s = Some no"
  shows "enable_preemption G (Some g) s = (Val (Ok (Some no)),
    s\<lparr>world := entered_world G g (tls_DEFERRED (tls_at G s)) no (world s),
      ptls := (ptls s)(fs_of G s := (tls_at G s)\<lparr>tls_ERRNO_LOCATION := Some f, tls_DEFERRED := False\<rparr>)\<rparr>)"
  using assms(2,3)
  by (simp add: enable_preemption_def errno_group_def comp_simps tls_at_def thread_signal_Some
      pthread_self_def entered_world_def mask_signal_run [OF assms(1)] preempt_laws [OF assms(1)])

text \<open>
  The hook that runs when a preemptible function's call into a shared library returns: if
  preemption was deferred meanwhile, the signal is raised again and unblocked, so its handler
  runs at once; otherwise only \<^verbatim>\<open>errno\<close> is handed back.
\<close>

definition hooked_world :: "('w, 'z) gotcha_scheme \<Rightarrow> usize \<Rightarrow> signal option \<Rightarrow> 'w \<Rightarrow> 'w" where
  "hooked_world G f raise w = (let errno = tt_errno G w;
       w' = (case raise of None \<Rightarrow> w
             | Some no \<Rightarrow> masked G Unblock {signal_as_c_int no} (killed G no w))
     in if errno \<noteq> 0 then errno_location_write G f errno w' else w')"

lemma enable_preemption_deferred:
  assumes "preempt_doc G" and "tls_ERRNO_LOCATION (tls_at G s) = Some f"
    and "tls_DEFERRED (tls_at G s)" and "signal_at G s = Some no"
  shows "enable_preemption G None s = (Val (Ok (Some no)),
    s\<lparr>world := hooked_world G f (Some no) (world s),
      ptls := (ptls s)(fs_of G s := (tls_at G s)\<lparr>tls_DEFERRED := False\<rparr>)\<rparr>)"
  using assms(2-4)
  by (simp add: enable_preemption_def errno_group_def comp_simps tls_at_def thread_signal_Some
      pthread_self_def hooked_world_def Let_def mask_signal_run [OF assms(1)] preempt_laws [OF assms(1)])

lemma enable_preemption_idle:
  assumes "tls_ERRNO_LOCATION (tls_at G s) = Some f" and "\<not> tls_DEFERRED (tls_at G s)"
  shows "enable_preemption G None s = (Val (Ok None),
    s\<lparr>world := hooked_world G f None (world s),
      ptls := (ptls s)(fs_of G s := (tls_at G s)\<lparr>tls_DEFERRED := False\<rparr>)\<rparr>)"
  using assms
  by (simp add: enable_preemption_def errno_group_def comp_simps tls_at_def hooked_world_def Let_def)

end
