(* ===== verification/Linger.thy ===== *)
theory Linger
  imports Preemption
begin

text \<open>
  \<^verbatim>\<open>src/linger.rs\<close>, first part: the data of a preemptible function, the clock and the
  deadline, and the signal handler that pauses a function.  Control transfer (\<^verbatim>\<open>resume\<close>,
  \<^verbatim>\<open>switch_stack\<close>, \<^verbatim>\<open>schedule\<close>) is in the theory \<open>Execution\<close>.
\<close>

section \<open>libtimetravel\<close>

text \<open>
  A context is a resumable point of execution: a machine context \<open>'m\<close>, the signal mask that
  goes with it, and the stack it owns.  A handler context is what the kernel passes to a
  signal handler and goes back to when the handler returns.

  \<open>tt_makecontext\<close> makes a context that will call \<^verbatim>\<open>schedule\<close> on the given stack;
  \<open>tt_restorecontext\<close> gives the context its scope closure receives; \<open>tt_sigsetcontext\<close> either
  transfers control, and then says where to and what the context object denotes from then on,
  or fails (with no error when the context is invalid); \<open>tt_swap\<close> exchanges a context with a
  handler context.  \<open>tt_return\<close> is what happens between the return of \<^verbatim>\<open>schedule\<close> and the call site:
  the made context has come to its end, and the one it was entered from continues.
\<close>

record 'm ucontext =
  uc_mcontext :: 'm
  uc_sigmask :: sigset_t

record 'm context_t =
  ctx_mcontext :: 'm
  ctx_mask :: sigset_t
  ctx_stack :: "stack reusable deref_adapter"

record ('w, 'm) timetravel = "'w gotcha" +
  tt_makecontext :: "stack reusable deref_adapter \<Rightarrow> 'w \<Rightarrow> 'm context_t io_result \<times> 'w"
  tt_restorecontext :: "'m context_t \<Rightarrow> 'w \<Rightarrow> 'm context_t io_result \<times> 'w"
  tt_sigsetcontext :: "'m context_t \<Rightarrow> 'w \<Rightarrow> ('m \<times> 'm context_t, io_error option) result \<times> 'w"
  tt_swap :: "'m context_t \<Rightarrow> 'm ucontext \<Rightarrow> 'm context_t \<times> 'm ucontext"
  tt_return :: "'w \<Rightarrow> 'w"

text \<open>Swapping exchanges the points of execution; the context keeps its stack.\<close>

definition swap_doc :: "('w, 'm, 'z) timetravel_scheme \<Rightarrow> bool" where
  "swap_doc E \<longleftrightarrow> (\<forall>c u. case tt_swap E c u of (c', u') \<Rightarrow>
     ctx_mcontext c' = uc_mcontext u \<and> uc_mcontext u' = ctx_mcontext c \<and> ctx_stack c' = ctx_stack c)"

section \<open>Data\<close>

record 'm task =
  task_errno :: "c_int option"
  task_checkpoint :: "'m context_t option"
  task_yielded :: bool

definition task_default :: "'m task" where
  "task_default = \<lparr>task_errno = None, task_checkpoint = None, task_yielded = False\<rparr>"

record 'm continuation =
  functional :: nat
  stateful :: "'m task"
  cont_group :: "group reusable"
  cont_tls :: "tcb option reusable"

datatype ('a, 'm) linger = Completion 'a | Continuation "'m continuation" | Poison

definition is_completion :: "('a, 'm) linger \<Rightarrow> bool" where
  "is_completion self = (case self of Completion _ \<Rightarrow> True | _ \<Rightarrow> False)"

definition is_continuation :: "('a, 'm) linger \<Rightarrow> bool" where
  "is_continuation self = (case self of Continuation _ \<Rightarrow> True | _ \<Rightarrow> False)"

definition yielded :: "('a, 'm) linger \<Rightarrow> bool" where
  "yielded self = (case self of Continuation c \<Rightarrow> task_yielded (stateful c) | _ \<Rightarrow> False)"

definition erase :: "('a, 'm) linger \<Rightarrow> ('a, 'm) linger" where
  "erase self = (case self of
      Completion this \<Rightarrow> Completion this
    | Continuation this \<Rightarrow> Continuation \<lparr>functional = functional this, stateful = stateful this,
        cont_group = cont_group this, cont_tls = cont_tls this\<rparr>
    | Poison \<Rightarrow> Poison)"

text \<open>The closure \<^verbatim>\<open>launch\<close> builds is in one of three states; \<^verbatim>\<open>Box\<close> gives it a stable address.\<close>

datatype ('f, 'a) completion = Function 'f | Return "('a, string) result" | Empty

definition completion_take :: "('f, 'a) completion \<Rightarrow> ('f, 'a) completion \<times> ('f, 'a) completion" where
  "completion_take self = (self, Empty)"

record 'm linger_tls =
  tls_BOOTSTRAP :: "(nat \<times> group) option"
  tls_TASK :: "'m task"
  tls_DEADLINE :: u64

definition linger_tls_default :: "'m linger_tls" where
  "linger_tls_default = \<lparr>tls_BOOTSTRAP = None, tls_TASK = task_default, tls_DEADLINE = 0\<rparr>"

record ('w, 'm, 'f, 'a) lingering = "'w preemption" +
  ltls :: "usize \<Rightarrow> 'm linger_tls"
  closures :: "nat \<Rightarrow> ('f, 'a) completion"

definition ltls_at :: "('w, 'z) libc_scheme \<Rightarrow> ('w, 'm, 'f, 'a, 's) lingering_scheme \<Rightarrow> 'm linger_tls" where
  "ltls_at L s = ltls s (fs_of L s)"

definition set_ltls :: "('w, 'z) libc_scheme \<Rightarrow> ('m linger_tls \<Rightarrow> 'm linger_tls) \<Rightarrow>
    (('w, 'm, 'f, 'a, 's) lingering_scheme, unit) comp" where
  "set_ltls L f = modify (\<lambda>s. s\<lparr>ltls := (ltls s)(fs_of L s := f (ltls s (fs_of L s)))\<rparr>)"

section \<open>The clock and the deadline\<close>

definition nsnow :: "('w, 'z) libc_scheme \<Rightarrow> (('w, 's) process_scheme, u64) comp" where
  "nsnow L =
     bind (asks (system_time L)) (\<lambda>now.
     bind (expect ''libinger: wall clock error'' now) (\<lambda>(as_secs, subsec_nanos).
     bind (mul_checked (debug_build L) as_secs 1000000000) (\<lambda>ns.
     add_checked (debug_build L) (ucast subsec_nanos) ns)))"

definition stamp :: "('w, 'z) libc_scheme \<Rightarrow> (('w, 'm, 'f, 'a, 's) lingering_scheme, unit) comp" where
  "stamp L =
     bind (gets (\<lambda>s. tls_DEADLINE (ltls_at L s))) (\<lambda>deadline.
     bind (case checked_mul deadline 1000 of
         Some timeout \<Rightarrow> bind (nsnow L) (\<lambda>now. add_checked (debug_build L) now timeout)
       | None \<Rightarrow> ret deadline)
     (\<lambda>deadline. set_ltls L (\<lambda>t. t\<lparr>tls_DEADLINE := deadline\<rparr>)))"

definition pause :: "('w, 'z) gotcha_scheme \<Rightarrow> (('w, 'm, 'f, 'a, 's) lingering_scheme, unit) comp" where
  "pause G =
     andthen (set_ltls G (\<lambda>t. t\<lparr>tls_DEADLINE := 0\<rparr>))
     (andthen (defer_preemption G None) (ret ()))"

definition abort :: "string \<Rightarrow> ('s, 'x) comp" where
  "abort err = failing (Aborted err)"

section \<open>The signal handler\<close>

text \<open>
  Pausing: the branch of \<^verbatim>\<open>preempt\<close> in which the deadline has passed.  \<^verbatim>\<open>unfurl\<close> of a missing
  checkpoint is undefined behaviour.
\<close>

definition unfurl :: "'x option \<Rightarrow> ('s, 'x) comp" where
  "unfurl self = (case self of Some t \<Rightarrow> ret t | None \<Rightarrow> failing Undefined)"

definition preempt_pause :: "('w, 'm, 'z) timetravel_scheme \<Rightarrow> signal \<Rightarrow> 'm ucontext \<Rightarrow> u64 \<Rightarrow> c_int \<Rightarrow>
    (('w, 'm, 'f, 'a, 's) lingering_scheme, 'm ucontext) comp" where
  "preempt_pause E no uc deadline erryes =
     andthen (set_ltls E (\<lambda>t. t\<lparr>tls_TASK := (tls_TASK t)\<lparr>task_yielded := (deadline = 0)\<rparr>\<rparr>))
     (bind (gets (\<lambda>s. task_checkpoint (tls_TASK (ltls_at E s)))) (\<lambda>checkpoint.
      bind (unfurl checkpoint) (\<lambda>checkpoint.
      (case tt_swap E checkpoint uc of (checkpoint', uc') \<Rightarrow>
       andthen (set_ltls E (\<lambda>t. t\<lparr>tls_TASK := (tls_TASK t)\<lparr>task_checkpoint := Some checkpoint'\<rparr>\<rparr>))
       (andthen (set_ltls E (\<lambda>t. t\<lparr>tls_TASK := (tls_TASK t)\<lparr>task_errno := Some erryes\<rparr>\<rparr>))
       (bind (ret (uc'\<lparr>uc_sigmask := sigset_add E no (uc_sigmask uc')\<rparr>)) (\<lambda>uc''.
        andthen (disable_preemption E None) (ret uc''))))))))"

definition preempt :: "('w, 'm, 'z) timetravel_scheme \<Rightarrow> signal \<Rightarrow> 'm ucontext option \<Rightarrow>
    (('w, 'm, 'f, 'a, 's) lingering_scheme, 'm ucontext) comp" where
  "preempt E no uc =
     bind (asks (tt_errno E)) (\<lambda>erryes.
     bind (unfurl uc) (\<lambda>uc.
     bind (thread_signal E) (\<lambda>r.
     (let relevant = (case r of Ok sig \<Rightarrow> signal_eq no sig | Err _ \<Rightarrow> False) in
     bind (if relevant then is_preemptible E else ret False) (\<lambda>preemptible.
       if relevant \<and> preemptible then
         bind (gets (\<lambda>s. tls_DEADLINE (ltls_at E s))) (\<lambda>deadline.
         bind (nsnow E) (\<lambda>now.
           if deadline \<le> now then preempt_pause E no uc deadline erryes
           else andthen (primu (tt_set_errno E erryes)) (ret uc)))
       else
         bind (if relevant
           then bind (defer_preemption E (Some (uc_sigmask uc, no))) (\<lambda>sigmask.
             bind (unwrap sigmask) (\<lambda>sigmask. ret (uc\<lparr>uc_sigmask := sigmask\<rparr>)))
           else ret (uc\<lparr>uc_sigmask := sigset_add E no (uc_sigmask uc)\<rparr>))
         (\<lambda>uc. andthen (primu (tt_set_errno E erryes)) (ret uc)))))))"

section \<open>Lemmas: the clock and the deadline\<close>

text \<open>The wall clock shows \<open>now\<close> nanoseconds, and these fit into 64 bits.\<close>

definition time_is :: "('w, 'z) libc_scheme \<Rightarrow> 'w \<Rightarrow> u64 \<Rightarrow> bool" where
  "time_is L w now \<longleftrightarrow> (\<exists>secs nanos. system_time L w = Some (secs, nanos) \<and>
     unat now = unat secs * 1000000000 + unat nanos)"

lemma nsnow_run:
  assumes "time_is L (world s) now"
  shows "nsnow L s = (Val now, s)"
proof -
  obtain secs nanos where t: "system_time L (world s) = Some (secs, nanos)"
    and n: "unat now = unat secs * 1000000000 + unat nanos"
    using assms by (auto simp: time_is_def)
  have b: "unat secs * 1000000000 + unat nanos < 2 ^ 64"
    using n unsigned_less [where ?'a = nat, of now] by simp
  have m: "unat (secs * 1000000000) = unat secs * 1000000000"
    using b by (simp add: unat_word_ariths)
  have u: "unat (ucast nanos :: u64) = unat nanos"
    using unsigned_less [where ?'a = nat, of nanos]
    by (simp add: unsigned_ucast_eq take_bit_nat_eq_self_iff)
  have "now = ucast nanos + secs * 1000000000"
    by (rule word_unat_eq_iff [THEN iffD2]) (use n m u b in \<open>simp add: unat_word_ariths\<close>)
  then show ?thesis
    using b m u by (simp add: nsnow_def comp_simps t mul_checked_def add_checked_def)
qed

text \<open>
  The deadline after \<^verbatim>\<open>stamp\<close>: the current time plus the budget when everything fits, the
  budget itself when its nanoseconds do not fit, and in between an overflow.
\<close>

definition deadline_after :: "u64 \<Rightarrow> u64 \<Rightarrow> u64" where
  "deadline_after us now = (if unat us * 1000 < 2 ^ 64 then now + us * 1000 else us)"

lemma stamp_run:
  assumes "time_is L (world s) now" and "tls_DEADLINE (ltls_at L s) = us"
    and "\<not> debug_build L \<or> unat us * 1000 \<ge> 2 ^ 64 \<or> unat now + unat us * 1000 < 2 ^ 64"
  shows "stamp L s =
    (Val (), s\<lparr>ltls := (ltls s)(fs_of L s := (ltls_at L s)\<lparr>tls_DEADLINE := deadline_after us now\<rparr>)\<rparr>)"
proof (cases "unat us * 1000 < 2 ^ 64")
  case True
  then have m: "checked_mul us 1000 = Some (us * 1000)" "unat (us * 1000) = unat us * 1000"
    by (simp_all add: checked_mul_def unat_word_ariths)
  with True assms show ?thesis
    by (auto simp: stamp_def comp_simps nsnow_run [OF assms(1)] add_checked_def deadline_after_def
        set_ltls_def ltls_at_def)
next
  case False
  then have "checked_mul us 1000 = None" by (simp add: checked_mul_def)
  with False assms(2) show ?thesis
    by (simp add: stamp_def comp_simps deadline_after_def set_ltls_def ltls_at_def)
qed

lemma stamp_overflow:
  assumes "time_is L (world s) now" and "tls_DEADLINE (ltls_at L s) = us" and "debug_build L"
    and "unat us * 1000 < 2 ^ 64" and "2 ^ 64 \<le> unat now + unat us * 1000"
  shows "stamp L s = (Fail (Panicked ''attempt to add with overflow''), s)"
proof -
  have m: "checked_mul us 1000 = Some (us * 1000)" "unat (us * 1000) = unat us * 1000"
    using assms(4) by (simp_all add: checked_mul_def unat_word_ariths)
  with assms show ?thesis
    by (simp add: stamp_def comp_simps nsnow_run [OF assms(1)] add_checked_def)
qed

section \<open>Lemmas: the signal handler\<close>

lemma set_ltls_run [comp_simps]:
  "set_ltls L f s = (Val (), s\<lparr>ltls := (ltls s)(fs_of L s := f (ltls s (fs_of L s)))\<rparr>)"
  by (simp add: set_ltls_def)

lemma unfurl_run [comp_simps, simp]: "unfurl (Some x) = ret x" "unfurl None = failing Undefined"
  by (simp_all add: unfurl_def)

lemma is_preemptible_run:
  "group_doc G \<Longrightarrow> is_preemptible G s = (Val (v_group (view G (world s)) \<noteq> group_SHARED G), s)"
  by (simp add: is_preemptible_def comp_simps group_laws)

text \<open>Writing back the \<^verbatim>\<open>errno\<close> that was read leaves the view as it was.\<close>

lemma errno_rewritten:
  "errno_doc G \<Longrightarrow> view G (tt_set_errno G (tt_errno G w) w) = view G w"
  by (simp add: errno_laws)

lemma preempt_irrelevant:
  assumes "preempt_doc E" and "signal_at E s = None \<Longrightarrow> signalers_wf (ptls s)" and "signal_at E s \<noteq> Some no"
  shows "preempt E no (Some uc) s =
    (Val (uc\<lparr>uc_sigmask := insert (signal_as_c_int no) (uc_sigmask uc)\<rparr>),
     s\<lparr>world := tt_set_errno E (tt_errno E (world s)) (world s)\<rparr>)"
proof (cases "signal_at E s")
  case None
  then show ?thesis
    using assms(2) by (simp add: preempt_def comp_simps thread_signal_None preempt_laws(5-9) [OF assms(1)])
next
  case (Some other)
  then show ?thesis
    using assms(3)
    by (auto simp add: preempt_def comp_simps thread_signal_Some preempt_laws(5-9) [OF assms(1)])
qed

lemma preempt_defers:
  assumes "preempt_doc E" and "signal_at E s = Some no" and "v_group (view E (world s)) = group_SHARED E"
  shows "preempt E no (Some uc) s =
    (Val (uc\<lparr>uc_sigmask := insert (signal_as_c_int no) (uc_sigmask uc)\<rparr>),
     s\<lparr>ptls := (ptls s)(fs_of E s := (tls_at E s)\<lparr>tls_DEFERRED := True\<rparr>),
       world := tt_set_errno E (tt_errno E (world s)) (world s)\<rparr>)"
  using assms(2,3)
  by (simp add: preempt_def comp_simps thread_signal_Some is_preemptible_run [OF preempt_docD(1) [OF assms(1)]]
      defer_preemption_def tls_at_def preempt_laws [OF assms(1)])

lemma preempt_spares:
  assumes "preempt_doc E" and "signal_at E s = Some no" and "v_group (view E (world s)) \<noteq> group_SHARED E"
    and "time_is E (world s) now" and "now < tls_DEADLINE (ltls_at E s)"
  shows "preempt E no (Some uc) s = (Val uc, s\<lparr>world := tt_set_errno E (tt_errno E (world s)) (world s)\<rparr>)"
proof -
  have "\<not> tls_DEADLINE (ltls_at E s) \<le> now" using assms(5) by simp
  then show ?thesis
    using assms(2-4)
    by (simp add: preempt_def comp_simps thread_signal_Some nsnow_run [OF assms(4)]
        is_preemptible_run [OF preempt_docD(1) [OF assms(1)]])
qed

lemma task_written:
  "(t :: 'm task)\<lparr>task_yielded := y, task_checkpoint := c, task_errno := e\<rparr> =
     \<lparr>task_errno = e, task_checkpoint = c, task_yielded = y\<rparr>"
  by (cases t) simp

lemma preempt_pauses:
  assumes "preempt_doc E" and "signal_at E s = Some no" and "v_group (view E (world s)) \<noteq> group_SHARED E"
    and "time_is E (world s) now" and "tls_DEADLINE (ltls_at E s) \<le> now"
    and "task_checkpoint (tls_TASK (ltls_at E s)) = Some c" and "tt_swap E c uc = (c', uc')"
  shows "preempt E no (Some uc) s =
    (Val (uc'\<lparr>uc_sigmask := insert (signal_as_c_int no) (uc_sigmask uc')\<rparr>),
     s\<lparr>ltls := (ltls s)(fs_of E s := (ltls_at E s)\<lparr>tls_TASK :=
          \<lparr>task_errno = Some (v_errno (view E (world s)) (v_group (view E (world s)))),
           task_checkpoint = Some c', task_yielded = (tls_DEADLINE (ltls_at E s) = 0)\<rparr>\<rparr>),
       world := disabled_world E None (world s),
       ptls := (ptls s)(fs_of E s := (tls_at E s)\<lparr>tls_SIGNAL := None, tls_DEFERRED := False\<rparr>)\<rparr>)"
proof -
  have "\<not> tls_SIGNAL_torn (ptls s (fs_of E s))"
    using signal_in_Some [OF assms(2)] by simp
  then show ?thesis
    using assms(2-7)
    by (simp add: preempt_def preempt_pause_def comp_simps thread_signal_Some
        is_preemptible_run [OF preempt_docD(1) [OF assms(1)]] nsnow_run [OF assms(4)]
        disable_preemption_run [OF assms(1)] tls_at_def ltls_at_def preempt_laws [OF assms(1)] task_written)
qed

end
