(* ===== verification/Execution.thy ===== *)
theory Execution
  imports Linger
begin

text \<open>
  \<^verbatim>\<open>src/linger.rs\<close>, second part: how control enters a preemptible function and comes back,
  and the interface \<^verbatim>\<open>launch\<close>/\<^verbatim>\<open>resume\<close> built on it.

  The preemptible function is the user's code.  It is a parameter \<open>U\<close>: from a state \<open>'f\<close> and
  the world it does one thing at a time (\<open>user_op\<close>).  What happens around it on the thread is
  given by a list of events: a signal becomes pending, the kernel delivers a signal, the
  thread executes.  An event that is not possible ends the trace, so quantifying over all
  lists covers every interleaving.
\<close>

section \<open>The thread\<close>

datatype ('f, 'a) user_op = Works 'f | Calls 'f | Pauses 'f | Returns 'a | Panics string

type_synonym ('w, 'f, 'a) user_code = "'f \<Rightarrow> 'w \<Rightarrow> ('f, 'a) user_op \<times> 'w"

text \<open>The locals of \<^verbatim>\<open>schedule\<close> while it calls the function.\<close>

record frame =
  fr_fun :: nat
  fr_group :: group
  fr_signal :: "signal option"

text \<open>
  Where the thread is in the function's libset: in \<^verbatim>\<open>schedule\<close> about to call the closure, in the
  function, in a shared library it called, or on the way out with the result in the closure.
  A preemption can come at each of these points.
\<close>

datatype 'f control = Entering frame | Running frame 'f | In_library frame 'f | Leaving frame

datatype 'f mcontext = Entry | Call_site | Interrupted "'f control"

datatype 'f progress = At "'f control" | Back

datatype event = Expires signal | Delivers signal | Steps | Library

text \<open>
  What the kernel does to the thread's view when a signal becomes pending, when its handler is
  entered and when the handler returns, and what code of a shared library does.
\<close>

record ('w, 'f) platform = "('w, 'f mcontext) timetravel" +
  k_expire :: "c_int \<Rightarrow> 'w \<Rightarrow> 'w"
  k_deliver :: "c_int \<Rightarrow> 'w \<Rightarrow> 'w"
  k_sigreturn :: "sigset_t \<Rightarrow> 'w \<Rightarrow> 'w"
  k_library :: "'w \<Rightarrow> 'w"

type_synonym ('w, 'f, 'a) process_state = "('w, 'f mcontext, 'f, 'a) lingering"

section \<open>Entering and leaving a function\<close>

definition QUANTUM_MICROSECS :: u64 where
  "QUANTUM_MICROSECS = 100"

definition setup_thread :: "('w, 'z) gotcha_scheme \<Rightarrow> real_thread_id \<Rightarrow>
    (('w, 's) preemption_scheme, unit io_result) comp" where
  "setup_thread G thread = thread_setup G thread (addr_of_preempt G) QUANTUM_MICROSECS"

definition drop_stack :: "stack reusable deref_adapter \<Rightarrow> (('w, 's) statics_scheme, unit) comp" where
  "drop_stack k = drop_reusable mutex_ops stacks_place (adapted k)"

definition drop_checkpoint :: "'m context_t option \<Rightarrow> (('w, 's) statics_scheme, unit) comp" where
  "drop_checkpoint c = (case c of None \<Rightarrow> ret () | Some c \<Rightarrow> drop_stack (ctx_stack c))"

definition setup_stack :: "('w, 'm, 'z) timetravel_scheme \<Rightarrow>
    (('w, 's) statics_scheme, 'm context_t option io_result) comp" where
  "setup_stack E =
     bind (alloc_stack E) (\<lambda>k.
     bind (prim (tt_makecontext E (adapter_from k))) (\<lambda>r. case r of
       Ok goto \<Rightarrow> ret (Ok (Some goto))
     | Err e \<Rightarrow> andthen (drop_stack (adapter_from k)) (ret (Err e))))"

definition set_closure :: "nat \<Rightarrow> ('f, 'a) completion \<Rightarrow>
    (('w, 'm, 'f, 'a, 's) lingering_scheme, unit) comp" where
  "set_closure a c = modify (\<lambda>s. s\<lparr>closures := (closures s)(a := c)\<rparr>)"

text \<open>\<^verbatim>\<open>schedule\<close> after the function has returned.\<close>

definition schedule_exit :: "('w, 'z) gotcha_scheme \<Rightarrow> frame \<Rightarrow>
    (('w, 'm, 'f, 'a, 's) lingering_scheme, unit) comp" where
  "schedule_exit G fr =
     andthen (disable_preemption G (fr_signal fr))
     (bind (gets (\<lambda>s. task_errno (tls_TASK (ltls_at G s)))) (\<lambda>errno.
      debug_assert (debug_build G) (errno = None) ''schedule(): finished leaving errno''))"

text \<open>\<^verbatim>\<open>schedule\<close> up to the call of the closure.\<close>

definition schedule :: "('w, 'z) gotcha_scheme \<Rightarrow>
    (('w, 'm, 'f, 'a, 's) lingering_scheme, 'f progress) comp" where
  "schedule G =
     bind (gets (\<lambda>s. tls_BOOTSTRAP (ltls_at G s))) (\<lambda>bootstrap.
     andthen (set_ltls G (\<lambda>t. t\<lparr>tls_BOOTSTRAP := None\<rparr>))
     (case bootstrap of
       None \<Rightarrow> abort ''schedule(): called without bootstrapping''
     | Some (fun, grp) \<Rightarrow>
        andthen (stamp G)
        (bind (enable_preemption G (Some grp)) (\<lambda>r. case r of
           Err _ \<Rightarrow> abort ''schedule(): error accessing TLS variable''
         | Ok sig \<Rightarrow>
            andthen (debug_assert (debug_build G) (sig \<noteq> None) ''assertion failed: signal.is_some()'')
            (ret (At (Entering \<lparr>fr_fun = fun, fr_group = grp, fr_signal = sig\<rparr>)))))))"

text \<open>
  The closure called without an argument: it takes the function out and calls it.  A closure
  that already holds a return value would write it through a pointer \<^verbatim>\<open>schedule\<close> never passed.
\<close>

definition closure_call :: "frame \<Rightarrow> (('w, 'm, 'f, 'a, 's) lingering_scheme, 'f progress) comp" where
  "closure_call fr =
     bind (gets (\<lambda>s. closures s (fr_fun fr))) (\<lambda>c. case completion_take c of (taken, left) \<Rightarrow>
       andthen (set_closure (fr_fun fr) left)
       (case taken of
         Function f \<Rightarrow> ret (At (Running fr f))
       | Return _ \<Rightarrow> failing Undefined
       | Empty \<Rightarrow> ret (At (Leaving fr))))"

text \<open>The function is done: \<^verbatim>\<open>catch_unwind\<close> puts its value or its panic into the closure.\<close>

definition function_done :: "frame \<Rightarrow> ('a, string) result \<Rightarrow>
    (('w, 'm, 'f, 'a, 's) lingering_scheme, 'f progress) comp" where
  "function_done fr r = andthen (set_closure (fr_fun fr) (Return r)) (ret (At (Leaving fr)))"

text \<open>
  A call from the function into a shared library switches the thread to the shared libset; when
  it returns, the thread is switched back and the hook runs.  \<^verbatim>\<open>pause\<close> is such a call.
\<close>

definition library_returns :: "('w, 'z) gotcha_scheme \<Rightarrow> frame \<Rightarrow>
    (('w, 's) preemption_scheme, unit) comp" where
  "library_returns G fr = andthen (primu (group_thread_set G (fr_group fr))) (resume_preemption G)"

definition user_step :: "('w, 'f, 'z) platform_scheme \<Rightarrow> ('w, 'f, 'a) user_code \<Rightarrow> frame \<Rightarrow> 'f \<Rightarrow>
    (('w, 'm, 'f, 'a, 's) lingering_scheme, 'f progress) comp" where
  "user_step E U fr f =
     bind (prim (U f)) (\<lambda>op. case op of
       Works f' \<Rightarrow> ret (At (Running fr f'))
     | Calls f' \<Rightarrow> andthen (primu (group_thread_set E (group_SHARED E))) (ret (At (In_library fr f')))
     | Pauses f' \<Rightarrow> andthen (primu (group_thread_set E (group_SHARED E)))
         (andthen (pause E) (andthen (library_returns E fr) (ret (At (Running fr f')))))
     | Returns v \<Rightarrow> function_done fr (Ok v)
     | Panics msg \<Rightarrow> function_done fr (Err msg))"

section \<open>Events\<close>

text \<open>A signal can be delivered when it is pending, not blocked, and \<^verbatim>\<open>preempt\<close> handles it.\<close>

definition deliverable :: "('w, 'z) libc_scheme \<Rightarrow> 'w \<Rightarrow> c_int \<Rightarrow> bool" where
  "deliverable L w n \<longleftrightarrow> n \<in> v_pending (view L w) \<and> n \<notin> v_mask (view L w) \<and>
     v_handler (view L w) n = Some (addr_of_preempt L)"

definition interrupted :: "('w, 'z) libc_scheme \<Rightarrow> 'w \<Rightarrow> bool" where
  "interrupted L w \<longleftrightarrow> (\<exists>n \<in> v_pending (view L w). deliverable L w n)"

fun enabled :: "('w, 'z) libc_scheme \<Rightarrow> event \<Rightarrow> 'f control \<Rightarrow> 'w \<Rightarrow> bool" where
  "enabled L (Expires no) c w = True"
| "enabled L (Delivers no) c w = deliverable L w (signal_as_c_int no)"
| "enabled L Steps c w = (\<not> interrupted L w)"
| "enabled L Library (In_library fr f) w = (\<not> interrupted L w)"
| "enabled L Library c w = False"

definition goto :: "'f mcontext \<Rightarrow> (('w, 's) process_scheme, 'f progress) comp" where
  "goto m = (case m of Interrupted c \<Rightarrow> ret (At c) | Call_site \<Rightarrow> ret Back | Entry \<Rightarrow> failing Undefined)"

definition deliver :: "('w, 'f, 'z) platform_scheme \<Rightarrow> signal \<Rightarrow> 'f control \<Rightarrow>
    (('w, 'f mcontext, 'f, 'a, 's) lingering_scheme, 'f progress) comp" where
  "deliver E no c =
     bind (asks (\<lambda>w. v_mask (view E w))) (\<lambda>blocked.
     andthen (primu (k_deliver E (signal_as_c_int no)))
     (bind (preempt E no (Some \<lparr>uc_mcontext = Interrupted c, uc_sigmask = blocked\<rparr>)) (\<lambda>uc.
      andthen (primu (k_sigreturn E (uc_sigmask uc)))
      (goto (uc_mcontext uc)))))"

fun thread_event :: "('w, 'f, 'z) platform_scheme \<Rightarrow> ('w, 'f, 'a) user_code \<Rightarrow> event \<Rightarrow> 'f control \<Rightarrow>
    (('w, 'f mcontext, 'f, 'a, 's) lingering_scheme, 'f progress) comp" where
  "thread_event E U (Expires no) c =
     andthen (primu (k_expire E (signal_as_c_int no))) (ret (At c))"
| "thread_event E U (Delivers no) c = deliver E no c"
| "thread_event E U Steps (Entering fr) = closure_call fr"
| "thread_event E U Steps (Running fr f) = user_step E U fr f"
| "thread_event E U Steps (In_library fr f) =
     andthen (library_returns E fr) (ret (At (Running fr f)))"
| "thread_event E U Steps (Leaving fr) =
     andthen (schedule_exit E fr) (andthen (primu (tt_return E)) (ret Back))"
| "thread_event E U Library c = andthen (primu (k_library E)) (ret (At c))"

fun execute :: "('w, 'f, 'z) platform_scheme \<Rightarrow> ('w, 'f, 'a) user_code \<Rightarrow> event list \<Rightarrow> 'f control \<Rightarrow>
    (('w, 'f mcontext, 'f, 'a, 's) lingering_scheme, unit) comp" where
  "execute E U [] c = failing Unfinished"
| "execute E U (e # es) c = (\<lambda>s.
     if enabled E e c (world s)
     then bind (thread_event E U e c) (\<lambda>p. case p of At c' \<Rightarrow> execute E U es c' | Back \<Rightarrow> ret ()) s
     else (Fail Unfinished, s))"

text \<open>
  Where a transfer of control leads, until the thread is back at the call site.  A panic that
  nothing on the oneshot stack catches has no frame to unwind to, and the runtime aborts.
\<close>

definition no_unwind :: "('s, 'x) comp \<Rightarrow> ('s, 'x) comp" where
  "no_unwind m = (\<lambda>s. case m s of (Fail (Panicked msg), t) \<Rightarrow> (Fail (Aborted msg), t) | r \<Rightarrow> r)"

definition transfer :: "('w, 'f, 'z) platform_scheme \<Rightarrow> ('w, 'f, 'a) user_code \<Rightarrow> event list \<Rightarrow> 'f mcontext \<Rightarrow>
    (('w, 'f mcontext, 'f, 'a, 's) lingering_scheme, unit) comp" where
  "transfer E U es m = no_unwind (case m of
      Entry \<Rightarrow> bind (schedule E) (\<lambda>p. case p of At c \<Rightarrow> execute E U es c | Back \<Rightarrow> ret ())
    | Interrupted c \<Rightarrow> execute E U es c
    | Call_site \<Rightarrow> ret ())"

section \<open>Documented behaviour\<close>

text \<open>
  \<^verbatim>\<open>libtimetravel\<close>: a made context enters \<^verbatim>\<open>schedule\<close> and owns the stack it was given; restoring
  a context changes only where it returns to; \<^verbatim>\<open>sigsetcontext\<close> continues where the context says,
  with its signal mask, and from then on the context object stands for the call site; a context
  that cannot be entered changes nothing.  Coming to the end of a made context is not a system
  call, and leaves the thread's view, its signal mask included, as it was.
\<close>

definition context_doc :: "('w, 'f mcontext, 'z) timetravel_scheme \<Rightarrow> bool" where
  "context_doc E \<longleftrightarrow> swap_doc E \<and>
     (\<forall>k w. case tt_makecontext E k w of (r, w') \<Rightarrow> view E w' = view E w \<and>
        (case r of Ok c \<Rightarrow> ctx_mcontext c = Entry \<and> ctx_stack c = k | Err _ \<Rightarrow> True)) \<and>
     (\<forall>c w. case tt_restorecontext E c w of (r, w') \<Rightarrow> view E w' = view E w \<and>
        (case r of Ok c' \<Rightarrow> ctx_mcontext c' = ctx_mcontext c \<and> ctx_stack c' = ctx_stack c | Err _ \<Rightarrow> True)) \<and>
     (\<forall>c w. case tt_sigsetcontext E c w of (r, w') \<Rightarrow> (case r of
        Ok (m, c') \<Rightarrow> m = ctx_mcontext c \<and> ctx_mcontext c' = Call_site \<and> ctx_stack c' = ctx_stack c \<and>
          view E w' = (view E w)\<lparr>v_mask := ctx_mask c\<rparr>
      | Err _ \<Rightarrow> view E w' = view E w)) \<and>
     (\<forall>w. view E (tt_return E w) = view E w)"

text \<open>
  The kernel: \<^verbatim>\<open>signal(7)\<close> and \<^verbatim>\<open>sigreturn(2)\<close>.  The handler is registered with an empty mask, so
  only the delivered signal itself is blocked while it runs.  Library code may set the \<^verbatim>\<open>errno\<close>
  of the libset it runs in.
\<close>

definition sets_errno :: "('w, 'z) libc_scheme \<Rightarrow> 'w \<Rightarrow> 'w \<Rightarrow> bool" where
  "sets_errno L w w' \<longleftrightarrow> (\<exists>e. view L w' =
     (view L w)\<lparr>v_errno := (v_errno (view L w))(v_group (view L w) := e)\<rparr>)"

lemma sets_errno_none: "view L w' = view L w \<Longrightarrow> sets_errno L w w'"
  by (auto simp: sets_errno_def intro!: exI [of _ "v_errno (view L w) (v_group (view L w))"])

definition kernel_doc :: "('w, 'f, 'z) platform_scheme \<Rightarrow> bool" where
  "kernel_doc E \<longleftrightarrow>
     (\<forall>n w. view E (k_expire E n w) = (view E w)\<lparr>v_pending := insert n (v_pending (view E w))\<rparr>) \<and>
     (\<forall>n w. view E (k_deliver E n w) = (view E w)\<lparr>v_pending := v_pending (view E w) - {n},
        v_mask := insert n (v_mask (view E w))\<rparr>) \<and>
     (\<forall>m w. view E (k_sigreturn E m w) = (view E w)\<lparr>v_mask := m\<rparr>) \<and>
     (\<forall>w. sets_errno E w (k_library E w))"

text \<open>The clock is past the epoch, and nanoseconds since then fit into 64 bits until the year 2554.\<close>

definition clock_doc :: "('w, 'z) libc_scheme \<Rightarrow> bool" where
  "clock_doc L \<longleftrightarrow> (\<forall>w. \<exists>now. time_is L w now)"

text \<open>The preemptible function leaves the signal mask, the libset and the thread pointer alone.\<close>

definition user_doc :: "('w, 'z) libc_scheme \<Rightarrow> ('w, 'f, 'a) user_code \<Rightarrow> bool" where
  "user_doc L U \<longleftrightarrow> (\<forall>f w. sets_errno L w (snd (U f w)))"

end
