(* ===== verification/Resume.thy ===== *)
theory Resume
  imports Execution
begin

text \<open>
  \<^verbatim>\<open>src/linger.rs\<close>, third part: \<^verbatim>\<open>switch_stack\<close>, \<^verbatim>\<open>resume\<close>, \<^verbatim>\<open>launch\<close> and the destructor
  of a continuation.  A function that is handed a value to modify works on the pair of that
  value and the state of the process, so that what it wrote before a panic is not lost.
\<close>

section \<open>Switching stacks\<close>

text \<open>The closure of \<^verbatim>\<open>switch_stack\<close>, where it resumes a paused function: everything but the jump.\<close>

definition switch_stack_prepare :: "('w, 'm, 'z) timetravel_scheme \<Rightarrow> c_int \<Rightarrow> group \<Rightarrow>
    (('w, 'm, 'f, 'a, 's) lingering_scheme, io_error option) comp" where
  "switch_stack_prepare E erryes grp =
     bind (thread_signal E) (\<lambda>r.
     bind (case r of Ok sig \<Rightarrow> ret sig | Err _ \<Rightarrow> abort ''switch_stack(): error accessing TLS variable'') (\<lambda>sig.
     bind (pthread_sigmask E Block (sigset_add E sig (sigset_empty E))) (\<lambda>r.
     (case (case r of Ok old \<Rightarrow> (None, old) | Err err \<Rightarrow> (Some err, sigset_empty E)) of (error, old) \<Rightarrow>
      andthen (set_ltls E (\<lambda>t. t\<lparr>tls_TASK := (tls_TASK t)\<lparr>task_checkpoint :=
        map_option (\<lambda>resume. resume\<lparr>ctx_mask := sigset_del E sig old\<rparr>) (task_checkpoint (tls_TASK t))\<rparr>\<rparr>))
      (andthen (stamp E)
      (andthen (primu (group_thread_set E grp))
      (andthen (primu (tt_set_errno E erryes))
      (ret error))))))))"

text \<open>The jump.  \<^verbatim>\<open>sigsetcontext\<close> only returns when it fails.\<close>

definition switch_stack_jump :: "('w, 'f, 'z) platform_scheme \<Rightarrow> ('w, 'f, 'a) user_code \<Rightarrow> event list \<Rightarrow>
    io_error option \<Rightarrow> (('w, 'f mcontext, 'f, 'a, 's) lingering_scheme, io_error option) comp" where
  "switch_stack_jump E U es error =
     bind (gets (\<lambda>s. task_checkpoint (tls_TASK (ltls_at E s)))) (\<lambda>resume.
     bind (unwrap resume) (\<lambda>resume.
     bind (prim (tt_sigsetcontext E resume)) (\<lambda>r. case r of
       Ok (target, resume') \<Rightarrow>
         andthen (set_ltls E (\<lambda>t. t\<lparr>tls_TASK := (tls_TASK t)\<lparr>task_checkpoint := Some resume'\<rparr>\<rparr>))
         (andthen (transfer E U es target) (ret error))
     | Err failure \<Rightarrow> bind (expect ''resume(): continuation is invalid'' failure) (\<lambda>e. ret (Some e)))))"

definition switch_stack_scope :: "('w, 'f, 'z) platform_scheme \<Rightarrow> ('w, 'f, 'a) user_code \<Rightarrow> event list \<Rightarrow>
    c_int option \<Rightarrow> group \<Rightarrow> 'f mcontext context_t \<Rightarrow>
    (('w, 'f mcontext, 'f, 'a, 's) lingering_scheme, io_error option) comp" where
  "switch_stack_scope E U es errno grp here =
     bind (gets (\<lambda>s. task_checkpoint (tls_TASK (ltls_at E s)))) (\<lambda>checkpoint.
     andthen (debug_assert (debug_build E) (checkpoint = None) ''switch_stack(): this continuation would nest?!'')
     (andthen (case checkpoint of
         None \<Rightarrow> set_ltls E (\<lambda>t. t\<lparr>tls_TASK := (tls_TASK t)\<lparr>task_checkpoint := Some here\<rparr>\<rparr>)
       | Some _ \<Rightarrow> drop_checkpoint (Some here))
     (bind (case errno of None \<Rightarrow> ret None | Some erryes \<Rightarrow> switch_stack_prepare E erryes grp)
     (\<lambda>error. switch_stack_jump E U es error))))"

definition set_task :: "('m task \<Rightarrow> 'm task) \<Rightarrow> ('m continuation \<times> 's, unit) comp" where
  "set_task f = modify (\<lambda>(c, s). (c\<lparr>stateful := f (stateful c)\<rparr>, s))"

definition switch_stack_finish :: "('w, 'z) libc_scheme \<Rightarrow>
    ('m continuation \<times> ('w, 'm, 'f, 'a, 's) lingering_scheme, bool io_result) comp" where
  "switch_stack_finish E =
     bind (elsewhere (gets (\<lambda>s. tls_TASK (ltls_at E s)))) (\<lambda>descheduled.
     andthen (elsewhere (set_ltls E (\<lambda>t. t\<lparr>tls_TASK := task_default\<rparr>)))
     (let preempted = (task_errno descheduled \<noteq> None) in
      if preempted
      then bind (gets (\<lambda>(c, _). task_checkpoint (stateful c))) (\<lambda>old.
        andthen (set_task (\<lambda>_. descheduled))
        (andthen (elsewhere (drop_checkpoint old)) (ret (Ok False))))
      else andthen (set_task (\<lambda>t. t\<lparr>task_errno := None\<rparr>))
        (andthen (elsewhere (drop_checkpoint (task_checkpoint descheduled))) (ret (Ok True)))))"

definition switch_stack :: "('w, 'f, 'z) platform_scheme \<Rightarrow> ('w, 'f, 'a) user_code \<Rightarrow> event list \<Rightarrow> group \<Rightarrow>
    ('f mcontext continuation \<times> ('w, 'f mcontext, 'f, 'a, 's) lingering_scheme, bool io_result) comp" where
  "switch_stack E U es grp =
     bind (gets (\<lambda>(c, _). stateful c)) (\<lambda>task.
     bind (expect ''switch_stack(): continuation is missing'' (task_checkpoint task)) (\<lambda>checkpoint.
     andthen (set_task (\<lambda>t. t\<lparr>task_checkpoint := None\<rparr>))
     (bind (elsewhere (prim (tt_restorecontext E checkpoint))) (\<lambda>r. case r of
       Err e \<Rightarrow> andthen (elsewhere (drop_checkpoint (Some checkpoint))) (ret (Err e))
     | Ok here \<Rightarrow>
        bind (elsewhere (switch_stack_scope E U es (task_errno task) grp here)) (\<lambda>error. case error of
          Some e \<Rightarrow> ret (Err e)
        | None \<Rightarrow> switch_stack_finish E)))))"

section \<open>Dropping a continuation\<close>

abbreviation drop_group :: "group reusable \<Rightarrow> (('w, 's) statics_scheme, unit) comp" where
  "drop_group \<equiv> drop_reusable mutex_ops groups_place"

abbreviation drop_localstore :: "tcb option reusable \<Rightarrow> (('w, 's) statics_scheme, unit) comp" where
  "drop_localstore \<equiv> drop_reusable mutex_ops localstores_place"

text \<open>The destructor, then the fields in the order of their declaration.\<close>

definition drop_continuation :: "('w, 'z) gotcha_scheme \<Rightarrow> 'm continuation \<Rightarrow>
    (('w, 'm, 'f, 'a, 's) lingering_scheme, unit) comp" where
  "drop_continuation G self =
     with_cleanup
       (bind (is_preemptible G) (\<lambda>p.
        andthen (debug_assert (debug_build G) (\<not> p) ''libinger: dropped from preemptible function'')
        (only_if (task_errno (stateful self) \<noteq> None)
          (bind (deref (cont_group self)) (\<lambda>grp.
           bind (prim (group_renew G grp)) (\<lambda>renewed.
           assert renewed ''libinger: failed to reinitialize library group''))))))
       (andthen (set_closure (functional self) Empty)
        (with_cleanup (drop_checkpoint (task_checkpoint (stateful self)))
          (with_cleanup (drop_group (cont_group self))
            (drop_localstore (cont_tls self)))))"

definition drop_linger :: "('w, 'z) gotcha_scheme \<Rightarrow> ('a, 'm) linger \<Rightarrow>
    (('w, 'm, 'f, 'a, 's) lingering_scheme, unit) comp" where
  "drop_linger G fun = (case fun of Continuation c \<Rightarrow> drop_continuation G c | _ \<Rightarrow> ret ())"

section \<open>Resuming\<close>

text \<open>\<^verbatim>\<open>continuation.tls.take()\<close>, through the pool's wrapper.\<close>

definition take_tls :: "('m continuation \<times> 's, tcb) comp" where
  "take_tls =
     bind (gets (\<lambda>(c, _). cont_tls c)) (\<lambda>r.
     bind (deref r) (\<lambda>tls.
     bind (deref_mut (\<lambda>_. None) r) (\<lambda>r'.
     andthen (modify (\<lambda>(c, s). (c\<lparr>cont_tls := r'\<rparr>, s)))
     (expect ''libinger: continuation with missing TCB'' tls))))"

definition replace_tls :: "tcb \<Rightarrow> ('m continuation \<times> 's, unit) comp" where
  "replace_tls b =
     bind (gets (\<lambda>(c, _). cont_tls c)) (\<lambda>r.
     bind (deref_mut (\<lambda>_. Some b) r) (\<lambda>r'. modify (\<lambda>(c, s). (c\<lparr>cont_tls := r'\<rparr>, s))))"

text \<open>\<open>?\<close> and unwinding while a thread-control block is installed drop its guard.\<close>

definition guarded :: "('w, 'z) gotcha_scheme \<Rightarrow> tcb_guard \<Rightarrow>
    ('c \<times> ('w, 's) tcbs_scheme, 'x io_result) comp \<Rightarrow>
    ('c \<times> ('w, 's) tcbs_scheme, 'x io_result) comp" where
  "guarded G gd m =
     bind (on_panic m (elsewhere (drop_tcb_guard G gd))) (\<lambda>r. case r of
       Ok x \<Rightarrow> ret (Ok x)
     | Err e \<Rightarrow> andthen (elsewhere (drop_tcb_guard G gd)) (ret (Err e)))"

text \<open>The first launch of a function: a fresh stack, and the closure left where \<^verbatim>\<open>schedule\<close> finds it.\<close>

definition resume_bootstrap :: "('w, 'm, 'z) timetravel_scheme \<Rightarrow> group \<Rightarrow>
    ('m continuation \<times> ('w, 'm, 'f, 'a, 's) lingering_scheme, unit io_result) comp" where
  "resume_bootstrap E grp =
     or_return (elsewhere (setup_stack E)) (\<lambda>checkpoint.
     bind (gets (\<lambda>(c, _). (task_checkpoint (stateful c), functional c))) (\<lambda>(old, fun).
     andthen (set_task (\<lambda>t. t\<lparr>task_checkpoint := checkpoint\<rparr>))
     (andthen (elsewhere (drop_checkpoint old))
     (bind (elsewhere (gets (\<lambda>s. tls_BOOTSTRAP (ltls_at E s)))) (\<lambda>no_fun.
     andthen (elsewhere (set_ltls E (\<lambda>t. t\<lparr>tls_BOOTSTRAP := Some (fun, grp)\<rparr>)))
     (andthen (debug_assert (debug_build E) (no_fun = None)
        ''resume(): bootstraps without an intervening schedule()'')
     (ret (Ok ()))))))))"

text \<open>What \<^verbatim>\<open>resume\<close> does between installing and uninstalling the thread-control block.\<close>

definition resume_installed :: "('w, 'f, 'z) platform_scheme \<Rightarrow> ('w, 'f, 'a) user_code \<Rightarrow> event list \<Rightarrow>
    real_thread_id \<Rightarrow> group \<Rightarrow> u64 \<Rightarrow>
    ('f mcontext continuation \<times> ('w, 'f mcontext, 'f, 'a, 's) lingering_scheme, bool io_result) comp" where
  "resume_installed E U es thread grp us =
     bind (elsewhere (setup_thread E thread)) (\<lambda>r.
     andthen (case r of Ok _ \<Rightarrow> ret () | Err e \<Rightarrow> abort (''resume(): failure in thread_setup(): '' @ io_error_display E e))
     (bind (gets (\<lambda>(c, _). task_errno (stateful c))) (\<lambda>errno.
     or_return (if errno = None then resume_bootstrap E grp else ret (Ok ())) (\<lambda>_.
     andthen (elsewhere (set_ltls E (\<lambda>t. t\<lparr>tls_DEADLINE := us\<rparr>)))
     (switch_stack E U es grp)))))"

definition resume_continuation :: "('w, 'f, 'z) platform_scheme \<Rightarrow> ('w, 'f, 'a) user_code \<Rightarrow> event list \<Rightarrow> u64 \<Rightarrow>
    ('f mcontext continuation \<times> ('w, 'f mcontext, 'f, 'a, 's) lingering_scheme, bool io_result) comp" where
  "resume_continuation E U es us =
     bind (gets (\<lambda>(c, _). cont_group c)) (\<lambda>g.
     bind (deref g) (\<lambda>grp.
     bind (elsewhere (real_thread_id_current E)) (\<lambda>thread.
     bind take_tls (\<lambda>tls.
     or_return (elsewhere (install E tls grp)) (\<lambda>gd.
     or_return (guarded E gd (resume_installed E U es thread grp us)) (\<lambda>finished.
     or_return (elsewhere (uninstall E gd)) (\<lambda>tls.
     andthen (replace_tls tls) (ret (Ok finished)))))))))"

text \<open>
  The closure called for its return value.  While it still holds the function, this call would
  run the function once more on the caller's stack; that never happens and is not modelled.
\<close>

definition closure_retrieve :: "nat \<Rightarrow>
    (('w, 'm, 'f, 'a, 's) lingering_scheme, ('a, string) result option) comp" where
  "closure_retrieve a =
     bind (gets (\<lambda>s. closures s a)) (\<lambda>c. case completion_take c of (taken, left) \<Rightarrow>
       andthen (set_closure a left) (case taken of
         Function _ \<Rightarrow> failing Undefined
       | Return val \<Rightarrow> ret (Some val)
       | Empty \<Rightarrow> ret None))"

text \<open>\<^verbatim>\<open>*fun = \<dots>\<close> drops the continuation that is replaced.\<close>

definition assign :: "('w, 'z) gotcha_scheme \<Rightarrow> ('a, 'm) linger \<Rightarrow>
    (('a, 'm) linger \<times> ('w, 'm, 'f, 'a, 's) lingering_scheme, unit) comp" where
  "assign G new =
     bind (gets fst) (\<lambda>old.
     andthen (modify (\<lambda>(_, s). (new, s))) (elsewhere (drop_linger G old)))"

definition resume :: "('w, 'f, 'z) platform_scheme \<Rightarrow> ('w, 'f, 'a) user_code \<Rightarrow> event list \<Rightarrow> u64 \<Rightarrow>
    (('a, 'f mcontext) linger \<times> ('w, 'f mcontext, 'f, 'a, 's) lingering_scheme, unit io_result) comp" where
  "resume E U es us =
     bind (elsewhere (is_preemptible E)) (\<lambda>p.
     andthen (debug_assert (debug_build E) (\<not> p) ''resume(): called from preemptible function'')
     (bind (gets fst) (\<lambda>fun. case fun of
        Continuation c \<Rightarrow>
          or_return (\<lambda>(_, s). case resume_continuation E U es us (c, s) of
              (r, (c', t)) \<Rightarrow> (r, (Continuation c', t)))
          (\<lambda>finished. if \<not> finished then ret (Ok ()) else
            bind (elsewhere (closure_retrieve (functional c))) (\<lambda>retval.
            bind (expect ''resume(): return value was already retrieved'' retval) (\<lambda>retval. case retval of
              Ok v \<Rightarrow> andthen (assign E (Completion v)) (ret (Ok ()))
            | Err payload \<Rightarrow> andthen (assign E Poison) (panic payload))))
      | _ \<Rightarrow> ret (Ok ()))))"

section \<open>Launching\<close>

definition new_closure :: "'f \<Rightarrow> (('w, 'm, 'f, 'a, 's) lingering_scheme, nat) comp" where
  "new_closure f =
     bind (gets heap_next) (\<lambda>a.
     andthen (modify (\<lambda>s. s\<lparr>heap_next := Suc a\<rparr>))
     (andthen (set_closure a (Function f)) (ret a)))"

text \<open>
  A function that cannot be started, or that panics, takes its \<^verbatim>\<open>Linger\<close> with it: \<^verbatim>\<open>launch\<close>
  still owns the value and drops it, and before there is one, the closure and the libset.
\<close>

definition launch_linger :: "('w, 'z) gotcha_scheme \<Rightarrow> 'f \<Rightarrow>
    (('w, 'm, 'f, 'a, 's) lingering_scheme, ('a, 'm) linger) comp" where
  "launch_linger G f =
     bind (new_closure f) (\<lambda>a. on_panic
       (bind (assign_group G) (\<lambda>r.
        bind (expect_ok ''launch(): too many active timed functions'' (debug_option debug_poison_error) r) (\<lambda>grp.
        bind (on_panic (alloc_localstore G) (drop_group grp)) (\<lambda>tls.
        ret (Continuation \<lparr>functional = a, stateful = task_default, cont_group = grp, cont_tls = tls\<rparr>)))))
       (set_closure a Empty))"

definition launch :: "('w, 'f, 'z) platform_scheme \<Rightarrow> ('w, 'f, 'a) user_code \<Rightarrow> event list \<Rightarrow> 'f \<Rightarrow> u64 \<Rightarrow>
    (('w, 'f mcontext, 'f, 'a, 's) lingering_scheme, ('a, 'f mcontext) linger io_result) comp" where
  "launch E U es f us =
     bind (is_preemptible E) (\<lambda>p.
     andthen (debug_assert (debug_build E) (\<not> p) ''launch(): called from preemptible function'')
     (bind (launch_linger E f) (\<lambda>linger.
      if us = 0 then ret (Ok linger) else
      (\<lambda>s. case resume E U es us (linger, s) of
         (Val (Ok _), (l, t)) \<Rightarrow> (Val (Ok l), t)
       | (Val (Err e), (l, t)) \<Rightarrow> andthen (drop_linger E l) (ret (Err e)) t
       | (Fail e, (l, t)) \<Rightarrow> on_panic (failing e) (drop_linger E l) t))))"

end
