(* ===== verification/Machine.thy ===== *)
theory Machine
  imports Resume
begin

text \<open>
  A machine on which every parameter of the model is a concrete function: one thread, a clock
  in nanoseconds, counters for libsets and thread-control blocks, timers, a mailbox in memory, and the
  kernel's view of the thread.  It satisfies every documented behaviour the theorems assume, so none of them holds
  for want of a platform, and the theorems are applied to it.
\<close>

section \<open>The machine\<close>

record machine =
  m_view :: kview
  m_now :: u64
  m_groups :: nat
  m_tls :: usize
  m_timer :: timer
  m_timers :: "timer \<Rightarrow> (c_int \<times> sigevent_t \<times> (c_int \<times> itimerspec) option) option"
  m_mail :: "nat list"
  m_mail_open :: bool

definition m_group_limit :: nat where "m_group_limit = 4"
definition m_tls_end :: usize where "m_tls_end = 0x300000"
definition m_preempt :: handler where "m_preempt = 0x401000"

definition m_sigmask :: "c_int \<Rightarrow> sigset_t \<Rightarrow> machine \<Rightarrow> (c_int \<times> sigset_t) \<times> machine" where
  "m_sigmask how new w = (let old = v_mask (m_view w) in
     if how = 0 then ((0, old), w\<lparr>m_view := (m_view w)\<lparr>v_mask := old \<union> new\<rparr>\<rparr>)
     else if how = 1 then ((0, old), w\<lparr>m_view := (m_view w)\<lparr>v_mask := old - new\<rparr>\<rparr>)
     else if how = 2 then ((0, old), w\<lparr>m_view := (m_view w)\<lparr>v_mask := new\<rparr>\<rparr>)
     else ((22, old), w))"

definition m_sigaction :: "c_int \<Rightarrow> sigaction_t option \<Rightarrow> machine \<Rightarrow> (c_int \<times> sigaction_t) \<times> machine" where
  "m_sigaction no act w = ((0, sigaction_new 0 {} 0), (case act of None \<Rightarrow> w
     | Some a \<Rightarrow> w\<lparr>m_view := (m_view w)\<lparr>v_handler := (v_handler (m_view w))(no \<mapsto> sa_sigaction a)\<rparr>\<rparr>))"

definition m_errno :: "group \<Rightarrow> c_int \<Rightarrow> machine \<Rightarrow> machine" where
  "m_errno g e w = w\<lparr>m_view := (m_view w)\<lparr>v_errno := (v_errno (m_view w))(g := e)\<rparr>\<rparr>"

definition m_pending :: "c_int \<Rightarrow> machine \<Rightarrow> machine" where
  "m_pending n w = w\<lparr>m_view := (m_view w)\<lparr>v_pending := insert n (v_pending (m_view w))\<rparr>\<rparr>"

definition m_libc :: "bool \<Rightarrow> machine libc" where
  "m_libc debug = \<lparr>debug_build = debug,
     view = m_view,
     system_time = (\<lambda>w. Some (m_now w div 1000000000, ucast (m_now w mod 1000000000))),
     last_os_error = (\<lambda>_. 22),
     io_error_display = (\<lambda>_. ''Invalid argument (os error 22)''),
     io_error_debug = (\<lambda>_. ''Os { code: 22, kind: InvalidInput, message: '' @ [CHR 0x22] @ ''Invalid argument'' @ [CHR 0x22] @ '' }''),
     addr_of_preempt = m_preempt,
     c_zeroed_sigset = {},
     c_sigemptyset = (\<lambda>_. (0, {})),
     c_sigfillset = (\<lambda>_. (0, UNIV)),
     c_sigaddset = (\<lambda>me n. (0, insert n me)),
     c_sigdelset = (\<lambda>me n. (0, me - {n})),
     c_sigismember = (\<lambda>me n. if n \<in> me then 1 else 0),
     c_sigaction = m_sigaction,
     c_pthread_sigmask = m_sigmask,
     c_pthread_self = (\<lambda>_. 1),
     c_uninit_sigevent = \<lparr>sigev_value = 0, sigev_signo = 0, sigev_notify = 0, sigev_notify_thread_id = 0\<rparr>,
     c_timer_create = (\<lambda>c e w. ((0, m_timer w), w\<lparr>m_timers := (m_timers w)(m_timer w \<mapsto> (c, e, None)), m_timer := m_timer w + 1\<rparr>)),
     c_timer_settime = (\<lambda>i f it w. if itimerspec_valid it
       then ((0, it), w\<lparr>m_timers := (m_timers w)(i := map_option (\<lambda>(c, e, _). (c, e, Some (f, it))) (m_timers w i))\<rparr>) else ((- 1, it), w)),
     c_timer_delete = (\<lambda>_ w. (0, w)),
     c_arch_prctl = (\<lambda>_ w. ((0, v_fs (m_view w)), w)),
     c_dl_allocate_tls = (\<lambda>w. if m_tls w < m_tls_end
       then (Some (m_tls w), w\<lparr>m_tls := m_tls w + 0x1000\<rparr>) else (None, w)),
     c_dl_deallocate_tls = (\<lambda>_ w. w),
     c_call_tls_dtors = id,
     c_ctype_init = id\<rparr>"

definition m_gotcha :: "bool \<Rightarrow> machine gotcha" where
  "m_gotcha debug = libc.extend (m_libc debug)
    \<lparr>group_SHARED = 0,
     group_is_shared = (\<lambda>g. g = 0),
     group_thread_get = (\<lambda>w. v_group (m_view w)),
     group_thread_set = (\<lambda>g w. w\<lparr>m_view := (m_view w)\<lparr>v_group := g\<rparr>\<rparr>),
     group_new = (\<lambda>w. if m_groups w < m_group_limit
       then (Some (Suc (m_groups w)), w\<lparr>m_groups := Suc (m_groups w)\<rparr>) else (None, w)),
     group_renew = (\<lambda>_ w. (True, w)),
     group_limit = m_group_limit,
     group_lookup_errno_location = (\<lambda>g _. if g \<le> m_group_limit then Some (of_nat g) else None),
     errno_location_read = (\<lambda>f w. v_errno (m_view w) (unat f)),
     errno_location_write = (\<lambda>f. m_errno (unat f)),
     tt_errno = (\<lambda>w. v_errno (m_view w) (v_group (m_view w))),
     tt_set_errno = (\<lambda>e w. m_errno (v_group (m_view w)) e w),
     group_lookup_ctype_init = (\<lambda>_ _. Some id),
     gotcha_shared_hook = id,
     libgotcha_pthread_kill = (\<lambda>_ n w. (0, m_pending n w)),
     libgotcha_arch_prctl = (\<lambda>_ a w. (0, w\<lparr>m_view := (m_view w)\<lparr>v_fs := a\<rparr>\<rparr>))\<rparr>"

definition m_timetravel :: "bool \<Rightarrow> (machine, 'f mcontext) timetravel" where
  "m_timetravel debug = gotcha.extend (m_gotcha debug)
    \<lparr>tt_makecontext = (\<lambda>k w. (Ok \<lparr>ctx_mcontext = Entry, ctx_mask = v_mask (m_view w), ctx_stack = k\<rparr>, w)),
     tt_restorecontext = (\<lambda>c w. (Ok c, w)),
     tt_sigsetcontext = (\<lambda>c w. (Ok (ctx_mcontext c,
         c\<lparr>ctx_mcontext := Call_site, ctx_mask := v_mask (m_view w)\<rparr>),
       w\<lparr>m_view := (m_view w)\<lparr>v_mask := ctx_mask c\<rparr>\<rparr>)),
     tt_swap = (\<lambda>c u. (c\<lparr>ctx_mcontext := uc_mcontext u, ctx_mask := uc_sigmask u\<rparr>,
       u\<lparr>uc_mcontext := ctx_mcontext c, uc_sigmask := ctx_mask c\<rparr>)),
     tt_return = id\<rparr>"

definition m_platform :: "bool \<Rightarrow> (machine, 'f) platform" where
  "m_platform debug = timetravel.extend (m_timetravel debug)
    \<lparr>k_expire = m_pending,
     k_deliver = (\<lambda>n w. w\<lparr>m_view := (m_view w)\<lparr>v_pending := v_pending (m_view w) - {n},
       v_mask := insert n (v_mask (m_view w))\<rparr>\<rparr>),
     k_sigreturn = (\<lambda>m w. w\<lparr>m_view := (m_view w)\<lparr>v_mask := m\<rparr>\<rparr>),
     k_library = (\<lambda>w. w\<lparr>m_now := m_now w + 1000\<rparr>)\<rparr>"

section \<open>Its fields\<close>

lemmas machine_defs = m_platform_def m_timetravel_def m_gotcha_def m_libc_def
  libc.extend_def gotcha.extend_def timetravel.extend_def

lemma m_platform_fields [simp]:
  "debug_build (m_platform debug) = debug"
  "view (m_platform debug) = m_view"
  "system_time (m_platform debug) = (\<lambda>w. Some (m_now w div 1000000000, ucast (m_now w mod
    1000000000)))"
  "last_os_error (m_platform debug) = (\<lambda>_. 22)"
  "io_error_display (m_platform debug) = (\<lambda>_. ''Invalid argument (os error 22)'')"
  "addr_of_preempt (m_platform debug) = m_preempt"
  "c_zeroed_sigset (m_platform debug) = {}"
  "c_sigemptyset (m_platform debug) = (\<lambda>_. (0, {}))"
  "c_sigfillset (m_platform debug) = (\<lambda>_. (0, UNIV))"
  "c_sigaddset (m_platform debug) = (\<lambda>me n. (0, insert n me))"
  "c_sigdelset (m_platform debug) = (\<lambda>me n. (0, me - {n}))"
  "c_sigismember (m_platform debug) = (\<lambda>me n. if n \<in> me then 1 else 0)"
  "c_sigaction (m_platform debug) = m_sigaction"
  "c_pthread_sigmask (m_platform debug) = m_sigmask"
  "c_pthread_self (m_platform debug) = (\<lambda>_. 1)"
  "c_uninit_sigevent (m_platform debug) = \<lparr>sigev_value = 0, sigev_signo = 0, sigev_notify =
    0, sigev_notify_thread_id = 0\<rparr>"
  "c_timer_create (m_platform debug) = (\<lambda>c e w. ((0, m_timer w), w\<lparr>m_timers := (m_timers w)(m_timer w \<mapsto> (c, e, None)), m_timer := m_timer w + 1\<rparr>))"
  "c_timer_settime (m_platform debug) = (\<lambda>i f it w. if itimerspec_valid it
       then ((0, it), w\<lparr>m_timers := (m_timers w)(i := map_option (\<lambda>(c, e, _). (c, e, Some (f, it))) (m_timers w i))\<rparr>) else ((- 1, it), w))"
  "c_timer_delete (m_platform debug) = (\<lambda>_ w. (0, w))"
  "c_arch_prctl (m_platform debug) = (\<lambda>_ w. ((0, v_fs (m_view w)), w))"
  "c_dl_allocate_tls (m_platform debug) = (\<lambda>w. if m_tls w < m_tls_end then (Some (m_tls w),
    w\<lparr>m_tls := m_tls w + 0x1000\<rparr>) else (None, w))"
  "c_dl_deallocate_tls (m_platform debug) = (\<lambda>_ w. w)"
  "c_call_tls_dtors (m_platform debug) = id"
  "c_ctype_init (m_platform debug) = id"
  "group_SHARED (m_platform debug) = 0"
  "group_is_shared (m_platform debug) = (\<lambda>g. g = 0)"
  "group_thread_get (m_platform debug) = (\<lambda>w. v_group (m_view w))"
  "group_thread_set (m_platform debug) = (\<lambda>g w. w\<lparr>m_view := (m_view
    w)\<lparr>v_group := g\<rparr>\<rparr>)"
  "group_new (m_platform debug) = (\<lambda>w. if m_groups w < m_group_limit then (Some (Suc
    (m_groups w)), w\<lparr>m_groups := Suc (m_groups w)\<rparr>) else (None, w))"
  "group_renew (m_platform debug) = (\<lambda>_ w. (True, w))"
  "group_limit (m_platform debug) = m_group_limit"
  "group_lookup_errno_location (m_platform debug) = (\<lambda>g _. if g \<le> m_group_limit then
    Some (of_nat g) else None)"
  "errno_location_read (m_platform debug) = (\<lambda>f w. v_errno (m_view w) (unat f))"
  "errno_location_write (m_platform debug) = (\<lambda>f. m_errno (unat f))"
  "tt_errno (m_platform debug) = (\<lambda>w. v_errno (m_view w) (v_group (m_view w)))"
  "tt_set_errno (m_platform debug) = (\<lambda>e w. m_errno (v_group (m_view w)) e w)"
  "group_lookup_ctype_init (m_platform debug) = (\<lambda>_ _. Some id)"
  "gotcha_shared_hook (m_platform debug) = id"
  "libgotcha_pthread_kill (m_platform debug) = (\<lambda>_ n w. (0, m_pending n w))"
  "libgotcha_arch_prctl (m_platform debug) = (\<lambda>_ a w. (0, w\<lparr>m_view := (m_view
    w)\<lparr>v_fs := a\<rparr>\<rparr>))"
  "tt_makecontext (m_platform debug) = (\<lambda>k w. (Ok \<lparr>ctx_mcontext = Entry, ctx_mask
    = v_mask (m_view w), ctx_stack = k\<rparr>, w))"
  "tt_restorecontext (m_platform debug) = (\<lambda>c w. (Ok c, w))"
  "tt_sigsetcontext (m_platform debug) = (\<lambda>c w. (Ok (ctx_mcontext c, c\<lparr>ctx_mcontext
    := Call_site, ctx_mask := v_mask (m_view w)\<rparr>), w\<lparr>m_view := (m_view w)\<lparr>v_mask := ctx_mask c\<rparr>\<rparr>))"
  "tt_swap (m_platform debug) = (\<lambda>c u. (c\<lparr>ctx_mcontext := uc_mcontext u, ctx_mask
    := uc_sigmask u\<rparr>, u\<lparr>uc_mcontext := ctx_mcontext c, uc_sigmask := ctx_mask c\<rparr>))"
  "tt_return (m_platform debug) = id"
  "k_expire (m_platform debug) = m_pending"
  "k_deliver (m_platform debug) = (\<lambda>n w. w\<lparr>m_view := (m_view w)\<lparr>v_pending
    := v_pending (m_view w) - {n}, v_mask := insert n (v_mask (m_view w))\<rparr>\<rparr>)"
  "k_sigreturn (m_platform debug) = (\<lambda>m w. w\<lparr>m_view := (m_view w)\<lparr>v_mask :=
    m\<rparr>\<rparr>)"
  "k_library (m_platform debug) = (\<lambda>w. w\<lparr>m_now := m_now w + 1000\<rparr>)"
  by (simp_all add: machine_defs)

section \<open>It behaves as documented\<close>

lemma m_view_written [simp]:
  "m_view (m_errno g e w) = (m_view w)\<lparr>v_errno := (v_errno (m_view w))(g := e)\<rparr>"
  "m_view (m_pending n w) = (m_view w)\<lparr>v_pending := insert n (v_pending (m_view w))\<rparr>"
  by (simp_all add: m_errno_def m_pending_def)

lemma m_sigmask_op [simp]:
  "m_sigmask (operation_as_c_int how) new w = ((0, v_mask (m_view w)),
     w\<lparr>m_view := (m_view w)\<lparr>v_mask := mask_after how new (v_mask (m_view w))\<rparr>\<rparr>)"
  by (cases how) (simp_all add: m_sigmask_def Let_def)

lemma m_location: "g \<le> m_group_limit \<Longrightarrow> unat (of_nat g :: usize) = g"
  by (simp add: m_group_limit_def unat_of_nat take_bit_nat_eq_self)

lemma m_docs:
  "group_doc (m_platform debug)" "errno_doc (m_platform debug)" "sigset_doc (m_platform debug)"
  "sigmask_doc (m_platform debug)" "sigaction_doc (m_platform debug)" "kill_doc (m_platform debug)"
  "timer_doc (m_platform debug)" "prctl_doc (m_platform debug)" "kernel_doc (m_platform debug)"
  "context_doc (m_platform debug)"
  by (auto simp: group_doc_def errno_doc_def sigset_doc_def sigmask_doc_def sigaction_doc_def
      kill_doc_def timer_doc_def prctl_doc_def kernel_doc_def context_doc_def swap_doc_def
      masked_def killed_def m_sigaction_def m_location
      split: option.splits if_splits intro!: sets_errno_none)

lemma m_time_is: "time_is (m_platform debug) w (m_now w)"
proof -
  have u: "unat (ucast (m_now w mod 1000000000) :: u32) = unat (m_now w) mod 1000000000"
    by (simp add: unsigned_ucast_eq take_bit_nat_eq_self_iff unat_mod_distrib)
  have "unat (m_now w) div 1000000000 * 1000000000 + unat (m_now w) mod 1000000000 = unat (m_now w)"
    by presburger
  then show ?thesis using u by (simp add: time_is_def unat_div_distrib)
qed

lemma m_clock_doc: "clock_doc (m_platform debug)"
  by (auto simp: clock_doc_def intro: m_time_is)

lemma m_preempt_doc: "preempt_doc (m_platform debug)"
  by (simp add: preempt_doc_def m_docs)

section \<open>A program for it\<close>

text \<open>A preemptible function written out: what it does next, and how long that takes.\<close>

datatype instruction = Compute u64 | Call | Yield | Give nat | Fault

fun m_user :: "(machine, instruction list, nat) user_code" where
  "m_user [] w = (Returns 0, w)"
| "m_user (Compute ns # is) w = (Works is, w\<lparr>m_now := m_now w + ns\<rparr>)"
| "m_user (Call # is) w = (Calls is, w)"
| "m_user (Yield # is) w = (Pauses is, w)"
| "m_user (Give n # is) w = (Returns n, w)"
| "m_user (Fault # is) w = (Panics ''fault'', w)"

lemma m_user_doc: "user_doc (m_platform debug) m_user"
  unfolding user_doc_def
proof (intro allI)
  fix "is" and w
  show "sets_errno (m_platform debug) w (snd (m_user is w))"
    by (induction "is" w rule: m_user.induct) (simp_all add: sets_errno_none)
qed

definition m_start :: machine where
  "m_start = \<lparr>m_view = \<lparr>v_group = 0, v_mask = {}, v_pending = {}, v_fs = 0x100000, v_errno = (\<lambda>_. 0),
     v_handler = (\<lambda>_. None)\<rparr>, m_now = 1000000000, m_groups = 0, m_tls = 0x200000, m_timer = 7,
     m_timers = (\<lambda>_. None), m_mail = [], m_mail_open = False\<rparr>"

definition boot :: "'w \<Rightarrow> ('w, 'f, 'a) process_state" where
  "boot w = \<lparr>world = w, tcb_words = (\<lambda>_ _. 0),
     GROUPS = None, GROUPS_INIT = Once_New, STACKS = None, STACKS_INIT = Once_New,
     SIGNALS = None, SIGNALS_free = 0, SIGNALS_INIT = Once_New,
     LOCALSTORES = None, LOCALSTORES_INIT = Once_New, heap_next = 0,
     ptls = (\<lambda>_. preempt_tls_default), HOOK_INIT = Once_New,
     ltls = (\<lambda>_. linger_tls_default), closures = (\<lambda>_. Empty)\<rparr>"

end
