(* ===== verification/Pool_Guarantees.thy ===== *)
theory Pool_Guarantees
  imports Machine
begin

text \<open>
  What the process-wide pools guarantee to their clients, over the operations of
  \<^verbatim>\<open>src/reusable.rs\<close>, \<^verbatim>\<open>src/signals.rs\<close> and \<^verbatim>\<open>src/stacks.rs\<close>.
\<close>

section \<open>Signals\<close>

lemma signals_holds_iff: "signals.holds vec s \<longleftrightarrow> mutex_ready (the (SIGNALS s)) \<and> mx_value (the (SIGNALS s)) = vec"
  by (simp add: signals.holds_def place_fields)

lemma signals_start:
  assumes "SIGNALS s = Some mutex_default" and "SIGNALS_free s = 0"
  shows "signals.owned (set NOTIFICATION_SIGNALS) [] s"
  using assms by (simp add: signals.owned_def signals_holds_iff mutex_default_def mutex_ready_def signal_stock_def)

lemma signals_free_step:
  assumes "pool_step mutex_ops signals_place signal_builder (held, s) (held', t)"
    and "signals.owned A held s"
  shows "SIGNALS_free t = SIGNALS_free s \<or> SIGNALS_free t = SIGNALS_free s + 1"
proof -
  obtain vec where h: "signals.holds vec s" using assms(2) by (auto simp: signals.owned_def)
  have "SIGNALS_free u \<in> {SIGNALS_free s, SIGNALS_free s + 1}"
    if "try_from mutex_ops signals_place signal_builder s = (r, u)" for r u
    using h that by (cases rule: signals.try_from_cases)
      (auto simp: signals.refill_def place_fields signal_builder_run)
  moreover have "SIGNALS_free u = SIGNALS_free s"
    if "drop_reusable mutex_ops signals_place \<lparr>reusable_value = Some v\<rparr> s = (r, u)" for v r u
    using that signals.drop_reusable_pushes [OF h, of v] by (auto simp: signals.refill_def place_fields)
  ultimately show ?thesis
    using assms(1) by - (erule pool_step.cases, auto)
qed

text \<open>The counter of the builder does not come around in fewer than \<open>2\<^sup>6\<^sup>4 - 1\<close> steps.\<close>

lemma signals_owned_steps:
  assumes "(pool_step mutex_ops signals_place signal_builder ^^ n) ([], s) (held, t)"
    and "SIGNALS s = Some mutex_default" and "SIGNALS_free s = 0" and "n < 2 ^ 64 - 1"
  shows "signals.owned (set NOTIFICATION_SIGNALS) held t \<and> unat (SIGNALS_free t) \<le> n"
  using assms(1,4)
proof (induction n arbitrary: held t)
  case 0
  then show ?case using assms(2,3) by (simp add: signals_start)
next
  case (Suc n)
  then obtain held1 s1 where st: "(pool_step mutex_ops signals_place signal_builder ^^ n) ([], s) (held1, s1)"
      "pool_step mutex_ops signals_place signal_builder (held1, s1) (held, t)"
    by (auto elim!: relcompp.cases)
  with Suc have ih: "signals.owned (set NOTIFICATION_SIGNALS) held1 s1" "unat (SIGNALS_free s1) \<le> n" by simp_all
  have live: "SIGNALS_free s1 \<noteq> - 1"
    using ih(2) Suc.prems(2) by (auto simp: unsigned_minus_1_eq_mask mask_eq_exp_minus_1)
  from signals_free_step [OF st(2) ih(1)] ih(2) have "unat (SIGNALS_free t) \<le> Suc n"
    using unat_Suc_free [OF live] by auto
  with signals.owned_step [OF st(2) live ih(1)] show ?case by simp
qed

text \<open>
  C20.  Preemption signals are never shared.  Start with the empty signal pool and let any
  threads, in any order, take signals from it, be refused one, and give theirs back: as long as
  fewer than \<open>2\<^sup>6\<^sup>4 - 1\<close> such steps have happened, no two threads hold the same signal, every
  signal held is one of the notification signals, and so at most sixteen are held at a time.
\<close>

theorem signals_never_shared:
  assumes "(pool_step mutex_ops signals_place signal_builder ^^ n) ([], s) (held, t)"
    and "SIGNALS s = Some mutex_default" and "SIGNALS_free s = 0" and "n < 2 ^ 64 - 1"
  shows "distinct held \<and> set held \<subseteq> set NOTIFICATION_SIGNALS \<and> length held \<le> 16"
proof -
  have d: "distinct held" "set held \<subseteq> set NOTIFICATION_SIGNALS"
    using signals_owned_steps [OF assms] signals.owned_distinct by blast+
  then have "card (set held) \<le> card (set NOTIFICATION_SIGNALS)" by (intro card_mono) simp_all
  also have "\<dots> \<le> 16"
    using card_length [of NOTIFICATION_SIGNALS] by (simp add: NOTIFICATION_SIGNALS_def)
  finally show ?thesis using d by (simp add: distinct_card)
qed

text \<open>A process that has made the pool of signals and not used it; \<open>n\<close> of them have been made, and \<open>vec\<close> are back.\<close>

definition m_pool :: "usize \<Rightarrow> signal list \<Rightarrow> (machine, nat, nat) process_state" where
  "m_pool n vec = (boot m_start)\<lparr>SIGNALS := Some \<lparr>mx_value = vec, mx_locked = False, mx_poisoned = False\<rparr>, SIGNALS_free := n\<rparr>"

lemmas m_pool_run = m_pool_def try_from_def drop_reusable_def comp_simps inner_of_def holding_def place_fields mutex_fields
  mutex_ready_def signal_builder_run vec_push_def NOTIFICATION_SIGNALS_def boot_def

text \<open>Two threads take a signal, the first gives it back, and a third takes it.\<close>

theorem signals_never_shared_witness:
  "\<exists>held t. (pool_step mutex_ops signals_place signal_builder ^^ 4) ([], m_pool 0 []) (held, t) \<and> held = [Alarm, VirtualAlarm] \<and>
    SIGNALS_free t = 2 \<and> distinct held \<and> set held \<subseteq> set NOTIFICATION_SIGNALS \<and> length held \<le> 16"
proof -
  let ?step = "pool_step mutex_ops signals_place signal_builder"
  have s1: "?step ([], m_pool 0 []) ([Alarm], m_pool 1 [])"
    by (rule pool_step.take_value) (simp add: m_pool_run)
  have s2: "?step ([Alarm], m_pool 1 []) ([VirtualAlarm, Alarm], m_pool 2 [])"
    by (rule pool_step.take_value) (simp add: m_pool_run)
  have s3: "?step ([VirtualAlarm, Alarm], m_pool 2 []) ([VirtualAlarm], m_pool 2 [Alarm])"
    using pool_step.drop_value [of Alarm "[VirtualAlarm, Alarm]" mutex_ops signals_place "m_pool 2 []" "m_pool 2 [Alarm]" signal_builder]
    by (simp add: m_pool_run)
  have s4: "?step ([VirtualAlarm], m_pool 2 [Alarm]) ([Alarm, VirtualAlarm], m_pool 2 [])"
    by (rule pool_step.take_value) (simp add: m_pool_run vec_pop_def)
  have four: "4 = Suc (Suc (Suc (Suc 0)))" by simp
  have run: "(?step ^^ 4) ([], m_pool 0 []) ([Alarm, VirtualAlarm], m_pool 2 [])"
    unfolding four by (rule relpowp_Suc_I [OF relpowp_Suc_I [OF relpowp_Suc_I [OF relpowp_Suc_I [OF relpowp_0_I]]]], fact+)
  have "SIGNALS (m_pool 0 []) = Some mutex_default" "SIGNALS_free (m_pool 0 []) = 0" "SIGNALS_free (m_pool 2 []) = 2"
    by (simp_all add: m_pool_def mutex_default_def)
  with run signals_never_shared [OF run] show ?thesis by auto
qed

section \<open>Libsets\<close>

text \<open>
  A libset given back is the next one assigned.  While the pool of libsets is usable,
  dropping a libset and assigning one again yields that libset, without creating a new one, and
  leaves the pool with the contents it had.
\<close>

theorem group_drop_assign:
  assumes "GROUPS s = Some m" and "mutex_ready m" and "GROUPS_INIT s = Once_Done"
  shows "\<exists>t u. drop_reusable mutex_ops groups_place \<lparr>reusable_value = Some g\<rparr> s = (Val (), t) \<and>
    assign_group G t = (Val (Ok \<lparr>reusable_value = Some g\<rparr>), u) \<and> GROUPS u = GROUPS s \<and> world u = world s"
proof -
  have h: "groups.holds (mx_value m) s"
    using assms by (simp add: groups.holds_def place_fields)
  let ?t = "groups.refill (mx_value m @ [g]) s"
  have t: "groups.holds (mx_value m @ [g]) ?t"
    using h by (intro groups.holds_refill groups.holds_ready)
  have i: "GROUPS_INIT ?t = Once_Done" "GROUPS ?t \<noteq> None" "world ?t = world s"
    using assms by (simp_all add: groups.refill_def place_fields)
  have "assign_group G ?t = (Val (Ok \<lparr>reusable_value = Some g\<rparr>), groups.refill (mx_value m) ?t)"
    using i groups.try_from_top [OF t, of G] by (auto simp: assign_group_def comp_simps call_once_def groups_once_def)
  moreover have "GROUPS (groups.refill (mx_value m) ?t) = GROUPS s" "world (groups.refill (mx_value m) ?t) = world s"
    using assms by (simp_all add: groups.refill_def place_fields mutex_fields mutex_ready_def)
  ultimately show ?thesis using groups.drop_reusable_pushes [OF h, of g] by blast
qed

theorem group_drop_assign_witness:
  "\<exists>t u. drop_reusable mutex_ops groups_place \<lparr>reusable_value = Some 3\<rparr>
      ((boot m_start :: (machine, nat, nat) process_state)\<lparr>GROUPS := Some mutex_default, GROUPS_INIT := Once_Done\<rparr>) = (Val (), t) \<and>
    assign_group (m_gotcha True) t = (Val (Ok \<lparr>reusable_value = Some 3\<rparr>), u) \<and>
    GROUPS u = Some mutex_default \<and> world u = m_start"
  using group_drop_assign [of "(boot m_start :: (machine, nat, nat) process_state)
      \<lparr>GROUPS := Some mutex_default, GROUPS_INIT := Once_Done\<rparr>" mutex_default 3 "m_gotcha True"]
  by (simp add: mutex_default_def mutex_ready_def boot_def)

section \<open>Stacks\<close>

text \<open>The stack at the \<open>a\<close>-th allocation.\<close>

definition stack_at :: "nat \<Rightarrow> stack" where
  "stack_at a = \<lparr>stack_addr = a, stack_len = STACK_SIZE_BYTES\<rparr>"

abbreviation free_pool :: "'v list \<Rightarrow> 'v list mutex" where
  "free_pool vec \<equiv> \<lparr>mx_value = vec, mx_locked = False, mx_poisoned = False\<rparr>"

lemma stack_try_from_built:
  "try_from mutex_ops local_place (elsewhere stack_builder) (free_pool [], s) =
    (Val (Ok \<lparr>reusable_value = Some (stack_at (heap_next s))\<rparr>), (free_pool [], s\<lparr>heap_next := Suc (heap_next s)\<rparr>))"
  by (simp add: try_from_def comp_simps inner_of_def holding_def local_place_def elsewhere_def mutex_fields mutex_ready_def
      stack_builder_def stack_at_def)

lemma stack_prealloc_collect:
  "prealloc_collect mutex_ops local_place (elsewhere stack_builder) swap n (free_pool [], s) =
    (Val (swap @ map (\<lambda>a. Ok \<lparr>reusable_value = Some (stack_at a)\<rparr>) [heap_next s..<heap_next s + n]),
     (free_pool [], s\<lparr>heap_next := heap_next s + n\<rparr>))"
  by (induction n arbitrary: swap s)
    (simp_all add: comp_simps stack_try_from_built upt_conv_Cons del: upt_Suc)

lemma prealloc_consume_pushes:
  "prealloc_consume mutex_ops local_place (map (\<lambda>a. Ok \<lparr>reusable_value = Some (f a)\<rparr>) xs) (free_pool vec, s) =
    (Val (Ok ()), (free_pool (vec @ map f xs), s))"
proof (induction xs arbitrary: vec)
  case (Cons x xs)
  have "drop_reusable mutex_ops local_place \<lparr>reusable_value = Some (f x)\<rparr> (free_pool vec, s) =
      (Val (), (free_pool (vec @ [f x]), s))"
    by (simp add: drop_reusable_def comp_simps inner_of_def holding_def local_place_def mutex_fields mutex_ready_def vec_push_def)
  with Cons show ?case by (simp add: comp_simps)
qed simp

lemma stack_prealloc:
  "prealloc mutex_ops local_place (elsewhere stack_builder) n (mutex_default, s) =
    (Val (Ok ()), (free_pool (map stack_at [heap_next s..<heap_next s + n]), s\<lparr>heap_next := heap_next s + n\<rparr>))"
  by (simp add: prealloc_def comp_simps mutex_default_def stack_prealloc_collect prealloc_consume_pushes)

text \<open>
  C37.  The first stack.  The first allocation of an execution stack makes one stack of two
  mebibytes for each libset there can be, all at different addresses, hands out the last of them
  and keeps the others in the pool, which is from then on initialized.
\<close>

theorem stacks_preallocated:
  assumes "STACKS_INIT s = Once_New" and "0 < group_limit G"
  shows "\<exists>t. alloc_stack G s = (Val \<lparr>reusable_value = Some (stack_at (heap_next s + group_limit G - 1))\<rparr>, t) \<and>
    STACKS t = Some (free_pool (map stack_at [heap_next s..<heap_next s + group_limit G - 1])) \<and>
    STACKS_INIT t = Once_Done \<and> heap_next t = heap_next s + group_limit G"
proof -
  obtain n where n: "group_limit G = Suc n" using assms(2) by (cases "group_limit G") auto
  show ?thesis
    using assms(1)
    by (simp add: alloc_stack_def comp_simps call_once_def stacks_once_def with_local_def stack_prealloc n
        try_from_def inner_of_def place_fields holding_def mutex_fields mutex_ready_def)
qed

theorem stacks_preallocated_witness:
  "\<exists>t. alloc_stack (m_gotcha True) (boot m_start :: (machine, nat, nat) process_state) =
      (Val \<lparr>reusable_value = Some (stack_at 3)\<rparr>, t) \<and>
    STACKS t = Some (free_pool [stack_at 0, stack_at 1, stack_at 2]) \<and>
    STACKS_INIT t = Once_Done \<and> heap_next t = 4"
  using stacks_preallocated [of "boot m_start :: (machine, nat, nat) process_state" "m_gotcha True"]
  by (simp add: boot_def machine_defs m_group_limit_def upt_rec numeral_eq_Suc)

section \<open>Poisoned pools\<close>

text \<open>
  C38.  A failed allocation of a thread-control block is final.  When the pool of blocks is empty
  and the dynamic linker cannot make one, the allocation panics; and because the pool's lock is
  held meanwhile, it is poisoned, so that every later allocation panics too.
\<close>

theorem localstores_poisoned:
  fixes s :: "('w, 's) statics_scheme"
  assumes "LOCALSTORES s = Some (free_pool [])" and "LOCALSTORES_INIT s = Once_Done"
    and "fst (c_dl_allocate_tls G (world s)) = None"
  shows "\<exists>t. alloc_localstore G s = (Fail (Panicked ''libinger: could not allocate thread-control block''), t) \<and>
    (\<forall>u :: ('w, 's) statics_scheme. LOCALSTORES u = LOCALSTORES t \<and> LOCALSTORES_INIT u = Once_Done \<longrightarrow>
      alloc_localstore G u = (Fail (Panicked (''libinger: TCB allocator lock is poisoned: Some('' @ debug_poison_error PoisonError @ '')'')), u))"
proof -
  let ?t = "s\<lparr>world := snd (c_dl_allocate_tls G (world s)), LOCALSTORES :=
    Some \<lparr>mx_value = [], mx_locked = False, mx_poisoned = True\<rparr>\<rparr>"
  have "alloc_localstore G s = (Fail (Panicked ''libinger: could not allocate thread-control block''), ?t)"
    using assms
    by (simp add: alloc_localstore_def comp_simps call_once_def localstores_once_def try_from_def inner_of_def
        place_fields holding_def mutex_fields mutex_ready_def localstore_builder_def tcb_new_def)
  moreover have "alloc_localstore G u = (Fail (Panicked (''libinger: TCB allocator lock is poisoned: Some('' @ debug_poison_error PoisonError @ '')'')), u)"
    if "LOCALSTORES u = LOCALSTORES ?t" "LOCALSTORES_INIT u = Once_Done" for u :: "('w, 's) statics_scheme"
    using that
    by (simp add: alloc_localstore_def comp_simps call_once_def localstores_once_def try_from_def inner_of_def
        place_fields mutex_fields mutex_ready_def debug_option_def)
  ultimately show ?thesis by blast
qed

text \<open>A process on the machine whose dynamic linker has no memory left.\<close>

definition m_no_memory :: "machine gotcha" where
  "m_no_memory = (m_gotcha True)\<lparr>c_dl_allocate_tls := (\<lambda>w. (None, w))\<rparr>"

definition out_of_blocks :: "(machine, nat, nat) process_state" where
  "out_of_blocks = (boot m_start)\<lparr>LOCALSTORES := Some (free_pool []), LOCALSTORES_INIT := Once_Done\<rparr>"

theorem localstores_poisoned_witness:
  "\<exists>t. alloc_localstore m_no_memory out_of_blocks =
      (Fail (Panicked ''libinger: could not allocate thread-control block''), t) \<and>
    (\<forall>u :: (machine, nat, nat) process_state. LOCALSTORES u = LOCALSTORES t \<and> LOCALSTORES_INIT u = Once_Done \<longrightarrow>
      alloc_localstore m_no_memory u = (Fail (Panicked (''libinger: TCB allocator lock is poisoned: Some('' @ debug_poison_error PoisonError @ '')'')), u))"
  by (rule localstores_poisoned) (simp_all add: out_of_blocks_def m_no_memory_def)

end
