(* ===== verification/Threads.thy ===== *)
theory Threads
  imports Resume
begin

text \<open>
  What holds while a preemptible function executes, whatever events happen: the invariant of a
  thread inside a function, and that every event keeps it or brings the thread back to its call
  site, with the function either paused or finished.  No event can fail.
\<close>

section \<open>The invariant\<close>

text \<open>
  A promise about a preemptible function: an invariant of the states it goes through, and a
  condition on its result (its value, or the payload of its panic).  The function keeps the
  promise if each of its steps, taken in any world, does.
\<close>

type_synonym ('f, 'a) promise = "('f \<Rightarrow> bool) \<times> (('a, string) result \<Rightarrow> bool)"

definition user_keeps :: "('w, 'f, 'a) user_code \<Rightarrow> ('f, 'a) promise \<Rightarrow> bool" where
  "user_keeps U J \<longleftrightarrow> (\<forall>f w. fst J f \<longrightarrow> (case fst (U f w) of
      Works f' \<Rightarrow> fst J f' | Calls f' \<Rightarrow> fst J f' | Pauses f' \<Rightarrow> fst J f'
    | Returns v \<Rightarrow> snd J (Ok v) | Panics msg \<Rightarrow> snd J (Err msg)))"

text \<open>The documented behaviour everything below relies on.\<close>

definition run_doc :: "('w, 'f, 'z) platform_scheme \<Rightarrow> ('w, 'f, 'a) user_code \<Rightarrow> ('f, 'a) promise \<Rightarrow> bool" where
  "run_doc E U J \<longleftrightarrow> preempt_doc E \<and> context_doc E \<and> kernel_doc E \<and> clock_doc E \<and> user_doc E U \<and> user_keeps U J"

lemma run_docD:
  assumes "run_doc E U J"
  shows "preempt_doc E" and "context_doc E" and "kernel_doc E" and "clock_doc E" and "user_doc E U"
    and "user_keeps U J"
  using assms by (simp_all add: run_doc_def)

lemma kernel_laws [platform_laws]:
  assumes "kernel_doc E"
  shows "view E (k_expire E n w) = (view E w)\<lparr>v_pending := insert n (v_pending (view E w))\<rparr>"
    and "view E (k_deliver E n w) = (view E w)\<lparr>v_pending := v_pending (view E w) - {n},
        v_mask := insert n (v_mask (view E w))\<rparr>"
    and "view E (k_sigreturn E m w) = (view E w)\<lparr>v_mask := m\<rparr>"
    and "sets_errno E w (k_library E w)"
  using assms by (simp_all add: kernel_doc_def)

fun frame_of :: "'f control \<Rightarrow> frame" where
  "frame_of (Entering fr) = fr"
| "frame_of (Running fr _) = fr"
| "frame_of (In_library fr _) = fr"
| "frame_of (Leaving fr) = fr"

fun in_library :: "'f control \<Rightarrow> bool" where
  "in_library (In_library _ _) = True"
| "in_library _ = False"

text \<open>
  What the closure holds at each point: the function is called once, and then its result is
  kept.  The states the function goes through and its result satisfy the promise.
\<close>

fun closure_ok :: "('f, 'a) promise \<Rightarrow> 'f control \<Rightarrow> ('f, 'a) completion \<Rightarrow> bool" where
  "closure_ok J (Entering _) c \<longleftrightarrow> (\<exists>f. c = Function f \<and> fst J f)"
| "closure_ok J (Leaving _) c \<longleftrightarrow> (\<exists>r. c = Return r \<and> snd J r)"
| "closure_ok J (Running _ f) c \<longleftrightarrow> c = Empty \<and> fst J f"
| "closure_ok J (In_library _ f) c \<longleftrightarrow> c = Empty \<and> fst J f"

text \<open>\<open>loc\<close> is where the libset \<open>g\<close> keeps its \<^verbatim>\<open>errno\<close>.\<close>

definition locates :: "('w, 'z) gotcha_scheme \<Rightarrow> group \<Rightarrow> usize option \<Rightarrow> bool" where
  "locates G g loc \<longleftrightarrow> loc \<noteq> None \<and> (\<exists>w. group_lookup_errno_location G g w = loc)"

text \<open>
  The thread whose block is at \<open>fs\<close> and whose signal is \<open>no\<close> is inside a function.  It executes
  in the function's libset except while in a shared library; its signal is blocked exactly while
  a preemption is deferred, which can only be in a library; \<^verbatim>\<open>TASK\<close> holds the way back.
\<close>

definition in_function :: "('w, 'f, 'z) platform_scheme \<Rightarrow> ('f, 'a) promise \<Rightarrow> signal \<Rightarrow> usize \<Rightarrow> stack reusable deref_adapter \<Rightarrow>
    'f control \<Rightarrow> ('w, 'f mcontext, 'f, 'a, 's) lingering_scheme \<Rightarrow> bool" where
  "in_function E J no fs k c s \<longleftrightarrow>
     fs_of E s = fs \<and> signal_in (ptls s) fs = Some no \<and>
     fr_group (frame_of c) \<noteq> group_SHARED E \<and>
     locates E (fr_group (frame_of c)) (tls_ERRNO_LOCATION (ptls s fs)) \<and>
     v_group (view E (world s)) = (if in_library c then group_SHARED E else fr_group (frame_of c)) \<and>
     (tls_DEFERRED (ptls s fs) \<longrightarrow> in_library c) \<and>
     (signal_as_c_int no \<in> v_mask (view E (world s)) \<longleftrightarrow> tls_DEFERRED (ptls s fs)) \<and>
     tls_BOOTSTRAP (ltls s fs) = None \<and>
     task_errno (tls_TASK (ltls s fs)) = None \<and>
     (\<exists>cp. task_checkpoint (tls_TASK (ltls s fs)) = Some cp \<and> ctx_mcontext cp = Call_site \<and> ctx_stack cp = k) \<and>
     closure_ok J c (closures s (fr_fun (frame_of c)))"

text \<open>What executing a function may change: the world, the variables of its block, its closure.\<close>

definition touches :: "usize \<Rightarrow> nat \<Rightarrow> ('w, 'm, 'f, 'a, 's) lingering_scheme \<Rightarrow>
    ('w, 'm, 'f, 'a, 's) lingering_scheme \<Rightarrow> bool" where
  "touches fs a s t \<longleftrightarrow>
     t\<lparr>world := world s, ptls := ptls s, ltls := ltls s, closures := closures s\<rparr> = s \<and>
     (\<forall>b. b \<noteq> fs \<longrightarrow> ptls t b = ptls s b \<and> ltls t b = ltls s b) \<and>
     (\<forall>b. b \<noteq> a \<longrightarrow> closures t b = closures s b) \<and>
     tls_SIGNALER (ptls t fs) = tls_SIGNALER (ptls s fs)"

lemma touches_trans: "touches fs a s t \<Longrightarrow> touches fs a t u \<Longrightarrow> touches fs a s u"
  by (cases s; cases t; cases u) (simp add: touches_def)

text \<open>
  The thread is back at its call site: in the shared libset, without a preemption signal, and
  with nothing deferred.  The function is paused (its signal blocked, \<^verbatim>\<open>errno\<close> saved, the
  checkpoint where it was interrupted, outside every library) or finished (its result in the
  closure).
\<close>

definition paused_at :: "'f control \<Rightarrow> stack reusable deref_adapter \<Rightarrow> 'f mcontext task \<Rightarrow> bool" where
  "paused_at c k t \<longleftrightarrow> task_errno t \<noteq> None \<and> \<not> in_library c \<and>
     (\<exists>cp. task_checkpoint t = Some cp \<and> ctx_mcontext cp = Interrupted c \<and> ctx_stack cp = k)"

definition came_back :: "('w, 'f, 'z) platform_scheme \<Rightarrow> ('f, 'a) promise \<Rightarrow> signal \<Rightarrow> usize \<Rightarrow> stack reusable deref_adapter \<Rightarrow>
    frame \<Rightarrow> ('w, 'f mcontext, 'f, 'a, 's) lingering_scheme \<Rightarrow> bool" where
  "came_back E J no fs k fr t \<longleftrightarrow>
     fs_of E t = fs \<and> v_group (view E (world t)) = group_SHARED E \<and>
     tls_SIGNAL (ptls t fs) = None \<and> \<not> tls_SIGNAL_torn (ptls t fs) \<and> \<not> tls_DEFERRED (ptls t fs) \<and>
     locates E (fr_group fr) (tls_ERRNO_LOCATION (ptls t fs)) \<and>
     tls_BOOTSTRAP (ltls t fs) = None \<and>
     ((\<exists>c. frame_of c = fr \<and> paused_at c k (tls_TASK (ltls t fs)) \<and> closure_ok J c (closures t (fr_fun fr)) \<and>
         task_yielded (tls_TASK (ltls t fs)) = (tls_DEADLINE (ltls t fs) = 0) \<and>
         signal_as_c_int no \<in> v_mask (view E (world t))) \<or>
      task_errno (tls_TASK (ltls t fs)) = None \<and>
        (\<exists>cp. task_checkpoint (tls_TASK (ltls t fs)) = Some cp \<and> ctx_stack cp = k) \<and>
        (\<exists>r. closures t (fr_fun fr) = Return r \<and> snd J r) \<and>
        signal_as_c_int ` set_option (fr_signal fr) \<subseteq> v_mask (view E (world t)))"

section \<open>Events keep the invariant\<close>

text \<open>What an event may lead to from a state in which the thread is inside a function.\<close>

definition goes_on :: "('w, 'f, 'z) platform_scheme \<Rightarrow> ('f, 'a) promise \<Rightarrow> signal \<Rightarrow> usize \<Rightarrow> stack reusable deref_adapter \<Rightarrow>
    'f control \<Rightarrow> ('w, 'f mcontext, 'f, 'a, 's) lingering_scheme \<Rightarrow>
    'f progress outcome \<times> ('w, 'f mcontext, 'f, 'a, 's) lingering_scheme \<Rightarrow> bool" where
  "goes_on E J no fs k c s o_t \<longleftrightarrow> touches fs (fr_fun (frame_of c)) s (snd o_t) \<and> (case fst o_t of
      Val (At c') \<Rightarrow> frame_of c' = frame_of c \<and> in_function E J no fs k c' (snd o_t)
    | Val Back \<Rightarrow> came_back E J no fs k (frame_of c) (snd o_t)
    | Fail _ \<Rightarrow> False)"

lemma touches_world: "touches fs a s (s\<lparr>world := w\<rparr>)"
  by (simp add: touches_def)

lemma goes_on_world:
  assumes "in_function E J no fs k c s" and "view E w = (view E (world s))\<lparr>v_pending := p, v_errno := e\<rparr>"
  shows "goes_on E J no fs k c s (Val (At c), s\<lparr>world := w\<rparr>)"
  using assms by (auto simp: goes_on_def in_function_def touches_world)

lemma in_function_clock:
  assumes "run_doc E U J"
  obtains now where "time_is E w now"
  using run_docD(4) [OF assms] by (auto simp: clock_doc_def)

lemma return_view: "context_doc E \<Longrightarrow> view E (tt_return E w) = view E w"
  by (simp add: context_doc_def)

lemma in_function_not_torn: "in_function E J no fs k c s \<Longrightarrow> \<not> tls_SIGNAL_torn (tls_at E s)"
  by (auto simp: in_function_def tls_at_def dest: signal_in_Some)

text \<open>What the handler finds: the signal is pending no longer and blocked.\<close>

lemma deliver_run:
  "deliver E no c s = bind (preempt E no (Some \<lparr>uc_mcontext = Interrupted c, uc_sigmask = v_mask (view E (world s))\<rparr>)) (\<lambda>uc.
      andthen (primu (k_sigreturn E (uc_sigmask uc))) (goto (uc_mcontext uc)))
    (s\<lparr>world := k_deliver E (signal_as_c_int no) (world s)\<rparr>)"
  by (simp add: deliver_def comp_simps)

text \<open>The thread's own signal, outside every library: the deadline decides.\<close>

lemma goes_on_deliver_inside:
  assumes doc: "run_doc E U J" and inv: "in_function E J no fs k c s" "\<not> in_library c"
  shows "goes_on E J no fs k c s (deliver E no c s)"
proof -
  note laws = kernel_laws [OF run_docD(3) [OF doc]] preempt_laws [OF run_docD(1) [OF doc]]
  let ?s = "s\<lparr>world := k_deliver E (signal_as_c_int no) (world s)\<rparr>"
  let ?uc = "\<lparr>uc_mcontext = Interrupted c, uc_sigmask = v_mask (view E (world s))\<rparr>"
  have sig: "signal_at E ?s = Some no" and g: "v_group (view E (world ?s)) \<noteq> group_SHARED E"
    and fs: "fs_of E s = fs" "\<not> tls_DEFERRED (ptls s fs)"
    using inv by (auto simp: in_function_def laws)
  obtain cp where cp: "task_checkpoint (tls_TASK (ltls_at E ?s)) = Some cp" "ctx_mcontext cp = Call_site" "ctx_stack cp = k"
    using inv by (auto simp: in_function_def ltls_at_def laws)
  obtain now where now: "time_is E (world ?s) now" using doc by (rule in_function_clock)
  show ?thesis
  proof (cases "tls_DEADLINE (ltls_at E ?s) \<le> now")
    case True
    obtain cp' uc' where sw: "tt_swap E cp ?uc = (cp', uc')" by fastforce
    have d: "ctx_mcontext cp' = Interrupted c" "uc_mcontext uc' = Call_site" "ctx_stack cp' = k"
      using run_docD(2) [OF doc] sw cp
      by (auto simp: context_doc_def swap_doc_def dest!: spec [of _ cp] spec [of _ ?uc])
    show ?thesis
      using preempt_pauses [OF run_docD(1) [OF doc] sig g now True cp(1) sw] inv d fs
      by (auto simp: deliver_run comp_simps goto_def goes_on_def came_back_def paused_at_def in_function_def
          laws touches_def tls_at_def ltls_at_def disabled_world_view [OF run_docD(1) [OF doc]]
          dest: signal_in_Some)
  next
    case False
    then have "now < tls_DEADLINE (ltls_at E ?s)" by simp
    from preempt_spares [OF run_docD(1) [OF doc] sig g now this, where uc = ?uc] show ?thesis
      using inv fs by (auto simp: deliver_run comp_simps goto_def goes_on_def in_function_def laws touches_world)
  qed
qed

lemma goes_on_deliver:
  assumes doc: "run_doc E U J" and inv: "in_function E J no fs k c s"
    and ok: "deliverable E (world s) (signal_as_c_int no')"
  shows "goes_on E J no fs k c s (deliver E no' c s)"
proof -
  note laws = kernel_laws [OF run_docD(3) [OF doc]] preempt_laws [OF run_docD(1) [OF doc]]
  let ?s = "s\<lparr>world := k_deliver E (signal_as_c_int no') (world s)\<rparr>"
  let ?uc = "\<lparr>uc_mcontext = Interrupted c, uc_sigmask = v_mask (view E (world s))\<rparr>"
  have sig: "signal_at E ?s = Some no"
    using inv by (simp add: in_function_def laws)
  consider "no' \<noteq> no" | (library) "no' = no" "in_library c" | (inside) "no' = no" "\<not> in_library c" by blast
  then show ?thesis
  proof cases
    case 1
    then show ?thesis
      using inv preempt_irrelevant [OF run_docD(1) [OF doc], where s = ?s and no = no' and uc = ?uc] sig
      by (auto simp: deliver_run comp_simps goto_def goes_on_def in_function_def laws signal_as_c_int_inj touches_world)
  next
    case library
    have "v_group (view E (world ?s)) = group_SHARED E" "\<not> tls_DEFERRED (ptls s fs)"
      using inv library ok by (auto simp: in_function_def laws deliverable_def)
    with preempt_defers [OF run_docD(1) [OF doc] sig [folded library(1)] this(1), where uc = ?uc] show ?thesis
      using inv library
      by (auto simp: deliver_run comp_simps goto_def goes_on_def in_function_def laws touches_def tls_at_def)
  qed (use goes_on_deliver_inside [OF doc inv] in simp)
qed

text \<open>The hook after a library call: a deferred preemption becomes pending and is let through.\<close>

definition handed_back :: "group \<Rightarrow> kview \<Rightarrow> group \<Rightarrow> c_int" where
  "handed_back g v = (if v_errno v (v_group v) = 0 then v_errno v
     else (v_errno v)(g := v_errno v (v_group v)))"

lemma hooked_world_view:
  assumes "preempt_doc G" and "locates G g (Some f)"
  shows "view G (hooked_world G f raise w) = (view G w)\<lparr>
    v_mask := v_mask (view G w) - signal_as_c_int ` set_option raise,
    v_pending := v_pending (view G w) \<union> signal_as_c_int ` set_option raise,
    v_errno := handed_back g (view G w)\<rparr>"
proof -
  have "view G (errno_location_write G f x w) = (view G w)\<lparr>v_errno := (v_errno (view G w))(g := x)\<rparr>" for x w
    using assms preempt_docD(2) [OF assms(1)] by (auto simp: locates_def errno_doc_def)
  then show ?thesis
    by (cases raise) (simp_all add: hooked_world_def Let_def handed_back_def preempt_laws [OF assms(1)])
qed

definition raised :: "preempt_tls \<Rightarrow> signal \<Rightarrow> sigset_t" where
  "raised p no = (if tls_DEFERRED p then {signal_as_c_int no} else {})"

lemma library_returns_run:
  assumes "preempt_doc E" and "fs_of E s = fs" and "signal_in (ptls s) fs = Some no"
    and "locates E (fr_group fr) (tls_ERRNO_LOCATION (ptls s fs))"
  obtains w e where "library_returns E fr s =
      (Val (), s\<lparr>world := w, ptls := (ptls s)(fs := (ptls s fs)\<lparr>tls_DEFERRED := False\<rparr>)\<rparr>)"
    "view E w = (view E (world s))\<lparr>v_group := fr_group fr,
      v_mask := v_mask (view E (world s)) - raised (ptls s fs) no,
      v_pending := v_pending (view E (world s)) \<union> raised (ptls s fs) no, v_errno := e\<rparr>"
proof -
  obtain f where f: "tls_ERRNO_LOCATION (ptls s fs) = Some f" "locates E (fr_group fr) (Some f)"
    using assms(4) by (cases "tls_ERRNO_LOCATION (ptls s fs)") (simp_all add: locates_def)
  let ?s = "s\<lparr>world := group_thread_set E (fr_group fr) (world s)\<rparr>"
  let ?raise = "if tls_DEFERRED (ptls s fs) then Some no else None"
  have v: "view E (world ?s) = (view E (world s))\<lparr>v_group := fr_group fr\<rparr>"
    by (simp add: preempt_laws [OF assms(1)])
  have r: "library_returns E fr s = (Val (), ?s\<lparr>world := hooked_world E f ?raise (world ?s),
      ptls := (ptls s)(fs := (ptls s fs)\<lparr>tls_DEFERRED := False\<rparr>)\<rparr>)"
  proof (cases "tls_DEFERRED (ptls s fs)")
    case True
    then show ?thesis
      using enable_preemption_deferred [OF assms(1), of ?s f no] f assms(2,3) v
      by (simp add: library_returns_def resume_preemption_def comp_simps tls_at_def)
  next
    case False
    then show ?thesis
      using enable_preemption_idle [of E ?s f] f assms(2,3) v
      by (simp add: library_returns_def resume_preemption_def comp_simps tls_at_def)
  qed
  show ?thesis
    using r v hooked_world_view [OF assms(1) f(2), of ?raise "world ?s"]
    by (intro that [of "hooked_world E f ?raise (world ?s)" "handed_back (fr_group fr) (view E (world ?s))"])
      (simp_all add: raised_def)
qed

lemma pause_run:
  assumes "preempt_doc E" and "signal_at E s = Some no" and "v_group (view E (world s)) = group_SHARED E"
  shows "pause E s = (Val (), s\<lparr>ltls := (ltls s)(fs_of E s := (ltls s (fs_of E s))\<lparr>tls_DEADLINE := 0\<rparr>),
    world := masked E Block {signal_as_c_int no} (world s),
    ptls := (ptls s)(fs_of E s := (ptls s (fs_of E s))\<lparr>tls_DEFERRED := True\<rparr>)\<rparr>)"
  using assms(2,3)
  by (simp add: pause_def defer_preemption_def comp_simps is_preemptible_run [OF preempt_docD(1) [OF assms(1)]]
      thread_signal_Some mask_signal_run [OF assms(1)] preempt_laws [OF assms(1)])

lemma goes_on_library_returns:
  assumes doc: "run_doc E U J" and inv: "in_function E J no fs k (In_library fr f) s"
  shows "goes_on E J no fs k (In_library fr f) s (andthen (library_returns E fr) (ret (At (Running fr f))) s)"
proof -
  obtain w e where r: "library_returns E fr s =
      (Val (), s\<lparr>world := w, ptls := (ptls s)(fs := (ptls s fs)\<lparr>tls_DEFERRED := False\<rparr>)\<rparr>)"
    and v: "view E w = (view E (world s))\<lparr>v_group := fr_group fr,
      v_mask := v_mask (view E (world s)) - raised (ptls s fs) no,
      v_pending := v_pending (view E (world s)) \<union> raised (ptls s fs) no, v_errno := e\<rparr>"
    using inv by (auto simp: in_function_def intro: library_returns_run [OF run_docD(1) [OF doc]])
  show ?thesis
    using inv v by (auto simp: r comp_simps goes_on_def in_function_def touches_def raised_def)
qed

lemma goes_on_closure_call:
  assumes "in_function E J no fs k (Entering fr) s"
  shows "goes_on E J no fs k (Entering fr) s (closure_call fr s)"
  using assms
  by (auto simp: closure_call_def completion_take_def set_closure_def comp_simps goes_on_def
      in_function_def touches_def)

lemma goes_on_exit:
  assumes doc: "run_doc E U J" and inv: "in_function E J no fs k (Leaving fr) s"
  shows "goes_on E J no fs k (Leaving fr) s (thread_event E U Steps (Leaving fr) s)"
  using inv in_function_not_torn [OF inv]
  by (auto simp: return_view [OF run_docD(2) [OF doc]] schedule_exit_def comp_simps disable_preemption_run [OF run_docD(1) [OF doc]]
      disabled_world_view [OF run_docD(1) [OF doc]] goes_on_def came_back_def in_function_def
      touches_def tls_at_def ltls_at_def)

lemma goes_on_pauses:
  assumes doc: "run_doc E U J" and inv: "in_function E J no fs k (Running fr f) s" and new: "fst J f'"
  shows "goes_on E J no fs k (Running fr f) s (andthen (primu (group_thread_set E (group_SHARED E)))
    (andthen (pause E) (andthen (library_returns E fr) (ret (At (Running fr f'))))) s)"
proof -
  note d = run_docD(1) [OF doc]
  let ?s = "s\<lparr>world := group_thread_set E (group_SHARED E) (world s)\<rparr>"
  let ?t = "?s\<lparr>ltls := (ltls s)(fs := (ltls s fs)\<lparr>tls_DEADLINE := 0\<rparr>),
    world := masked E Block {signal_as_c_int no} (world ?s),
    ptls := (ptls s)(fs := (ptls s fs)\<lparr>tls_DEFERRED := True\<rparr>)\<rparr>"
  have p: "pause E ?s = (Val (), ?t)"
    using inv by (subst pause_run [OF d, of _ no]) (auto simp: in_function_def preempt_laws [OF d])
  have t: "fs_of E ?t = fs" "signal_in (ptls ?t) fs = Some no"
    "locates E (fr_group fr) (tls_ERRNO_LOCATION (ptls ?t fs))"
    using inv by (simp_all add: in_function_def preempt_laws [OF d])
  obtain w e where r: "library_returns E fr ?t =
      (Val (), ?t\<lparr>world := w, ptls := (ptls ?t)(fs := (ptls ?t fs)\<lparr>tls_DEFERRED := False\<rparr>)\<rparr>)"
    and v: "view E w = (view E (world ?t))\<lparr>v_group := fr_group fr,
      v_mask := v_mask (view E (world ?t)) - raised (ptls ?t fs) no,
      v_pending := v_pending (view E (world ?t)) \<union> raised (ptls ?t fs) no, v_errno := e\<rparr>"
    using library_returns_run [OF d t] by blast
  show ?thesis
    using inv new v p r by (auto simp: comp_simps goes_on_def in_function_def touches_def raised_def
        preempt_laws [OF d])
qed

lemma goes_on_calls:
  assumes doc: "run_doc E U J" and inv: "in_function E J no fs k (Running fr f) s" and new: "fst J f'"
  shows "goes_on E J no fs k (Running fr f) s
    (andthen (primu (group_thread_set E (group_SHARED E))) (ret (At (In_library fr f'))) s)"
  using inv new
  by (auto simp: comp_simps goes_on_def in_function_def touches_def preempt_laws [OF run_docD(1) [OF doc]])

lemma goes_on_done:
  assumes "in_function E J no fs k (Running fr f) s" and "snd J r"
  shows "goes_on E J no fs k (Running fr f) s (function_done fr r s)"
  using assms by (auto simp: function_done_def set_closure_def comp_simps goes_on_def in_function_def touches_def)

lemma goes_on_after:
  "goes_on E J no fs k c t r \<Longrightarrow> touches fs (fr_fun (frame_of c)) s t \<Longrightarrow> goes_on E J no fs k c s r"
  by (auto simp: goes_on_def intro: touches_trans)

lemma goes_on_user_step:
  assumes doc: "run_doc E U J" and inv: "in_function E J no fs k (Running fr f) s"
  shows "goes_on E J no fs k (Running fr f) s (user_step E U fr f s)"
proof -
  obtain op w where op: "U f (world s) = (op, w)" by fastforce
  let ?s = "s\<lparr>world := w\<rparr>"
  have "fst J f" using inv by (simp add: in_function_def)
  then have J: "case op of Works f' \<Rightarrow> fst J f' | Calls f' \<Rightarrow> fst J f' | Pauses f' \<Rightarrow> fst J f'
      | Returns v \<Rightarrow> snd J (Ok v) | Panics msg \<Rightarrow> snd J (Err msg)"
    using run_docD(6) [OF doc, unfolded user_keeps_def, rule_format, of f "world s"] op by simp
  have "sets_errno E (world s) w"
    using run_docD(5) [OF doc] op unfolding user_doc_def by (metis snd_conv)
  then have inv': "in_function E J no fs k (Running fr f) ?s"
    using inv by (auto simp: in_function_def sets_errno_def)
  have "goes_on E J no fs k (Running fr f) ?s ((case op of
       Works f' \<Rightarrow> ret (At (Running fr f'))
     | Calls f' \<Rightarrow> andthen (primu (group_thread_set E (group_SHARED E))) (ret (At (In_library fr f')))
     | Pauses f' \<Rightarrow> andthen (primu (group_thread_set E (group_SHARED E)))
         (andthen (pause E) (andthen (library_returns E fr) (ret (At (Running fr f')))))
     | Returns v \<Rightarrow> function_done fr (Ok v)
     | Panics msg \<Rightarrow> function_done fr (Err msg)) ?s)"
  proof (cases op)
    case (Works f')
    then show ?thesis using inv' J by (simp add: goes_on_def touches_def in_function_def)
  next
    case (Calls f')
    then show ?thesis using goes_on_calls [OF doc inv'] J by simp
  next
    case (Pauses f')
    then show ?thesis using goes_on_pauses [OF doc inv'] J by simp
  qed (use J in \<open>simp_all add: goes_on_done [OF inv']\<close>)
  then have "goes_on E J no fs k (Running fr f) ?s (user_step E U fr f s)"
    using op by (simp add: user_step_def bind_run prim_run)
  then show ?thesis by (rule goes_on_after) (simp add: touches_world)
qed

theorem thread_event_goes_on:
  assumes doc: "run_doc E U J" and inv: "in_function E J no fs k c s" and "enabled E e c (world s)"
  shows "goes_on E J no fs k c s (thread_event E U e c s)"
proof (cases e)
  case (Expires n)
  then show ?thesis
    using goes_on_world [OF inv, where w = "k_expire E (signal_as_c_int n) (world s)"
        and p = "insert (signal_as_c_int n) (v_pending (view E (world s)))"
        and e = "v_errno (view E (world s))"]
    by (simp add: comp_simps kernel_laws [OF run_docD(3) [OF doc]])
next
  case (Delivers n)
  then show ?thesis using assms(3) by (simp add: goes_on_deliver [OF doc inv])
next
  case Steps
  then show ?thesis
    using inv by (cases c) (simp_all add: goes_on_closure_call goes_on_user_step [OF doc]
        goes_on_library_returns [OF doc] goes_on_exit [OF doc] del: thread_event.simps(6))
next
  case Library
  have "sets_errno E (world s) (k_library E (world s))"
    by (rule kernel_laws [OF run_docD(3) [OF doc]])
  then show ?thesis
    using goes_on_world [OF inv, where w = "k_library E (world s)" and p = "v_pending (view E (world s))"] Library
    by (auto simp: comp_simps sets_errno_def)
qed

section \<open>Executions\<close>

text \<open>
  Whatever the events, an execution of the function brings the thread back, or has used up the
  events; it never fails.
\<close>

theorem execute_comes_back:
  assumes "run_doc E U J" and "in_function E J no fs k c s" and "execute E U es c s = (r, t)"
  shows "touches fs (fr_fun (frame_of c)) s t \<and>
    (r = Fail Unfinished \<or> r = Val () \<and> came_back E J no fs k (frame_of c) t)"
  using assms(2,3)
proof (induction es arbitrary: c s)
  case Nil
  then show ?case by (auto simp: touches_def)
next
  case (Cons e es)
  show ?case
  proof (cases "enabled E e c (world s)")
    case False
    with Cons.prems show ?thesis by (auto simp: touches_def)
  next
    case True
    obtain p u where ev: "thread_event E U e c s = (p, u)" by fastforce
    note g = thread_event_goes_on [OF assms(1) Cons.prems(1) True, unfolded ev goes_on_def fst_conv snd_conv]
    show ?thesis
    proof (cases p)
      case (Fail x)
      with g show ?thesis by simp
    next
      case (Val pr)
      show ?thesis
      proof (cases pr)
        case Back
        with g Val ev True Cons.prems(2) show ?thesis by (auto simp: comp_simps)
      next
        case (At c')
        with g Val have n: "in_function E J no fs k c' u" "frame_of c' = frame_of c"
          "touches fs (fr_fun (frame_of c)) s u" by simp_all
        have "execute E U es c' u = (r, t)"
          using At Val ev True Cons.prems(2) by (simp add: comp_simps)
        from Cons.IH [OF n(1) this] n show ?thesis by (auto intro: touches_trans)
      qed
    qed
  qed
qed

end
