(* ===== verification/Reasoning.thy ===== *)
theory Reasoning
  imports Platform
begin

text \<open>
  Three ways of reasoning about computations, with rules that follow their structure.

  \<open>defined m\<close>: from no state does \<open>m\<close> end in undefined behaviour.  \<open>keeps f m\<close>: whatever \<open>m\<close>
  does, returning or failing, the observation \<open>f\<close> of the state is as before.  \<open>wp m P s\<close>: from
  \<open>s\<close>, \<open>m\<close> does not end in undefined behaviour, and where it returns, \<open>P\<close> holds of the value and
  the state; it may fail otherwise.
\<close>

definition defined :: "('s, 'x) comp \<Rightarrow> bool" where
  "defined m \<longleftrightarrow> (\<forall>s. fst (m s) \<noteq> Fail Undefined)"

definition keeps :: "('s \<Rightarrow> 'o) \<Rightarrow> ('s, 'x) comp \<Rightarrow> bool" where
  "keeps f m \<longleftrightarrow> (\<forall>s. f (snd (m s)) = f s)"

definition wp :: "('s, 'x) comp \<Rightarrow> ('x \<Rightarrow> 's \<Rightarrow> bool) \<Rightarrow> 's \<Rightarrow> bool" where
  "wp m P s \<longleftrightarrow> (case m s of (Val x, t) \<Rightarrow> P x t | (Fail e, t) \<Rightarrow> e \<noteq> Undefined)"

named_theorems defined_rules \<open>computations without undefined behaviour\<close>
named_theorems keeps_rules \<open>what computations leave alone\<close>

section \<open>Definedness\<close>

lemma defined_basic [defined_rules]:
  "defined (ret x)" "defined (gets g)" "defined (modify h)" "defined (asks a)" "defined (primu u)"
  "defined (prim q)" "defined (expect msg y)" "defined (expect_ok msg dbg z)" "defined (debug_assert d b msg)"
  "defined (assert b msg)" "e \<noteq> Undefined \<Longrightarrow> defined (failing e)" "defined (add_checked d i j)"
  "defined (mul_checked d i j)" "defined (sub_checked d i j)"
  by (auto simp: defined_def comp_simps expect_def expect_ok_def debug_assert_def assert_def
      add_checked_def mul_checked_def sub_checked_def split: option.split result.split)

lemma defined_bind [defined_rules]: "defined m \<Longrightarrow> (\<And>x. defined (g x)) \<Longrightarrow> defined (bind m g)"
  unfolding defined_def bind_def by (clarsimp split: prod.split outcome.split) (metis fst_conv)

lemma defined_andthen [defined_rules]: "defined m \<Longrightarrow> defined n \<Longrightarrow> defined (andthen m n)"
  by (simp add: andthen_def defined_bind)

lemma defined_or_return [defined_rules]: "defined m \<Longrightarrow> (\<And>x. defined (g x)) \<Longrightarrow> defined (or_return m g)"
  unfolding or_return_def by (rule defined_bind) (auto split: result.split intro: defined_rules)

lemma defined_on_panic [defined_rules]: "defined m \<Longrightarrow> defined d \<Longrightarrow> defined (on_panic m d)"
  unfolding defined_def on_panic_def
  by (clarsimp split: prod.split outcome.split failure.split) (metis fst_conv)

lemma defined_with_cleanup [defined_rules]: "defined m \<Longrightarrow> defined d \<Longrightarrow> defined (with_cleanup m d)"
  unfolding with_cleanup_def by (intro defined_rules)

lemma defined_only_if [defined_rules]: "defined m \<Longrightarrow> defined (only_if b m)"
  by (simp add: only_if_def defined_rules)

lemma defined_cases [defined_rules]:
  "(b \<Longrightarrow> defined m) \<Longrightarrow> (\<not> b \<Longrightarrow> defined n) \<Longrightarrow> defined (if b then m else n)"
  "(o' = None \<Longrightarrow> defined p) \<Longrightarrow> (\<And>x. o' = Some x \<Longrightarrow> defined (q x)) \<Longrightarrow>
     defined (case o' of None \<Rightarrow> p | Some x \<Rightarrow> q x)"
  "(\<And>x. r = Ok x \<Longrightarrow> defined (u x)) \<Longrightarrow> (\<And>e. r = Err e \<Longrightarrow> defined (v e)) \<Longrightarrow>
     defined (case r of Ok x \<Rightarrow> u x | Err e \<Rightarrow> v e)"
  "(\<And>x y. z = (x, y) \<Longrightarrow> defined (w x y)) \<Longrightarrow> defined (case z of (x, y) \<Rightarrow> w x y)"
  by (auto split: option.split result.split prod.split)

lemma defined_elsewhere [defined_rules]: "defined m \<Longrightarrow> defined (elsewhere m)"
  by (auto simp: defined_def elsewhere_def)

lemma defined_with_local [defined_rules]: "defined m \<Longrightarrow> defined (with_local c m)"
  unfolding defined_def with_local_def by (clarsimp split: prod.split outcome.split) (metis fst_conv)

section \<open>What is left alone\<close>

lemma keeps_basic [keeps_rules]:
  "keeps f (ret x)" "keeps f (gets g)" "keeps f (failing e)" "keeps f (expect msg y)"
  "keeps f (expect_ok msg dbg z)" "keeps f (debug_assert d b msg)" "keeps f (assert b msg)"
  "keeps f (add_checked d i j)" "keeps f (mul_checked d i j)" "keeps f (sub_checked d i j)"
  by (auto simp: keeps_def comp_simps expect_def expect_ok_def debug_assert_def assert_def
      add_checked_def mul_checked_def sub_checked_def split: option.split result.split)

lemma keeps_asks [keeps_rules]: "keeps f (asks a)"
  by (simp add: keeps_def comp_simps)

lemma keeps_modify: "(\<And>s. f (h s) = f s) \<Longrightarrow> keeps f (modify h)"
  by (simp add: keeps_def)

lemma keeps_prim:
  "(\<And>s. f (s\<lparr>world := snd (q (world s))\<rparr>) = f s) \<Longrightarrow> keeps f (prim q)"
  "(\<And>s. f (s\<lparr>world := u (world s)\<rparr>) = f s) \<Longrightarrow> keeps f (primu u)"
  by (simp_all add: keeps_def comp_simps)

lemma keeps_bind [keeps_rules]: "keeps f m \<Longrightarrow> (\<And>x. keeps f (g x)) \<Longrightarrow> keeps f (bind m g)"
  by (simp add: keeps_def bind_def split: prod.split outcome.split) (metis snd_conv)

lemma keeps_andthen [keeps_rules]: "keeps f m \<Longrightarrow> keeps f n \<Longrightarrow> keeps f (andthen m n)"
  by (simp add: andthen_def keeps_bind)

lemma keeps_or_return [keeps_rules]: "keeps f m \<Longrightarrow> (\<And>x. keeps f (g x)) \<Longrightarrow> keeps f (or_return m g)"
  unfolding or_return_def by (rule keeps_bind) (auto split: result.split intro: keeps_rules)

lemma keeps_on_panic [keeps_rules]:
  assumes "keeps f m" and "keeps f d"
  shows "keeps f (on_panic m d)"
proof -
  have "f (snd (on_panic m d s)) = f s" for s
  proof -
    obtain r t where m: "m s = (r, t)" by fastforce
    obtain q u where d: "d t = (q, u)" by fastforce
    have "f t = f s" "f u = f t"
      using assms m d unfolding keeps_def by (metis snd_conv)+
    with m d show ?thesis by (simp add: on_panic_def split: outcome.split failure.split)
  qed
  then show ?thesis by (simp add: keeps_def)
qed

lemma keeps_with_cleanup [keeps_rules]: "keeps f m \<Longrightarrow> keeps f d \<Longrightarrow> keeps f (with_cleanup m d)"
  unfolding with_cleanup_def by (intro keeps_rules)

lemma keeps_only_if [keeps_rules]: "keeps f m \<Longrightarrow> keeps f (only_if b m)"
  by (simp add: only_if_def keeps_rules)

lemma keeps_cases [keeps_rules]:
  "(b \<Longrightarrow> keeps f m) \<Longrightarrow> (\<not> b \<Longrightarrow> keeps f n) \<Longrightarrow> keeps f (if b then m else n)"
  "(o' = None \<Longrightarrow> keeps f p) \<Longrightarrow> (\<And>x. o' = Some x \<Longrightarrow> keeps f (q x)) \<Longrightarrow>
     keeps f (case o' of None \<Rightarrow> p | Some x \<Rightarrow> q x)"
  "(\<And>x. r = Ok x \<Longrightarrow> keeps f (u x)) \<Longrightarrow> (\<And>e. r = Err e \<Longrightarrow> keeps f (v e)) \<Longrightarrow>
     keeps f (case r of Ok x \<Rightarrow> u x | Err e \<Rightarrow> v e)"
  "(\<And>x y. z = (x, y) \<Longrightarrow> keeps f (w x y)) \<Longrightarrow> keeps f (case z of (x, y) \<Rightarrow> w x y)"
  by (auto split: option.split result.split prod.split)

lemma keeps_elsewhere [keeps_rules]: "keeps f m \<Longrightarrow> keeps (\<lambda>(_, s). f s) (elsewhere m)"
  by (auto simp: keeps_def elsewhere_def)

lemma keeps_beside: "keeps (\<lambda>(c, _). f c) (elsewhere m)"
  by (auto simp: keeps_def elsewhere_def split: prod.split)

lemma keeps_with_local [keeps_rules]: "keeps (\<lambda>(_, s). f s) m \<Longrightarrow> keeps f (with_local c m)"
  by (auto simp: keeps_def with_local_def split: prod.split outcome.split) (metis snd_conv case_prod_conv)+

lemma keepsD: "keeps f m \<Longrightarrow> m s = (r, t) \<Longrightarrow> f t = f s"
  by (metis keeps_def snd_conv)

section \<open>Weakest preconditions\<close>

lemma wp_mono: "wp m P s \<Longrightarrow> (\<And>x t. P x t \<Longrightarrow> Q x t) \<Longrightarrow> wp m Q s"
  by (auto simp: wp_def split: prod.split outcome.split)

lemma wp_simps [simp]:
  "wp (ret x) P s \<longleftrightarrow> P x s"
  "wp (gets g) P s \<longleftrightarrow> P (g s) s"
  "wp (failing e) P s \<longleftrightarrow> e \<noteq> Undefined"
  "wp (bind m f) P s \<longleftrightarrow> wp m (\<lambda>x. wp (f x) P) s"
  "wp (andthen m n) P s \<longleftrightarrow> wp m (\<lambda>_. wp n P) s"
  by (auto simp: wp_def comp_simps split: prod.split outcome.split)

lemma wp_ret [simp]: "wp (ret x) P = P x"
  by (rule ext) simp

lemma wp_Pair [simp]: "wp (Pair (Val x)) P = P x" "wp (Pair (Fail e)) P = (\<lambda>_. e \<noteq> Undefined)"
  by (auto simp: wp_def fun_eq_iff)

lemma wp_modify [simp]: "wp (modify h) P s \<longleftrightarrow> P () (h s)"
  by (simp add: wp_def)

lemma wp_or_return [simp]:
  "wp (or_return m f) P s \<longleftrightarrow> wp m (\<lambda>r. case r of Ok x \<Rightarrow> wp (f x) P | Err e \<Rightarrow> P (Err e)) s"
  unfolding or_return_def wp_simps(4)
  by (rule arg_cong [where f = "\<lambda>Q. wp m Q s"]) (auto simp: fun_eq_iff split: result.split)

lemma wp_prim [simp]:
  "wp (asks a) P s \<longleftrightarrow> P (a (world s)) s"
  "wp (prim q) P s \<longleftrightarrow> P (fst (q (world s))) (s\<lparr>world := snd (q (world s))\<rparr>)"
  by (simp_all add: wp_def comp_simps)

lemma wp_primu [simp]: "wp (primu u) P s \<longleftrightarrow> P () (s\<lparr>world := u (world s)\<rparr>)"
  by (simp add: wp_def comp_simps)

lemma wp_elsewhere [simp]: "wp (elsewhere m) P (c, s) \<longleftrightarrow> wp m (\<lambda>x t. P x (c, t)) s"
  by (auto simp: wp_def elsewhere_def split: prod.split outcome.split)

lemma wp_defined: "defined m \<Longrightarrow> (\<And>x t. m s = (Val x, t) \<Longrightarrow> P x t) \<Longrightarrow> wp m P s"
  by (auto simp: wp_def defined_def split: prod.split outcome.split) (metis fst_conv)

lemma wp_on_panic: "wp m P s \<Longrightarrow> defined d \<Longrightarrow> wp (on_panic m d) P s"
  unfolding wp_def defined_def on_panic_def
  by (clarsimp split: prod.split_asm prod.split outcome.split_asm outcome.split failure.split) (metis fst_conv)

lemma wp_Val: "wp m P s \<Longrightarrow> m s = (Val x, t) \<Longrightarrow> P x t"
  by (simp add: wp_def)

lemma wp_Fail: "wp m P s \<Longrightarrow> m s = (Fail e, t) \<Longrightarrow> e \<noteq> Undefined"
  by (simp add: wp_def)

end
