(* ===== verification/Frames.thy ===== *)
theory Frames
  imports Resume Reasoning
begin

text \<open>
  What each operation leaves alone, and that none of them has undefined behaviour: the frame
  conditions from which the contract of \<^verbatim>\<open>resume\<close> is put together.
\<close>

section \<open>Pools\<close>

lemma defined_inner_of [defined_rules]: "defined (inner_of mutex_ops pl)"
  by (auto simp: defined_def inner_of_def mutex_ops_def mutex_try_into_inner_def split: prod.split)

lemma defined_holding [defined_rules]: "defined m \<Longrightarrow> defined (holding sm pl vec m)"
  unfolding defined_def holding_def
  by (clarsimp split: prod.split outcome.split failure.split) (metis fst_conv)

lemma defined_deref [defined_rules]: "defined (deref r)" "defined (deref_mut f r)"
  unfolding deref_def deref_mut_def by (intro defined_rules)+

lemma defined_try_from [defined_rules]: "defined b \<Longrightarrow> defined (try_from mutex_ops pl b)"
  unfolding try_from_def by (intro defined_rules)

lemma defined_drop_reusable [defined_rules]: "defined (drop_reusable mutex_ops pl r)"
  unfolding drop_reusable_def by (intro defined_rules)

lemma defined_drop_results [defined_rules]: "defined (drop_results mutex_ops pl rs)"
proof (induction rs)
  case (Cons r rs)
  then show ?case by (cases r) (auto intro!: defined_rules)
qed (simp only: drop_results.simps defined_rules)

lemma defined_prealloc [defined_rules]: "defined b \<Longrightarrow> defined (prealloc mutex_ops pl b n)"
proof -
  assume b: "defined b"
  have "defined (prealloc_collect mutex_ops pl b swap n)" for swap
    by (induction n arbitrary: swap) (auto intro!: defined_rules b)
  moreover have "defined (prealloc_consume mutex_ops pl rs)" for rs
  proof (induction rs)
    case (Cons r rs)
    then show ?case by (cases r) (auto intro!: defined_rules)
  qed (simp only: prealloc_consume.simps defined_rules)
  ultimately show ?thesis unfolding prealloc_def by (intro defined_rules)
qed

lemma defined_call_once [defined_rules]: "defined m \<Longrightarrow> defined (call_once pl m)"
  unfolding defined_def call_once_def
  by (clarsimp split: prod.split outcome.split failure.split once.split) (metis fst_conv)

text \<open>An observation that does not look at the pool is kept by the pool's operations.\<close>

definition ignores :: "('s \<Rightarrow> 'o) \<Rightarrow> ('s, 'c) place \<Rightarrow> bool" where
  "ignores f pl \<longleftrightarrow> (\<forall>c s. f (place_put pl c s) = f s)"

lemma keeps_inner_of [keeps_rules]: "ignores f pl \<Longrightarrow> keeps f (inner_of sm pl)"
  by (simp add: keeps_def ignores_def inner_of_def split: prod.split)

lemma keeps_holding [keeps_rules]: "ignores f pl \<Longrightarrow> keeps f m \<Longrightarrow> keeps f (holding sm pl vec m)"
  by (simp add: keeps_def ignores_def holding_def split_beta split: outcome.split failure.split)

lemma keeps_deref [keeps_rules]: "keeps f (deref r)"
  unfolding deref_def by (intro keeps_rules)

lemma keeps_deref_mut [keeps_rules]: "keeps f (deref_mut g r)"
  unfolding deref_mut_def by (intro keeps_rules)

lemma keeps_try_from [keeps_rules]: "ignores f pl \<Longrightarrow> keeps f b \<Longrightarrow> keeps f (try_from sm pl b)"
  unfolding try_from_def by (intro keeps_rules)

lemma keeps_drop_reusable [keeps_rules]: "ignores f pl \<Longrightarrow> keeps f (drop_reusable sm pl r)"
  unfolding drop_reusable_def by (intro keeps_rules)

lemma keeps_drop_results [keeps_rules]: "ignores f pl \<Longrightarrow> keeps f (drop_results sm pl rs)"
  by (induction sm pl rs rule: drop_results.induct) (auto intro!: keeps_rules)

lemma keeps_prealloc [keeps_rules]:
  assumes "ignores f pl" and "keeps f b"
  shows "keeps f (prealloc sm pl b n)"
proof -
  have "keeps f (prealloc_collect sm pl b swap n)" for swap
    using assms by (induction n arbitrary: swap) (auto intro!: keeps_rules)
  moreover have "keeps f (prealloc_consume sm pl rs)" for rs
    using assms(1) by (induction sm pl rs rule: prealloc_consume.induct) (auto intro!: keeps_rules)
  ultimately show ?thesis unfolding prealloc_def by (intro keeps_rules)
qed

lemma keeps_call_once [keeps_rules]: "ignores f pl \<Longrightarrow> keeps f m \<Longrightarrow> keeps f (call_once pl m)"
  by (simp add: keeps_def ignores_def call_once_def split_beta split: outcome.split failure.split once.split)

lemma ignores_local [keeps_rules]: "ignores (\<lambda>(_, s). f s) local_place"
  by (auto simp: ignores_def local_place_def)

lemma ignores_statics [keeps_rules]:
  "ignores statics.more groups_place" "ignores statics.more stacks_place"
  "ignores statics.more signals_place" "ignores statics.more localstores_place"
  "ignores statics.more groups_once" "ignores statics.more stacks_once"
  "ignores statics.more signals_once" "ignores statics.more localstores_once"
  by (simp_all add: ignores_def place_defs groups_once_def stacks_once_def signals_once_def
      localstores_once_def)

lemma ignores_world [keeps_rules]:
  "ignores (\<lambda>s. g (world s)) groups_place" "ignores (\<lambda>s. g (world s)) stacks_place"
  "ignores (\<lambda>s. g (world s)) signals_place" "ignores (\<lambda>s. g (world s)) localstores_place"
  "ignores (\<lambda>s. g (world s)) groups_once" "ignores (\<lambda>s. g (world s)) stacks_once"
  "ignores (\<lambda>s. g (world s)) signals_once" "ignores (\<lambda>s. g (world s)) localstores_once"
  by (simp_all add: ignores_def place_defs groups_once_def stacks_once_def signals_once_def
      localstores_once_def)

section \<open>System calls and thread-control blocks\<close>

lemmas syscall_defs = sigaction_def pthread_sigmask_def pthread_kill_def pthread_self_def
  timer_create_def timer_settime_def timer_delete_def mask_signal_def
  arch_prctl_get_def arch_prctl_set_def Let_def

lemma defined_syscalls [defined_rules]:
  "defined (sigaction L sig new)" "defined (pthread_sigmask L how m)" "defined (pthread_kill G th sig)"
  "defined (pthread_self L)" "defined (timer_create L ck ev)" "defined (timer_settime L ti ab it)"
  "defined (timer_delete L ti)" "defined (mask_signal L how sig)"
  "defined (arch_prctl_get L gop)" "defined (arch_prctl_set G sop val)"
  unfolding syscall_defs by (intro defined_rules)+

lemma keeps_syscalls:
  assumes "\<And>s w. f (s\<lparr>world := w\<rparr>) = f s"
  shows "keeps f (sigaction L sig new)" "keeps f (pthread_sigmask L how m)" "keeps f (pthread_kill G th sig)"
    "keeps f (pthread_self L)" "keeps f (timer_create L ck ev)" "keeps f (timer_settime L ti ab it)"
    "keeps f (timer_delete L ti)" "keeps f (mask_signal L how sig)"
    "keeps f (arch_prctl_get L gop)" "keeps f (arch_prctl_set G sop val)"
  unfolding syscall_defs by (intro keeps_rules keeps_prim assms)+

lemma defined_write_word [defined_rules]: "defined (write_word a i v)"
  unfolding write_word_def by (intro defined_rules)

lemma defined_tcb [defined_rules]:
  "defined (tcb_current L)" "defined (tcb_new L)" "defined (install_ctype G g)"
  unfolding tcb_current_def tcb_new_def install_ctype_def by (intro defined_rules; simp)+

lemma defined_install_unguarded [defined_rules]: "defined (install_unguarded G grp b)"
  unfolding install_unguarded_def
  by (intro defined_rules) (auto split: maybe_mut.split intro!: defined_rules)

lemma defined_drop_tcb_guard [defined_rules]: "defined (drop_tcb_guard G gd)"
  unfolding drop_tcb_guard_def Let_def by (intro defined_rules)

lemma defined_drop_tcb [defined_rules]: "defined (drop_tcb G b)"
  unfolding drop_tcb_def unguarded_parent_def
  by (auto split: option.split maybe_mut.split intro!: defined_rules)

lemma defined_install [defined_rules]: "defined (install G b g)" "defined (uninstall G gd)"
  unfolding install_def uninstall_def unguarded_parent_def by (intro defined_rules)+

lemma keeps_tcb [keeps_rules]:
  "keeps tcbs.more (tcb_current L)" "keeps tcbs.more (tcb_new L)" "keeps tcbs.more (install_ctype G g)"
  "keeps tcbs.more (install_unguarded G g b)"
proof -
  show *: "keeps tcbs.more (tcb_current L)" and "keeps tcbs.more (tcb_new L)"
    and "keeps tcbs.more (install_ctype G g)" for L :: "('w, 'z) libc_scheme" and G g
    unfolding tcb_current_def tcb_new_def install_ctype_def write_word_def
    by (intro keeps_rules keeps_prim keeps_modify keeps_syscalls; simp)+
  then show "keeps tcbs.more (install_unguarded G g b)" for G :: "('w, 'z) gotcha_scheme" and g b
    unfolding install_unguarded_def write_word_def
    by (intro keeps_rules)
      (auto split: maybe_mut.split intro!: keeps_rules keeps_prim keeps_modify keeps_syscalls)
qed

lemma keeps_drop_tcb_guard [keeps_rules]: "keeps tcbs.more (drop_tcb_guard G gd)"
  unfolding drop_tcb_guard_def Let_def by (intro keeps_rules keeps_prim; simp)

lemma keeps_drop_tcb [keeps_rules]: "keeps tcbs.more (drop_tcb G b)"
  unfolding drop_tcb_def unguarded_parent_def
  by (auto split: option.split maybe_mut.split intro!: keeps_rules)

lemma keeps_install [keeps_rules]: "keeps tcbs.more (install G b g)" "keeps tcbs.more (uninstall G gd)"
  unfolding install_def uninstall_def unguarded_parent_def by (intro keeps_rules)+

section \<open>The process-wide pools\<close>

lemma defined_builders [defined_rules]:
  "defined (group_builder G)" "defined stack_builder" "defined signal_builder" "defined (localstore_builder L)"
  unfolding builder_defs by (intro defined_rules)+

lemma defined_pools [defined_rules]:
  "defined (assign_group G)" "defined (alloc_stack G)" "defined assign_signal" "defined (alloc_localstore G)"
  unfolding assign_group_def alloc_stack_def assign_signal_def alloc_localstore_def
  by (intro defined_rules)+

lemma keeps_pools [keeps_rules]:
  "keeps statics.more (alloc_stack G)" "keeps statics.more assign_signal"
  unfolding alloc_stack_def assign_signal_def stack_builder_def signal_builder_def
  by (intro keeps_rules keeps_modify; simp)+

lemma keeps_pools_world [keeps_rules]:
  "keeps (\<lambda>s. g (world s)) (alloc_stack G)" "keeps (\<lambda>s. g (world s)) assign_signal"
  unfolding alloc_stack_def assign_signal_def stack_builder_def signal_builder_def
  by (intro keeps_rules keeps_modify; simp)+

lemma defined_stacks [defined_rules]:
  "defined (drop_stack k)" "defined (drop_checkpoint c)" "defined (setup_stack E)"
proof -
  show *: "defined (drop_stack k)" for k
    unfolding drop_stack_def by (intro defined_rules)
  then show "defined (drop_checkpoint c)" and "defined (setup_stack E)"
    unfolding drop_checkpoint_def setup_stack_def by (intro defined_rules *)+
qed

lemma keeps_drop_stack [keeps_rules]:
  "keeps statics.more (drop_stack k)" 
  unfolding drop_stack_def by (intro keeps_rules)

lemma keeps_drop_stack_world [keeps_rules]: "keeps (\<lambda>s. g (world s)) (drop_stack k)"
  unfolding drop_stack_def by (intro keeps_rules)

lemma keeps_drop_checkpoint [keeps_rules]: "keeps statics.more (drop_checkpoint c)"
  unfolding drop_checkpoint_def by (intro keeps_rules)

lemma keeps_drop_checkpoint_world [keeps_rules]: "keeps (\<lambda>s. g (world s)) (drop_checkpoint c)"
  unfolding drop_checkpoint_def by (intro keeps_rules)

lemma keeps_setup_stack [keeps_rules]: "keeps statics.more (setup_stack E)"
  unfolding setup_stack_def by (intro keeps_rules keeps_prim) simp

lemma context_laws [platform_laws]:
  assumes "context_doc E"
  shows "view E (snd (tt_makecontext E k w)) = view E w"
    and "fst (tt_makecontext E k w) = Ok cp \<Longrightarrow> ctx_mcontext cp = Entry \<and> ctx_stack cp = k"
    and "view E (snd (tt_restorecontext E c w)) = view E w"
    and "fst (tt_restorecontext E c w) = Ok cp \<Longrightarrow> ctx_mcontext cp = ctx_mcontext c \<and> ctx_stack cp = ctx_stack c"
    and "fst (tt_sigsetcontext E c w) = Ok (m, cp) \<Longrightarrow> m = ctx_mcontext c \<and> ctx_mcontext cp = Call_site \<and>
      ctx_stack cp = ctx_stack c \<and> view E (snd (tt_sigsetcontext E c w)) = (view E w)\<lparr>v_mask := ctx_mask c\<rparr>"
  using assms
  unfolding context_doc_def by (auto simp: split_beta split: result.splits dest!: spec [of _ k] spec [of _ w])

lemma keeps_setup_stack_view [keeps_rules]:
  "context_doc E \<Longrightarrow> keeps (\<lambda>s. view E (world s)) (setup_stack E)"
  unfolding setup_stack_def
  by (intro keeps_rules keeps_prim keeps_pools_world [where g = "view E"]
      keeps_drop_stack_world [where g = "view E"]) (simp add: context_laws)

text \<open>A stack that was set up leads into \<^verbatim>\<open>schedule\<close>.\<close>

lemma setup_stack_Ok:
  assumes "context_doc E" and "setup_stack E s = (Val (Ok cp), t)"
  shows "\<exists>c. cp = Some c \<and> ctx_mcontext c = Entry"
proof -
  obtain k u where "alloc_stack E s = (Val k, u)"
    using assms(2) by (auto simp: setup_stack_def comp_simps split: prod.splits outcome.splits)
  with assms show ?thesis
    by (auto simp: setup_stack_def comp_simps split: result.splits prod.splits outcome.splits
        dest: context_laws(2))
qed

section \<open>Setting up a thread\<close>

text \<open>The part of the view that signal and timer calls do not change.\<close>

definition place_of :: "('w, 'z) libc_scheme \<Rightarrow> 'w \<Rightarrow> group \<times> usize \<times> sigset_t" where
  "place_of L w = (v_group (view L w), v_fs (view L w), v_pending (view L w))"

definition setup_doc :: "('w, 'z) gotcha_scheme \<Rightarrow> bool" where
  "setup_doc G \<longleftrightarrow> preempt_doc G \<and> sigaction_doc G \<and> timer_doc G \<and> prctl_doc G"

lemma setup_docD:
  assumes "setup_doc G"
  shows "preempt_doc G" and "sigaction_doc G" and "timer_doc G" and "prctl_doc G"
  using assms by (simp_all add: setup_doc_def)

lemma keeps_place [keeps_rules]:
  assumes "setup_doc G"
  shows "keeps (\<lambda>s. place_of G (world s)) (sigaction G sig act)"
    and "keeps (\<lambda>s. place_of G (world s)) (mask_signal G how sig)"
    and "keeps (\<lambda>s. place_of G (world s)) (timer_create G ck ev)"
    and "keeps (\<lambda>s. place_of G (world s)) (timer_settime G ti ab it)"
    and "keeps (\<lambda>s. place_of G (world s)) (timer_delete G ti)"
proof -
  show "keeps (\<lambda>s. place_of G (world s)) (sigaction G sig act)"
    unfolding keeps_def
    apply (rule allI)
    subgoal for s
      using setup_docD(2) [OF assms]
      by (cases rule: sigaction_cases [where sig = sig and new = act and s = s])
        (auto simp: place_of_def split: option.splits)
    done
  show "keeps (\<lambda>s. place_of G (world s)) (mask_signal G how sig)"
    by (simp add: keeps_def mask_signal_run [OF setup_docD(1) [OF assms]] place_of_def
        preempt_laws [OF setup_docD(1) [OF assms]])
  show "keeps (\<lambda>s. place_of G (world s)) (timer_create G ck ev)"
    and "keeps (\<lambda>s. place_of G (world s)) (timer_settime G ti ab it)"
    and "keeps (\<lambda>s. place_of G (world s)) (timer_delete G ti)"
    unfolding timer_create_def timer_settime_def timer_delete_def Let_def
    by (intro keeps_rules keeps_prim; simp add: place_of_def timer_laws [OF setup_docD(3) [OF assms]])+
qed

lemma i64_mul_checked_frame [defined_rules, keeps_rules]:
  "defined (i64_mul_checked d a b)" "keeps f (i64_mul_checked d a b)"
  unfolding i64_mul_checked_def by (auto intro!: defined_rules keeps_rules)

lemma defined_preemption_signal_new [defined_rules]: "defined (preemption_signal_new G h q)"
  unfolding preemption_signal_new_def preemption_signal_arm_def Let_def by (intro defined_rules)

lemma keeps_preemption_signal_new [keeps_rules]: "keeps statics.more (preemption_signal_new G h q)"
  unfolding preemption_signal_new_def preemption_signal_arm_def Let_def
  by (intro keeps_rules keeps_syscalls; simp)

lemma keeps_preemption_signal_new_place [keeps_rules]:
  "setup_doc G \<Longrightarrow> keeps (\<lambda>s. place_of G (world s)) (preemption_signal_new G h q)"
  unfolding preemption_signal_new_def preemption_signal_arm_def Let_def
  by (intro keeps_rules)

text \<open>The pool of stacks, which a thread's set-up does not need.\<close>

definition stack_view :: "('w, 's) statics_scheme \<Rightarrow> stack list mutex option \<times> once \<times> nat" where
  "stack_view s = (STACKS s, STACKS_INIT s, heap_next s)"

lemma ignores_stack_view [keeps_rules]: "ignores stack_view signals_place" "ignores stack_view signals_once"
  by (simp_all add: ignores_def place_defs signals_once_def stack_view_def)

lemma keeps_preemption_signal_new_stacks [keeps_rules]: "keeps stack_view (preemption_signal_new G h q)"
  unfolding preemption_signal_new_def preemption_signal_arm_def assign_signal_def signal_builder_def Let_def
  by (intro keeps_rules keeps_syscalls keeps_modify; simp add: stack_view_def)

lemma preemption_signal_arm_Ok:
  assumes "preemption_signal_arm G h q sig s = (Val (Ok ps), t)"
  shows "ps_signal ps = sig" and "\<exists>no. reusable_value sig = Some no"
  using assms
  by (auto simp: preemption_signal_arm_def Let_def comp_simps deref_def i64_mul_checked_def expect_def
      split: prod.splits outcome.splits result.splits if_splits option.splits)

lemma preemption_signal_new_Ok:
  assumes "preemption_signal_new G h q s = (Val (Ok ps), t)"
  obtains no where "reusable_value (ps_signal ps) = Some no"
  using assms
  by (auto simp: preemption_signal_new_def comp_simps expect_ok_def on_panic_def
      split: prod.splits outcome.splits result.splits failure.splits
      dest: preemption_signal_arm_Ok)

text \<open>
  After \<^verbatim>\<open>thread_setup\<close> on the block at \<open>a\<close>, that block's thread has a preemption signal, the one
  the real thread's own block keeps.
\<close>

lemma hook_once_wp:
  assumes "preempt_doc G"
  shows "wp (call_once hook_once (primu (gotcha_shared_hook G))) (\<lambda>_ t. ptls t = ptls u \<and>
    preemption.more t = preemption.more u \<and> place_of G (world t) = place_of G (world u) \<and> stack_view t = stack_view u) u"
  by (cases "HOOK_INIT u")
    (simp_all add: wp_def call_once_def hook_once_def comp_simps place_of_def stack_view_def preempt_laws [OF assms])

lemma statics_more:
  assumes "statics.more t = statics.more s"
  shows "ptls t = ptls s" and "preemption.more t = preemption.more s"
  using assms by (cases s; cases t; simp)+

lemma keeps_statics_more:
  assumes "keeps statics.more m"
  shows "keeps ptls m" and "keeps preemption.more m"
  using assms unfolding keeps_def by (blast intro: statics_more)+

lemma lingering_more:
  assumes "preemption.more t = preemption.more s"
  shows "ltls t = ltls s" and "closures t = closures s"
  using assms by (cases s; cases t; simp)+

lemma tcbs_more:
  assumes "tcbs.more t = tcbs.more s"
  shows "statics.more t = statics.more s" and "STACKS t = STACKS s" and "stack_view t = stack_view s"
  using assms by (cases s; cases t; simp add: stack_view_def)+

lemma preemption_signal_new_wp:
  assumes "setup_doc G"
  shows "wp (preemption_signal_new G h q) (\<lambda>r t. (\<forall>ps. r = Ok ps \<longrightarrow> (\<exists>no. reusable_value (ps_signal ps) = Some no)) \<and>
    ptls t = ptls s \<and> preemption.more t = preemption.more s \<and> place_of G (world t) = place_of G (world s) \<and>
    stack_view t = stack_view s) s"
  by (intro wp_defined defined_rules)
    (auto elim: preemption_signal_new_Ok
      dest: keepsD [OF keeps_statics_more(1) [OF keeps_preemption_signal_new]]
        keepsD [OF keeps_statics_more(2) [OF keeps_preemption_signal_new]]
        keepsD [OF keeps_preemption_signal_new_place [OF assms]] keepsD [OF keeps_preemption_signal_new_stacks])

lemma thread_setup_wp:
  assumes "setup_doc G" and "fs_of G s = a" and "a \<noteq> me" and "signalers_wf (ptls s)"
  shows "wp (thread_setup G me h q) (\<lambda>r t. r = Ok () \<longrightarrow>
    (\<exists>ps no. reusable_value (ps_signal ps) = Some no \<and>
      ptls t = (ptls s)(me := (ptls s me)\<lparr>tls_SIGNALER := Some ps\<rparr>, a := (ptls s a)\<lparr>tls_SIGNAL := Some me\<rparr>)) \<and>
    preemption.more t = preemption.more s \<and> place_of G (world t) = place_of G (world s) \<and> stack_view t = stack_view s) s"
    (is "wp _ ?post s")
proof (cases "tls_SIGNALER (ptls s me)")
  case (Some ps)
  then obtain no where no: "reusable_value (ps_signal ps) = Some no"
    using assms(4) by (auto simp: signalers_wf_def)
  have "(ptls s)(me := (ptls s me)\<lparr>tls_SIGNALER := Some ps\<rparr>, a := x) = (ptls s)(a := x)" for x
    using Some by (auto simp: fun_eq_iff)
  then show ?thesis
    using Some no assms(2)
    by (auto simp: thread_setup_def tls_at_def set_tls_def set_tls_of_def stack_view_def
        intro!: wp_mono [OF hook_once_wp [OF setup_docD(1) [OF assms(1)]]] exI [of _ ps])
next
  case None
  show ?thesis
    using None assms(2,3)
    by (auto simp: thread_setup_def tls_at_def set_tls_def set_tls_of_def place_of_def stack_view_def
        split: result.split
        intro!: wp_mono [OF preemption_signal_new_wp [OF assms(1)]]
          wp_mono [OF hook_once_wp [OF setup_docD(1) [OF assms(1)]]]) blast
qed

end
