(* ===== verification/Stacks.thy ===== *)
theory Stacks
  imports Frames
begin

text \<open>
  Who owns which execution stack.  A stack is in the pool, in the checkpoint of a function, or still
  to be made; \<open>moved\<close> says that a piece of code has passed its stacks on without losing or doubling one.
\<close>

section \<open>The stacks that are held\<close>

definition wrapped :: "stack reusable deref_adapter \<Rightarrow> stack list" where
  "wrapped k = (case reusable_value (adapted k) of None \<Rightarrow> [] | Some x \<Rightarrow> [x])"

definition checkpoint_stacks :: "'m context_t option \<Rightarrow> stack list" where
  "checkpoint_stacks c = (case c of None \<Rightarrow> [] | Some cp \<Rightarrow> wrapped (ctx_stack cp))"

abbreviation task_stacks :: "'m task \<Rightarrow> stack list" where
  "task_stacks t \<equiv> checkpoint_stacks (task_checkpoint t)"

lemma checkpoint_stacks_simps [simp]:
  "checkpoint_stacks None = []" "checkpoint_stacks (Some cp) = wrapped (ctx_stack cp)"
  by (simp_all add: checkpoint_stacks_def)

lemma wrapped_adapter [simp]: "wrapped (adapter_from \<lparr>reusable_value = Some k\<rparr>) = [k]"
  by (simp add: wrapped_def adapter_from_def)

text \<open>The pool of stacks has not been used, or no stack in it, held, or to come has two owners.\<close>

definition stacks_ok :: "stack list \<Rightarrow> ('w, 's) statics_scheme \<Rightarrow> bool" where
  "stacks_ok held s \<longleftrightarrow> (STACKS_INIT s = Once_New \<and> held = []) \<or>
     (STACKS_INIT s = Once_Done \<and> stacks.owned UNIV held s)"

lemma stacks_ok_distinct: "stacks_ok held s \<Longrightarrow> distinct held"
  by (auto simp: stacks_ok_def dest!: stacks.owned_distinct)

lemma stacks_ok_perm:
  assumes "mset held' = mset held"
  shows "stacks_ok held' s = stacks_ok held s"
proof -
  have "stacks.owned UNIV held' s = stacks.owned UNIV held s" by (rule stacks.owned_perm) (rule assms)
  moreover have "held' = [] \<longleftrightarrow> held = []" using assms by (metis mset_zero_iff)
  ultimately show ?thesis by (simp add: stacks_ok_def)
qed

lemma stacks_ok_later:
  "STACKS t = STACKS s \<Longrightarrow> STACKS_INIT t = STACKS_INIT s \<Longrightarrow> heap_next s \<le> heap_next t \<Longrightarrow> stacks_ok held s \<Longrightarrow> stacks_ok held t"
  by (fastforce simp: stacks_ok_def stacks.owned_def stacks.holds_def place_fields stack_stock_def)

section \<open>Passing stacks on\<close>

definition moved :: "stack list \<Rightarrow> ('w, 's) statics_scheme \<Rightarrow> stack list \<Rightarrow> ('w, 's) statics_scheme \<Rightarrow> bool" where
  "moved xs s ys t \<longleftrightarrow> (\<forall>held. stacks_ok (xs @ held) s \<longrightarrow> stacks_ok (ys @ held) t)"

lemma movedD: "moved xs s ys t \<Longrightarrow> stacks_ok (xs @ held) s \<Longrightarrow> stacks_ok (ys @ held) t"
  by (simp add: moved_def)

lemma moved_trans: "moved xs s ys t \<Longrightarrow> moved ys t zs u \<Longrightarrow> moved xs s zs u"
  by (simp add: moved_def)

lemma moved_later:
  "STACKS t = STACKS s \<Longrightarrow> STACKS_INIT t = STACKS_INIT s \<Longrightarrow> heap_next s \<le> heap_next t \<Longrightarrow> moved xs s xs t"
  by (auto simp: moved_def intro: stacks_ok_later)

lemma moved_stay: "stack_view t = stack_view s \<Longrightarrow> moved xs s xs t"
  by (rule moved_later) (simp_all add: stack_view_def)

lemma moved_start: "moved xs s1 ys t \<Longrightarrow> stack_view s1 = stack_view s \<Longrightarrow> moved xs s ys t"
  by (rule moved_trans [OF moved_stay])

lemma moved_end: "moved xs s ys t \<Longrightarrow> stack_view u = stack_view t \<Longrightarrow> moved xs s ys u"
  by (rule moved_trans [OF _ moved_stay])

text \<open>What is held besides can be held anywhere.\<close>

lemma moved_beside:
  assumes "moved xs s ys t"
  shows "moved (zs @ xs) s (zs @ ys) t"
  unfolding moved_def
proof (intro allI impI)
  fix held assume "stacks_ok ((zs @ xs) @ held) s"
  then have "stacks_ok (xs @ (zs @ held)) s" by (rule stacks_ok_perm [THEN iffD1, rotated]) simp
  from movedD [OF assms this] show "stacks_ok ((zs @ ys) @ held) t"
    by (rule stacks_ok_perm [THEN iffD1, rotated]) simp
qed

text \<open>One stack is taken and then another given back.\<close>

lemma moved_exchange:
  assumes "moved [] s ys t" and "moved xs t [] u" and "stack_view v = stack_view u"
  shows "moved xs s ys v"
proof -
  have "moved xs s (xs @ ys) t" using moved_beside [OF assms(1), of xs] by simp
  moreover have "moved (xs @ ys) t ys v"
    unfolding moved_def using movedD [OF moved_end [OF assms(2,3)]] by simp
  ultimately show ?thesis by (rule moved_trans)
qed

section \<open>Allocating and dropping\<close>

lemma stacks_init_kept:
  "keeps STACKS_INIT (try_from mutex_ops stacks_place stack_builder)" "keeps STACKS_INIT (drop_reusable mutex_ops stacks_place r)"
  unfolding stack_builder_def
  by (intro keeps_rules keeps_modify; simp add: ignores_def place_fields)+

lemma drop_stack_moved:
  assumes "drop_stack k s = (Val (), t)"
  shows "moved (wrapped k) s [] t"
proof -
  obtain x where x: "adapted k = \<lparr>reusable_value = Some x\<rparr>" "drop_reusable mutex_ops stacks_place \<lparr>reusable_value = Some x\<rparr> s = (Val (), t)"
    using assms by (cases k; cases "adapted k"; cases "reusable_value (adapted k)")
      (auto simp: drop_stack_def drop_reusable_def comp_simps)
  then have w: "wrapped k = [x]" by (simp add: wrapped_def)
  have "STACKS_INIT t = STACKS_INIT s" using keepsD [OF stacks_init_kept(2) x(2)] .
  moreover have "stacks.owned UNIV held t" if "stacks.owned UNIV (x # held) s" for held
    using stacks.owned_drop [OF that _ x(2)] by simp
  ultimately show ?thesis by (auto simp: moved_def w stacks_ok_def)
qed

lemma drop_checkpoint_moved:
  assumes "drop_checkpoint c s = (Val (), t)"
  shows "moved (checkpoint_stacks c) s [] t"
  using assms by (cases c) (auto simp: drop_checkpoint_def intro: drop_stack_moved moved_later)

text \<open>The pool of stacks while its initializer still fills it.\<close>

interpretation first_stacks: fresh_pool mutex_ops mutex_ready mx_value local_place "elsewhere stack_builder"
    "\<lambda>(_, s). stack_stock s" "\<lambda>_. True"
proof unfold_locales
  fix c and s :: "stack list mutex \<times> ('w, 's) statics_scheme"
  show "(case place_put local_place c s of (_, s) \<Rightarrow> stack_stock s) = (case s of (_, s) \<Rightarrow> stack_stock s)"
    by (simp add: local_place_def split_beta)
qed (auto simp: elsewhere_def stack_builder_def comp_simps stack_stock_def)

lemma first_stacks_owned:
  "fresh_pool.owned mutex_ready mx_value local_place (\<lambda>(_, s). stack_stock s) A held (m, s) =
    stacks.owned A held (s\<lparr>STACKS := Some m, STACKS_INIT := Once_Done\<rparr>)"
  unfolding first_stacks.owned_def stacks.owned_def local.holds_def stacks.holds_def
  by (simp add: place_fields local_place_def stack_stock_def)

lemma stacks_once_owned:
  assumes "STACKS_INIT s = Once_New"
    and "call_once stacks_once
       (bind (with_local mutex_default (prealloc mutex_ops local_place (elsewhere stack_builder) n))
         (\<lambda>(r, stacks). andthen (expect_ok msg dbg r) (modify (\<lambda>s. s\<lparr>STACKS := Some stacks\<rparr>)))) s = (Val (), t)"
  shows "STACKS_INIT t = Once_Done \<and> stacks.owned UNIV [] t"
proof -
  obtain r m u where p: "prealloc mutex_ops local_place (elsewhere stack_builder) n (mutex_default, s) = (Val r, (m, u))"
    and t: "t = u\<lparr>STACKS := Some m, STACKS_INIT := Once_Done\<rparr>"
    using assms
    by (cases "prealloc mutex_ops local_place (elsewhere stack_builder) n (mutex_default, s)")
      (auto simp: call_once_def stacks_once_def comp_simps with_local_def expect_ok_def
        split: prod.splits outcome.splits failure.splits result.splits)
  have "stacks.owned UNIV [] (s\<lparr>STACKS := Some mutex_default, STACKS_INIT := Once_Done\<rparr>)"
    by (simp add: stacks.owned_def stacks.holds_def place_fields mutex_default_def mutex_ready_def)
  from first_stacks.owned_prealloc [OF _ this [folded first_stacks_owned] p]
  show ?thesis using t by (simp add: first_stacks_owned)
qed

lemma alloc_stack_moved:
  assumes "alloc_stack G s = (Val r, t)"
  shows "\<exists>k. r = \<lparr>reusable_value = Some k\<rparr> \<and> moved [] s [k] t"
proof -
  from assms obtain u where c: "call_once stacks_once
       (bind (with_local mutex_default (prealloc mutex_ops local_place (elsewhere stack_builder) (group_limit G)))
         (\<lambda>(r, stacks). andthen (expect_ok ''libinger: stack allocator lock was poisoned during init'' (debug_option debug_poison_error) r)
           (modify (\<lambda>s. s\<lparr>STACKS := Some stacks\<rparr>)))) s = (Val (), u)"
    and t: "try_from mutex_ops stacks_place stack_builder u = (Val (Ok r), t)"
    by (auto simp: alloc_stack_def Val_iffs bind_Val_iff)
  obtain k where k: "r = \<lparr>reusable_value = Some k\<rparr>" using stacks.try_from_holds_value [OF t] by blast
  have "stacks_ok (k # held) t" if ok: "stacks_ok held s" for held
  proof -
    have "STACKS_INIT u = Once_Done \<and> stacks.owned UNIV held u"
    proof (cases "STACKS_INIT s = Once_New")
      case True
      with stacks_once_owned [OF True c] ok show ?thesis by (auto simp: stacks_ok_def)
    next
      case False
      with ok c show ?thesis by (auto simp: stacks_ok_def call_once_def stacks_once_def)
    qed
    with stacks.owned_take [OF _ _ t, of UNIV held] keepsD [OF stacks_init_kept(1) t] k show ?thesis
      by (simp add: stacks_ok_def)
  qed
  with k show ?thesis by (simp add: moved_def)
qed

text \<open>Setting a stack up for a function: the context it makes holds a stack that was free.\<close>

lemma setup_stack_moved:
  assumes "context_doc E" and "setup_stack E s = (Val (Ok cp), t)"
  shows "moved [] s (checkpoint_stacks cp) t"
proof -
  obtain r u where a: "alloc_stack E s = (Val r, u)"
    using assms(2) by (auto simp: setup_stack_def bind_Val_iff)
  let ?c = "tt_makecontext E (adapter_from r) (world u)"
  obtain goto where m: "fst ?c = Ok goto" and cp: "cp = Some goto" and t: "t = u\<lparr>world := snd ?c\<rparr>"
    using assms(2) a by (cases "fst ?c") (auto simp: setup_stack_def bind_run prim_run Val_iffs)
  obtain k where k: "r = \<lparr>reusable_value = Some k\<rparr>" "moved [] s [k] u" using alloc_stack_moved [OF a] by blast
  have "ctx_stack goto = adapter_from r" using context_laws(2) [OF assms(1) m] by simp
  moreover have "moved [k] u [k] t" unfolding t by (rule moved_stay) (simp add: stack_view_def)
  ultimately show ?thesis using k cp moved_trans by fastforce
qed

end
