(* ===== verification/Contract.thy ===== *)
theory Contract
  imports Threads Stacks
begin

text \<open>
  The contract of \<^verbatim>\<open>resume\<close>: from a well-formed continuation, whatever the function does and
  whatever happens meanwhile, nothing undefined occurs, and where \<^verbatim>\<open>resume\<close> returns, the thread
  is as it was before and the continuation is well-formed again, finished, or gone.
\<close>

section \<open>Entering through schedule\<close>

lemma wp_run: "m s = (Val x, t) \<Longrightarrow> wp m P s = P x t"
  by (simp add: wp_def)

lemma wp_set_ltls [simp]:
  "wp (set_ltls L f) P s = P () (s\<lparr>ltls := (ltls s)(fs_of L s := f (ltls s (fs_of L s)))\<rparr>)"
  by (rule wp_run) (rule set_ltls_run)

lemma defined_linger [defined_rules]:
  "defined (nsnow L)" "defined (set_ltls L f)" "defined (set_closure b c)" "err \<noteq> Undefined \<Longrightarrow> defined (failing err)"
  "defined (abort msg)"
  unfolding nsnow_def set_ltls_def set_closure_def abort_def by (intro defined_rules; simp)+

lemma defined_stamp [defined_rules]: "defined (stamp L)"
  unfolding stamp_def by (intro defined_rules)

lemma nsnow_keeps: "nsnow L s = (r, t) \<Longrightarrow> t = s"
  by (auto simp: nsnow_def comp_simps expect_def mul_checked_def add_checked_def
      split: option.splits if_splits)

lemma stamp_wp:
  assumes "fs_of L s = a" and "\<And>d. P () (s\<lparr>ltls := (ltls s)(a := (ltls s a)\<lparr>tls_DEADLINE := d\<rparr>)\<rparr>)"
  shows "wp (stamp L) P s"
  using assms
  by (intro wp_defined defined_rules)
    (auto simp: stamp_def comp_simps add_checked_def split: option.splits prod.splits outcome.splits if_splits
      dest!: nsnow_keeps)

lemma schedule_wp:
  assumes doc: "preempt_doc E" and fs: "fs_of E s = a" and sig: "signal_in (ptls s) a = Some no"
    and nd: "\<not> tls_DEFERRED (ptls s a)" and g: "g \<noteq> group_SHARED E"
    and loc: "\<And>w. group_lookup_errno_location E g w \<noteq> None"
    and boot: "tls_BOOTSTRAP (ltls s a) = Some (fun, g)"
    and task: "task_errno (tls_TASK (ltls s a)) = None" "task_checkpoint (tls_TASK (ltls s a)) = Some cp"
      "ctx_mcontext cp = Call_site" "ctx_stack cp = k"
    and clo: "closures s fun = Function f" "fst J f"
  shows "wp (schedule E) (\<lambda>p t. let fr = \<lparr>fr_fun = fun, fr_group = g, fr_signal = Some no\<rparr> in
    p = At (Entering fr) \<and> in_function E J no a k (Entering fr) t \<and> touches a fun s t) s"
proof -
  note [simp] = fs boot
  let ?s = "\<lambda>d. s\<lparr>ltls := (ltls s)(a := (ltls s a)\<lparr>tls_BOOTSTRAP := None, tls_DEADLINE := d\<rparr>)\<rparr>"
  obtain l where l: "group_lookup_errno_location E g (world s) = Some l" using loc by blast
  have e: "wp (enable_preemption E (Some g)) P (?s d) = P (Ok (Some no))
      ((?s d)\<lparr>world := entered_world E g False no (world s),
        ptls := (ptls s)(a := (ptls s a)\<lparr>tls_ERRNO_LOCATION := Some l, tls_DEFERRED := False\<rparr>)\<rparr>)" for d P
    using enable_preemption_group [OF doc, of g "?s d" l no] l sig nd by (intro wp_run) (simp add: tls_at_def)
  have "locates E g (Some l)" using l by (auto simp: locates_def)
  then have i: "in_function E J no a k (Entering \<lparr>fr_fun = fun, fr_group = g, fr_signal = Some no\<rparr>)
      ((?s d)\<lparr>world := entered_world E g False no (world s),
        ptls := (ptls s)(a := (ptls s a)\<lparr>tls_ERRNO_LOCATION := Some l, tls_DEFERRED := False\<rparr>)\<rparr>)" for d
    using sig g task clo by (simp add: in_function_def entered_world_view [OF doc])
  show ?thesis
    using i by (auto simp: schedule_def ltls_at_def e touches_def Let_def intro!: stamp_wp)
qed

lemma wp_no_unwind: "wp m P s \<Longrightarrow> wp (no_unwind m) P s"
  by (auto simp: wp_def no_unwind_def split: prod.splits outcome.splits failure.splits)

lemma execute_wp:
  assumes "run_doc E U J" and "in_function E J no fs k c s"
  shows "wp (execute E U es c) (\<lambda>_ t. came_back E J no fs k (frame_of c) t \<and> touches fs (fr_fun (frame_of c)) s t) s"
  using execute_comes_back [OF assms] by (auto simp: wp_def split: prod.split outcome.split)

section \<open>Switching stacks\<close>

text \<open>The thread is back from the function \<open>fun\<close> of the libset \<open>g\<close> and its stack \<open>k\<close>, and little else has changed.\<close>

definition back_from :: "('w, 'f, 'z) platform_scheme \<Rightarrow> ('f, 'a) promise \<Rightarrow> signal \<Rightarrow> usize \<Rightarrow>
    stack reusable deref_adapter \<Rightarrow> nat \<Rightarrow> group \<Rightarrow>
    ('w, 'f mcontext, 'f, 'a, 's) lingering_scheme \<Rightarrow> ('w, 'f mcontext, 'f, 'a, 's) lingering_scheme \<Rightarrow> bool" where
  "back_from E J no a k fun g s t \<longleftrightarrow> touches a fun s t \<and>
     (\<exists>fr. fr_fun fr = fun \<and> fr_group fr = g \<and> came_back E J no a k fr t)"

lemma back_from_after: "touches a fun s t \<Longrightarrow> back_from E J no a k fun g t u \<Longrightarrow> back_from E J no a k fun g s u"
  by (auto simp: back_from_def intro: touches_trans)

lemma back_from_world: "back_from E J no a k fun g (s\<lparr>world := w\<rparr>) t \<Longrightarrow> back_from E J no a k fun g s t"
  by (rule back_from_after [OF touches_world])

lemma transfer_Entry_wp:
  assumes doc: "run_doc E U J" and fs: "fs_of E s = a" and sig: "signal_in (ptls s) a = Some no"
    and nd: "\<not> tls_DEFERRED (ptls s a)" and g: "g \<noteq> group_SHARED E"
    and loc: "\<And>w. group_lookup_errno_location E g w \<noteq> None"
    and boot: "tls_BOOTSTRAP (ltls s a) = Some (fun, g)"
    and task: "task_errno (tls_TASK (ltls s a)) = None" "task_checkpoint (tls_TASK (ltls s a)) = Some cp"
      "ctx_mcontext cp = Call_site"
    and clo: "closures s fun = Function f" "fst J f"
  shows "wp (transfer E U es Entry) (\<lambda>_. back_from E J no a (ctx_stack cp) fun g s) s"
proof -
  let ?fr = "\<lparr>fr_fun = fun, fr_group = g, fr_signal = Some no\<rparr>"
  have "wp (execute E U es (Entering ?fr)) (\<lambda>_. back_from E J no a (ctx_stack cp) fun g s) t"
    if "in_function E J no a (ctx_stack cp) (Entering ?fr) t" "touches a fun s t" for t
    using that
    by (intro wp_mono [OF execute_wp [OF doc that(1)]]) (force simp: back_from_def intro: touches_trans)
  then show ?thesis
    unfolding transfer_def
    by (auto simp: Let_def intro!: wp_no_unwind
        wp_mono [OF schedule_wp [OF run_docD(1) [OF doc] fs sig nd g loc boot task refl clo]])
qed

lemma transfer_Interrupted_wp:
  assumes "run_doc E U J" and "in_function E J no a k c s"
  shows "wp (transfer E U es (Interrupted c))
    (\<lambda>_. back_from E J no a k (fr_fun (frame_of c)) (fr_group (frame_of c)) s) s"
  unfolding transfer_def mcontext.case back_from_def
  by (rule wp_no_unwind, rule wp_mono [OF execute_wp [OF assms]]) blast

lemma world_before_ltls: "s\<lparr>ltls := l, world := w\<rparr> = s\<lparr>world := w, ltls := l\<rparr>"
  by (cases s) simp

lemma deadline_before_task: "(l :: 'm linger_tls)\<lparr>tls_DEADLINE := d, tls_TASK := t\<rparr> = l\<lparr>tls_TASK := t, tls_DEADLINE := d\<rparr>"
  by (cases l) simp

text \<open>The jump itself: what has to hold where it lands.\<close>

lemma switch_stack_jump_wp:
  assumes "context_doc E" and "fs_of E s = a" and "task_checkpoint (tls_TASK (ltls s a)) = Some here"
    and "\<And>target cp w. target = ctx_mcontext here \<Longrightarrow> ctx_mcontext cp = Call_site \<Longrightarrow> ctx_stack cp = ctx_stack here \<Longrightarrow>
      view E w = (view E (world s))\<lparr>v_mask := ctx_mask here\<rparr> \<Longrightarrow>
      wp (transfer E U es target) (\<lambda>_. P error) (s\<lparr>world := w, ltls := (ltls s)(a := (ltls s a)\<lparr>tls_TASK :=
        (tls_TASK (ltls s a))\<lparr>task_checkpoint := Some cp\<rparr>\<rparr>)\<rparr>)"
    and "\<And>e t. P (Some e) t"
  shows "wp (switch_stack_jump E U es error) P s"
proof -
  obtain r w where ss: "tt_sigsetcontext E here (world s) = (r, w)" by fastforce
  show ?thesis
  proof (cases r)
    case (Err e)
    then show ?thesis
      using assms(2,3,5) ss by (auto simp: switch_stack_jump_def ltls_at_def expect_def split: option.split)
  next
    case (Ok x)
    then obtain target cp where x: "r = Ok (target, cp)" by (cases x) simp
    have l: "target = ctx_mcontext here" "ctx_mcontext cp = Call_site" "ctx_stack cp = ctx_stack here"
        "view E w = (view E (world s))\<lparr>v_mask := ctx_mask here\<rparr>"
      using context_laws(5) [OF assms(1), of here "world s" target cp] ss x by simp_all
    with assms(2,3) ss x assms(4) [OF l] show ?thesis
      by (auto simp: switch_stack_jump_def ltls_at_def)
  qed
qed

text \<open>The first jump into a function.\<close>

lemma switch_stack_scope_first:
  assumes doc: "run_doc E U J" and fs: "fs_of E s = a" and sig: "signal_in (ptls s) a = Some no"
    and nd: "\<not> tls_DEFERRED (ptls s a)" and g: "g \<noteq> group_SHARED E"
    and loc: "\<And>w. group_lookup_errno_location E g w \<noteq> None"
    and boot: "tls_BOOTSTRAP (ltls s a) = Some (fun, g)"
    and task: "tls_TASK (ltls s a) = task_default"
    and clo: "closures s fun = Function f" "fst J f" and here: "ctx_mcontext here = Entry"
  shows "wp (switch_stack_scope E U es None g here) (\<lambda>error t. error = None \<longrightarrow> back_from E J no a (ctx_stack here) fun g s t) s"
proof -
  let ?at = "\<lambda>w cp. s\<lparr>world := w, ltls := (ltls s)(a := (ltls s a)\<lparr>tls_TASK := task_default\<lparr>task_checkpoint := Some cp\<rparr>\<rparr>)\<rparr>"
  have t: "wp (transfer E U es Entry) (\<lambda>_. back_from E J no a (ctx_stack here) fun g s) (?at w cp)"
    if l: "ctx_mcontext cp = Call_site" "ctx_stack cp = ctx_stack here" "view E w = (view E (world s))\<lparr>v_mask := ctx_mask here\<rparr>" for cp w
  proof -
    have "wp (transfer E U es Entry) (\<lambda>_. back_from E J no a (ctx_stack here) fun g (?at w cp)) (?at w cp)"
      using l fs sig nd g boot clo
      by (intro transfer_Entry_wp [OF doc, where cp = cp and f = f, unfolded l(2)] loc) (simp_all add: task_default_def)
    then show ?thesis
      using l by (auto elim!: wp_mono intro: back_from_after [rotated] simp: touches_def)
  qed
  have "wp (switch_stack_jump E U es None) (\<lambda>error t. error = None \<longrightarrow> back_from E J no a (ctx_stack here) fun g s t)
      (?at (world s) here)"
    using fs here t
    by (intro switch_stack_jump_wp [OF run_docD(2) [OF doc], where a = a and here = here])
      (auto simp: world_before_ltls)
  then show ?thesis
    using fs task by (simp add: switch_stack_scope_def ltls_at_def task_default_def)
qed

text \<open>Preparing to jump back into a paused function: its libset and \<^verbatim>\<open>errno\<close>, its signal not in the mask.\<close>

definition prepared_world :: "('w, 'z) gotcha_scheme \<Rightarrow> signal \<Rightarrow> group \<Rightarrow> c_int \<Rightarrow> 'w \<Rightarrow> 'w" where
  "prepared_world G no g erryes w =
     tt_set_errno G erryes (group_thread_set G g (masked G Block {signal_as_c_int no} w))"

lemma prepared_world_view:
  assumes "preempt_doc G"
  shows "view G (prepared_world G no g erryes w) = (view G w)\<lparr>v_group := g,
    v_mask := insert (signal_as_c_int no) (v_mask (view G w)),
    v_errno := (v_errno (view G w))(g := erryes)\<rparr>"
  by (simp add: prepared_world_def preempt_laws [OF assms])

lemma switch_stack_prepare_wp:
  assumes "preempt_doc E" and "fs_of E s = a" and "signal_in (ptls s) a = Some no"
    and "\<And>d. P None (s\<lparr>world := prepared_world E no g erryes (world s),
      ltls := (ltls s)(a := (ltls s a)\<lparr>tls_TASK := (tls_TASK (ltls s a))\<lparr>task_checkpoint :=
        map_option (\<lambda>c. c\<lparr>ctx_mask := v_mask (view E (world s)) - {signal_as_c_int no}\<rparr>)
          (task_checkpoint (tls_TASK (ltls s a)))\<rparr>, tls_DEADLINE := d\<rparr>)\<rparr>)"
  shows "wp (switch_stack_prepare E erryes g) P s"
proof -
  have "wp (thread_signal E) Q s = Q (Ok no) s" for Q
    using assms(2,3) by (intro wp_run thread_signal_Some) simp
  moreover have "wp (pthread_sigmask E Block {signal_as_c_int no}) Q s =
      Q (Ok (v_mask (view E (world s)))) (s\<lparr>world := masked E Block {signal_as_c_int no} (world s)\<rparr>)" for Q
    by (intro wp_run) (simp add: preempt_laws [OF assms(1)])
  ultimately show ?thesis
    using assms(2,4)
    by (auto simp: switch_stack_prepare_def preempt_laws [OF assms(1)] prepared_world_def world_before_ltls
        intro!: stamp_wp [where a = a])
qed

lemma switch_stack_scope_again:
  assumes doc: "run_doc E U J" and fs: "fs_of E s = a" and sig: "signal_in (ptls s) a = Some no"
    and nd: "\<not> tls_DEFERRED (ptls s a)" and g: "g \<noteq> group_SHARED E"
    and loc: "locates E g (tls_ERRNO_LOCATION (ptls s a))"
    and boot: "tls_BOOTSTRAP (ltls s a) = None"
    and task: "tls_TASK (ltls s a) = task_default"
    and ctl: "fr_fun (frame_of ctl) = fun" "fr_group (frame_of ctl) = g" "\<not> in_library ctl"
    and clo: "closure_ok J ctl (closures s fun)" and here: "ctx_mcontext here = Interrupted ctl"
  shows "wp (switch_stack_scope E U es (Some erryes) g here)
    (\<lambda>error t. error = None \<longrightarrow> back_from E J no a (ctx_stack here) fun g s t) s"
proof -
  note d = run_docD(1) [OF doc]
  let ?here = "here\<lparr>ctx_mask := v_mask (view E (world s)) - {signal_as_c_int no}\<rparr>"
  let ?w = "prepared_world E no g erryes (world s)"
  let ?at = "\<lambda>w cp x. s\<lparr>world := w, ltls := (ltls s)(a := (ltls s a)\<lparr>tls_TASK := task_default\<lparr>
      task_checkpoint := Some cp\<rparr>, tls_DEADLINE := x\<rparr>)\<rparr>"
  have t: "wp (transfer E U es (Interrupted ctl)) (\<lambda>_. back_from E J no a (ctx_stack here) fun g s) (?at w cp x)"
    if l: "ctx_mcontext cp = Call_site" "ctx_stack cp = ctx_stack here" "view E w = (view E ?w)\<lparr>v_mask := ctx_mask ?here\<rparr>" for cp w x
  proof -
    have "in_function E J no a (ctx_stack here) ctl (?at w cp x)"
      using l fs sig nd g loc boot ctl clo
      by (simp add: in_function_def prepared_world_view [OF d] task_default_def)
    from transfer_Interrupted_wp [OF doc this, where es = es] show ?thesis
      using ctl by (auto elim!: wp_mono intro: back_from_after [rotated] simp: touches_def)
  qed
  have "wp (switch_stack_jump E U es None) (\<lambda>error t. error = None \<longrightarrow> back_from E J no a (ctx_stack here) fun g s t)
      (?at ?w ?here x)" for x
    using fs here t [where x = x]
    by (intro switch_stack_jump_wp [OF run_docD(2) [OF doc], where a = a and here = ?here])
      (auto simp: world_before_ltls deadline_before_task prepared_world_view [OF d])
  then show ?thesis
    using fs task sig
    by (auto simp: switch_stack_scope_def ltls_at_def task_default_def world_before_ltls
        intro!: switch_stack_prepare_wp [OF d, where a = a and no = no])
qed

text \<open>A thread-control block that no function is using: nothing is left of the one before.\<close>

definition idle_block :: "usize \<Rightarrow> ('w, 'm, 'f, 'a, 's) lingering_scheme \<Rightarrow> bool" where
  "idle_block a s \<longleftrightarrow> \<not> tls_SIGNAL_torn (ptls s a) \<and> \<not> tls_DEFERRED (ptls s a) \<and>
     tls_BOOTSTRAP (ltls s a) = None \<and> tls_TASK (ltls s a) = task_default"

text \<open>The function of a continuation has not started, or is paused where the continuation says.\<close>

definition cont_state :: "('w, 'f, 'z) platform_scheme \<Rightarrow> ('f, 'a) promise \<Rightarrow> usize \<Rightarrow> group \<Rightarrow> 'f mcontext continuation \<Rightarrow>
    ('w, 'f mcontext, 'f, 'a, 's) lingering_scheme \<Rightarrow> bool" where
  "cont_state E J a g c s \<longleftrightarrow> (if task_errno (stateful c) = None
     then \<exists>f. closures s (functional c) = Function f \<and> fst J f
     else \<exists>ctl k. paused_at ctl k (stateful c) \<and> fr_fun (frame_of ctl) = functional c \<and>
       fr_group (frame_of ctl) = g \<and> closure_ok J ctl (closures s (functional c)) \<and>
       locates E g (tls_ERRNO_LOCATION (ptls s a)))"

lemma cont_state_cong:
  "closures t (functional c) = closures s (functional c) \<Longrightarrow>
   tls_ERRNO_LOCATION (ptls t a) = tls_ERRNO_LOCATION (ptls s a) \<Longrightarrow>
   cont_state E J a g c t = cont_state E J a g c s"
  by (simp add: cont_state_def)

text \<open>What \<^verbatim>\<open>switch_stack\<close> leaves behind when it returns whether the function finished.\<close>

definition switched :: "('w, 'f, 'z) platform_scheme \<Rightarrow> ('f, 'a) promise \<Rightarrow> signal \<Rightarrow> usize \<Rightarrow>
    stack reusable deref_adapter \<Rightarrow> group \<Rightarrow> 'f mcontext continuation \<Rightarrow>
    ('w, 'f mcontext, 'f, 'a, 's) lingering_scheme \<Rightarrow> bool \<Rightarrow> 'f mcontext continuation \<Rightarrow>
    ('w, 'f mcontext, 'f, 'a, 's) lingering_scheme \<Rightarrow> bool" where
  "switched E J no a k g c s finished c' t \<longleftrightarrow> moved (wrapped k) s (task_stacks (stateful c')) t \<and>
     functional c' = functional c \<and> cont_group c' = cont_group c \<and> cont_tls c' = cont_tls c \<and>
     fs_of E t = a \<and> v_group (view E (world t)) = group_SHARED E \<and>
     (\<forall>b. b \<noteq> a \<longrightarrow> ptls t b = ptls s b \<and> ltls t b = ltls s b) \<and>
     tls_SIGNALER (ptls t a) = tls_SIGNALER (ptls s a) \<and> tls_SIGNAL (ptls t a) = None \<and>
     (\<forall>b. b \<noteq> functional c \<longrightarrow> closures t b = closures s b) \<and> idle_block a t \<and>
     (if finished then task_errno (stateful c') = None \<and> task_checkpoint (stateful c') = None \<and> (\<exists>r. closures t (functional c) = Return r \<and> snd J r)
      else task_errno (stateful c') \<noteq> None \<and> cont_state E J a g c' t \<and>
        signal_as_c_int no \<in> v_mask (view E (world t)))"

lemma lingering_eqI:
  assumes "statics.more t = statics.more s"
  shows "ptls t = ptls s" and "ltls t = ltls s" and "closures t = closures s"
  using assms by (cases s; cases t; simp)+

lemma drop_checkpoint_wp:
  assumes "\<And>t. ptls t = ptls s \<Longrightarrow> ltls t = ltls s \<Longrightarrow> closures t = closures s \<Longrightarrow> world t = world s \<Longrightarrow>
    moved (checkpoint_stacks c) s [] t \<Longrightarrow> P () t"
  shows "wp (drop_checkpoint c) P s"
proof (intro wp_defined defined_rules)
  fix x t assume d: "drop_checkpoint c s = (Val x, t)"
  have "statics.more t = statics.more s" using keepsD [OF keeps_drop_checkpoint d] .
  moreover have "world t = world s" using keepsD [OF keeps_drop_checkpoint_world [where g = id] d] by simp
  ultimately show "P x t" using assms lingering_eqI [of t s] drop_checkpoint_moved [of c s t] d by simp
qed

lemma touches_stacks: "touches a fun s t \<Longrightarrow> stack_view t = stack_view s"
  unfolding touches_def stack_view_def by (cases s; cases t; simp)

lemma switch_stack_finish_wp:
  fixes s :: "('w, 'f mcontext, 'f, 'a, 's) lingering_scheme"
  assumes "back_from E J no a k (functional c) g s0 s" and "task_checkpoint (stateful c) = None"
  shows "wp (switch_stack_finish E) (\<lambda>r (c', t). case r of Ok fin \<Rightarrow> switched E J no a k g c s0 fin c' t | Err _ \<Rightarrow> False) (c, s)"
proof -
  obtain fr where fr: "fr_fun fr = functional c" "fr_group fr = g" "came_back E J no a k fr s"
      "touches a (functional c) s0 s"
    using assms by (auto simp: back_from_def)
  then have fs: "fs_of E s = a" by (simp add: came_back_def)
  have mv: "moved xs s0 xs (s\<lparr>ltls := l\<rparr>)" for xs l
    using touches_stacks [OF fr(4)] by (intro moved_stay) (simp add: stack_view_def)
  show ?thesis
  proof (cases "task_errno (tls_TASK (ltls s a))")
    case None
    with fr fs assms(2) show ?thesis
      by (auto simp: switch_stack_finish_def ltls_at_def set_task_def came_back_def paused_at_def
          switched_def idle_block_def touches_def intro!: drop_checkpoint_wp intro: moved_trans [OF mv])
  next
    case (Some e)
    then obtain ctl where ctl: "frame_of ctl = fr" "paused_at ctl k (tls_TASK (ltls s a))"
        "closure_ok J ctl (closures s (functional c))" "signal_as_c_int no \<in> v_mask (view E (world s))"
      using fr by (auto simp: came_back_def)
    have "cont_state E J a g (c\<lparr>stateful := tls_TASK (ltls s a)\<rparr>) t"
      if "ptls t = ptls s" "closures t = closures s" for t :: "('w, 'f mcontext, 'f, 'a, 's) lingering_scheme"
      using that ctl fr Some by (auto simp: cont_state_def came_back_def)
    moreover have "task_stacks (tls_TASK (ltls s a)) = wrapped k" using ctl(2) by (auto simp: paused_at_def)
    ultimately show ?thesis
      using Some ctl fr fs assms(2) mv
      by (simp add: switch_stack_finish_def ltls_at_def set_task_def came_back_def
          switched_def idle_block_def touches_def drop_checkpoint_def)
  qed
qed

text \<open>With its block installed and its thread set up, a function can be entered.\<close>

definition enterable :: "('w, 'f, 'z) platform_scheme \<Rightarrow> ('f, 'a) promise \<Rightarrow> signal \<Rightarrow> usize \<Rightarrow> group \<Rightarrow> 'f mcontext continuation \<Rightarrow>
    ('w, 'f mcontext, 'f, 'a, 's) lingering_scheme \<Rightarrow> bool" where
  "enterable E J no a g c s \<longleftrightarrow> fs_of E s = a \<and> signal_in (ptls s) a = Some no \<and>
     \<not> tls_DEFERRED (ptls s a) \<and> g \<noteq> group_SHARED E \<and> (\<forall>w. group_lookup_errno_location E g w \<noteq> None) \<and>
     tls_TASK (ltls s a) = task_default \<and> cont_state E J a g c s \<and>
     (if task_errno (stateful c) = None
      then tls_BOOTSTRAP (ltls s a) = Some (functional c, g) \<and>
        (\<exists>cp. task_checkpoint (stateful c) = Some cp \<and> ctx_mcontext cp = Entry)
      else tls_BOOTSTRAP (ltls s a) = None)"

lemma switch_stack_scope_wp:
  assumes "run_doc E U J" and "enterable E J no a g c s" and "task_checkpoint (stateful c) = Some cp"
    and "ctx_mcontext here = ctx_mcontext cp" "ctx_stack here = k" and "view E w = view E (world s)"
  shows "wp (switch_stack_scope E U es (task_errno (stateful c)) g here)
    (\<lambda>error t. error = None \<longrightarrow> back_from E J no a k (functional c) g s t) (s\<lparr>world := w\<rparr>)"
proof (cases "task_errno (stateful c)")
  case None
  with assms obtain f where "closures s (functional c) = Function f" "fst J f"
    by (auto simp: enterable_def cont_state_def)
  with None assms show ?thesis
    by (auto simp: enterable_def touches_world
        intro!: wp_mono [OF switch_stack_scope_first [OF assms(1), where f = f]] intro: back_from_world)
next
  case (Some e)
  with assms obtain ctl k where "paused_at ctl k (stateful c)" "fr_fun (frame_of ctl) = functional c"
      "fr_group (frame_of ctl) = g" "closure_ok J ctl (closures s (functional c))"
      "locates E g (tls_ERRNO_LOCATION (ptls s a))"
    by (auto simp: enterable_def cont_state_def)
  with Some assms show ?thesis
    by (auto simp: enterable_def touches_world paused_at_def
        intro!: wp_mono [OF switch_stack_scope_again [OF assms(1), where ctl = ctl]] intro: back_from_world)
qed

lemma switch_stack_wp:
  assumes "run_doc E U J" and "enterable E J no a g c s" and cp: "task_checkpoint (stateful c) = Some cp" "ctx_stack cp = k"
  shows "wp (switch_stack E U es g) (\<lambda>r (c', t). \<forall>fin. r = Ok fin \<longrightarrow> switched E J no a k g c s fin c' t) (c, s)"
proof -
  let ?c = "c\<lparr>stateful := (stateful c)\<lparr>task_checkpoint := None\<rparr>\<rparr>"
  obtain r w where rc: "tt_restorecontext E cp (world s) = (r, w)" by fastforce
  have v: "view E w = view E (world s)" "r = Ok here \<Longrightarrow> ctx_mcontext here = ctx_mcontext cp"
      "r = Ok here \<Longrightarrow> ctx_stack here = k" for here
    using context_laws(3,4) [OF run_docD(2) [OF assms(1)], of cp "world s"] rc cp(2) by auto
  have fin: "wp (switch_stack_finish E) (\<lambda>r (c', t). \<forall>fin. r = Ok fin \<longrightarrow> switched E J no a k g c s fin c' t) (?c, t)"
    if "back_from E J no a k (functional c) g s t" for t
    using that by (intro wp_mono [OF switch_stack_finish_wp]) (auto simp: switched_def)
  show ?thesis
  proof (cases r)
    case (Err e)
    then show ?thesis
      using cp rc by (auto simp: switch_stack_def set_task_def intro!: drop_checkpoint_wp)
  next
    case (Ok here)
    note scope = switch_stack_scope_wp [OF assms(1,2) cp(1) v(2,3) [OF Ok] v(1)]
    from Ok show ?thesis
      using cp(1) rc by (auto simp: switch_stack_def set_task_def fin split: option.split intro!: wp_mono [OF scope])
  qed
qed

section \<open>Resuming a continuation\<close>

text \<open>
  A continuation that \<^verbatim>\<open>resume\<close> may be given: it owns a libset of its own and an idle block that
  is not the caller's, and its function has not started or is paused.
\<close>

definition cont_ok :: "('w, 'f, 'z) platform_scheme \<Rightarrow> ('f, 'a) promise \<Rightarrow> usize \<Rightarrow> group \<Rightarrow> 'f mcontext continuation \<Rightarrow>
    ('w, 'f mcontext, 'f, 'a, 's) lingering_scheme \<Rightarrow> bool" where
  "cont_ok E J a g c s \<longleftrightarrow> cont_group c = \<lparr>reusable_value = Some g\<rparr> \<and>
     g \<noteq> group_SHARED E \<and> (\<forall>w. group_lookup_errno_location E g w \<noteq> None) \<and>
     cont_tls c = \<lparr>reusable_value = Some (Some \<lparr>tcb_fs = Some (Mut a)\<rparr>)\<rparr> \<and>
     idle_block a s \<and> cont_state E J a g c s"

lemma wp_guarded:
  fixes m :: "('c \<times> ('w, 's) tcbs_scheme, 'x io_result) comp"
  assumes "wp m (\<lambda>r t. \<forall>x. r = Ok x \<longrightarrow> P (Ok x) t) s" and "\<And>e t. P (Err e) t"
  shows "wp (guarded G gd m) P s"
  unfolding guarded_def wp_simps
proof (rule wp_mono [OF wp_on_panic [OF assms(1)]])
  fix r :: "'x io_result" and t assume ok: "\<forall>x. r = Ok x \<longrightarrow> P (Ok x) t"
  obtain c u where t: "t = (c, u)" by fastforce
  have "wp (drop_tcb_guard G gd) (\<lambda>_ v. P (Err e) (c, v)) u" for e
    by (intro wp_defined defined_rules assms(2))
  with ok show "wp (case r of Ok x \<Rightarrow> ret (Ok x)
      | Err e \<Rightarrow> andthen (elsewhere (drop_tcb_guard G gd)) (ret (Err e))) P t"
    by (simp add: t split: result.split)
qed (intro defined_rules)

lemma setup_stack_wp:
  assumes "context_doc E"
    and "\<And>cp t. ptls t = ptls s \<Longrightarrow> ltls t = ltls s \<Longrightarrow> closures t = closures s \<Longrightarrow>
      view E (world t) = view E (world s) \<Longrightarrow> ctx_mcontext cp = Entry \<Longrightarrow> moved [] s (wrapped (ctx_stack cp)) t \<Longrightarrow>
      P (Ok (Some cp)) t"
    and "\<And>e t. P (Err e) t"
  shows "wp (setup_stack E) P s"
proof (intro wp_defined defined_rules)
  fix r t assume d: "setup_stack E s = (Val r, t)"
  have "statics.more t = statics.more s" "view E (world t) = view E (world s)"
    using keepsD [OF keeps_setup_stack d] keepsD [OF keeps_setup_stack_view [OF assms(1)] d] by simp_all
  then show "P r t"
    using assms(2,3) lingering_eqI [of t s] d setup_stack_Ok [OF assms(1), of s _ t] setup_stack_moved [OF assms(1), of s _ t]
    by (cases r) auto
qed

lemma resume_bootstrap_wp:
  assumes doc: "run_doc E U J" and fs: "fs_of E s = a" and sig: "signal_in (ptls s) a = Some no"
    and idle: "idle_block a s" and g: "g \<noteq> group_SHARED E" "\<And>w. group_lookup_errno_location E g w \<noteq> None"
    and cs: "cont_state E J a g c s" "task_errno (stateful c) = None"
  shows "wp (resume_bootstrap E g) (\<lambda>r (c', t). r = Ok () \<longrightarrow> enterable E J no a g c' t \<and>
    functional c' = functional c \<and> cont_group c' = cont_group c \<and> cont_tls c' = cont_tls c \<and>
    ptls t = ptls s \<and> (\<forall>b. b \<noteq> a \<longrightarrow> ltls t b = ltls s b) \<and> closures t = closures s \<and>
    moved (task_stacks (stateful c)) s (task_stacks (stateful c')) t) (c, s)"
  using fs sig idle g cs
  by (auto simp: resume_bootstrap_def set_task_def idle_block_def enterable_def cont_state_def ltls_at_def stack_view_def
      intro!: setup_stack_wp [OF run_docD(2) [OF doc]] drop_checkpoint_wp)
    (erule (1) moved_exchange, simp add: stack_view_def)

text \<open>What \<^verbatim>\<open>resume\<close> has done to a continuation and to the process when it reports success.\<close>

definition resumed :: "('w, 'f, 'z) platform_scheme \<Rightarrow> ('f, 'a) promise \<Rightarrow> usize \<Rightarrow> usize \<Rightarrow> group \<Rightarrow> 'f mcontext continuation \<Rightarrow>
    ('w, 'f mcontext, 'f, 'a, 's) lingering_scheme \<Rightarrow> bool \<Rightarrow> 'f mcontext continuation \<Rightarrow>
    ('w, 'f mcontext, 'f, 'a, 's) lingering_scheme \<Rightarrow> bool" where
  "resumed E J me a g c s finished c' t \<longleftrightarrow> moved (task_stacks (stateful c)) s (task_stacks (stateful c')) t \<and>
     functional c' = functional c \<and> cont_group c' = cont_group c \<and>
     v_group (view E (world t)) = group_SHARED E \<and> signalers_wf (ptls t) \<and> tls_SIGNALER (ptls t me) \<noteq> None \<and> idle_block a t \<and>
     (if finished then task_errno (stateful c') = None \<and> task_checkpoint (stateful c') = None \<and> (\<exists>r. closures t (functional c) = Return r \<and> snd J r)
      else task_errno (stateful c') \<noteq> None \<and> cont_state E J a g c' t) \<and>
     (\<forall>b. b \<noteq> functional c \<longrightarrow> closures t b = closures s b) \<and>
     (\<forall>b. b \<noteq> a \<longrightarrow> ltls t b = ltls s b \<and> ptls t b = (ptls s b)\<lparr>tls_SIGNALER := tls_SIGNALER (ptls t b)\<rparr>)"

lemma switched_resumed:
  assumes "switched E J no a k g c s1 fin c' t"
    and "ptls s1 = (ptls s)(me := (ptls s me)\<lparr>tls_SIGNALER := Some ps\<rparr>, a := (ptls s a)\<lparr>tls_SIGNAL := Some me\<rparr>)"
    and "a \<noteq> me" and "reusable_value (ps_signal ps) = Some no'" and "signalers_wf (ptls s)"
    and "\<And>b. b \<noteq> a \<Longrightarrow> ltls s1 b = ltls s b" and "closures s1 = closures s"
    and "moved (task_stacks (stateful c0)) s (wrapped k) s1" "functional c = functional c0" "cont_group c = cont_group c0"
  shows "resumed E J me a g c0 s fin c' t"
proof -
  have sig: "tls_SIGNALER (ptls t b) = (if b = me then Some ps else tls_SIGNALER (ptls s b))" for b
    using assms(1-3) by (cases "b = a") (auto simp: switched_def)
  then have "signalers_wf (ptls t)"
    using assms(4,5) by (auto simp: signalers_wf_def split: if_splits)
  with sig [of me] assms show ?thesis
    by (auto simp: switched_def resumed_def intro: moved_trans)
qed

lemma cont_state_ltls [simp]: "cont_state E J a g c (s\<lparr>ltls := l\<rparr>) = cont_state E J a g c s"
  by (simp add: cont_state_def)

lemma enterable_deadline:
  "enterable E J no a g c s \<Longrightarrow> enterable E J no a g c (s\<lparr>ltls := (ltls s)(a := (ltls s a)\<lparr>tls_DEADLINE := us\<rparr>)\<rparr>)"
  by (simp add: enterable_def)

text \<open>From the block being installed and the thread set up to control coming back.\<close>

lemma resume_enter_wp:
  assumes doc: "run_doc E U J" and me: "a \<noteq> me" and wf: "signalers_wf (ptls s)"
    and e: "enterable E J no a g c2 s2" "functional c2 = functional c" "cont_group c2 = cont_group c" "cont_tls c2 = cont_tls c"
    and p: "ptls s2 = (ptls s)(me := (ptls s me)\<lparr>tls_SIGNALER := Some ps\<rparr>, a := (ptls s a)\<lparr>tls_SIGNAL := Some me\<rparr>)"
      "reusable_value (ps_signal ps) = Some no" "\<And>b. b \<noteq> a \<Longrightarrow> ltls s2 b = ltls s b" "closures s2 = closures s"
      "moved (task_stacks (stateful c)) s (task_stacks (stateful c2)) s2"
  shows "wp (andthen (elsewhere (set_ltls E (\<lambda>t. t\<lparr>tls_DEADLINE := us\<rparr>))) (switch_stack E U es g)) (\<lambda>r (c', t). \<forall>fin. r = Ok fin \<longrightarrow>
    resumed E J me a g c s fin c' t \<and> fs_of E t = a \<and> cont_tls c' = cont_tls c) (c2, s2)"
    (is "wp _ ?post _")
proof -
  let ?s3 = "s2\<lparr>ltls := (ltls s2)(a := (ltls s2 a)\<lparr>tls_DEADLINE := us\<rparr>)\<rparr>"
  have f: "fs_of E s2 = a" using e by (simp add: enterable_def)
  obtain cp where cp: "task_checkpoint (stateful c2) = Some cp"
    using e(1) by (auto simp: enterable_def cont_state_def paused_at_def split: if_splits)
  have m: "moved (task_stacks (stateful c)) s (wrapped (ctx_stack cp)) ?s3"
    using cp by (intro moved_end [OF p(5), unfolded cp checkpoint_stacks_simps]) (simp add: stack_view_def)
  have r: "resumed E J me a g c s fin c' t \<and> fs_of E t = a \<and> cont_tls c' = cont_tls c"
    if "switched E J no a (ctx_stack cp) g c2 ?s3 fin c' t" for fin c' t
  proof -
    have "resumed E J me a g c s fin c' t"
      using p wf m e by (intro switched_resumed [OF that _ me, where no' = no and ps = ps]) auto
    then show ?thesis using that e by (simp add: switched_def)
  qed
  have "wp (switch_stack E U es g) ?post (c2, ?s3)"
    by (rule wp_mono [OF switch_stack_wp [OF doc enterable_deadline [OF e(1)] cp refl]]) (clarsimp, metis r)
  then show ?thesis using f by simp
qed

lemma resume_installed_wp:
  assumes doc: "run_doc E U J" "setup_doc E" and fs: "fs_of E s = a" "a \<noteq> me"
    and sh: "v_group (view E (world s)) = group_SHARED E" and wf: "signalers_wf (ptls s)"
    and idle: "idle_block a s" and g: "g \<noteq> group_SHARED E" "\<And>w. group_lookup_errno_location E g w \<noteq> None"
    and cs: "cont_state E J a g c s"
  shows "wp (resume_installed E U es me g us) (\<lambda>r (c', t). \<forall>fin. r = Ok fin \<longrightarrow>
    resumed E J me a g c s fin c' t \<and> fs_of E t = a \<and> cont_tls c' = cont_tls c) (c, s)"
    (is "wp _ ?post _")
proof -
  note sw = resume_enter_wp [OF doc(1) fs(2) wf]
  have after: "wp (or_return (if task_errno (stateful c) = None then resume_bootstrap E g else ret (Ok ())) (\<lambda>_.
      andthen (elsewhere (set_ltls E (\<lambda>t. t\<lparr>tls_DEADLINE := us\<rparr>))) (switch_stack E U es g))) ?post (c, s1)"
    if p: "ptls s1 = (ptls s)(me := (ptls s me)\<lparr>tls_SIGNALER := Some ps\<rparr>, a := (ptls s a)\<lparr>tls_SIGNAL := Some me\<rparr>)"
        "reusable_value (ps_signal ps) = Some no" "preemption.more s1 = preemption.more s"
        "place_of E (world s1) = place_of E (world s)" "stack_view s1 = stack_view s"
    for no ps s1
  proof -
    note l = lingering_more [OF p(3)]
    have f: "fs_of E s1 = a" "signal_in (ptls s1) a = Some no" "idle_block a s1" "cont_state E J a g c s1"
      using p l fs idle cs cont_state_cong [of s1 c s a E J g]
      by (simp_all add: place_of_def signal_in_def idle_block_def)
    show ?thesis
    proof (cases "task_errno (stateful c) = None")
      case True
      have "wp (resume_bootstrap E g) (\<lambda>r. case r of
          Ok _ \<Rightarrow> wp (andthen (elsewhere (set_ltls E (\<lambda>t. t\<lparr>tls_DEADLINE := us\<rparr>))) (switch_stack E U es g)) ?post
        | Err e \<Rightarrow> ?post (Err e)) (c, s1)"
        using p l
        by (intro wp_mono [OF resume_bootstrap_wp [OF doc(1) f(1,2,3) g f(4) True]])
          (auto split: result.split simp del: wp_simps intro!: sw [where no = no and ps = ps] moved_start [OF _ p(5)])
      then show ?thesis using True by simp
    next
      case False
      then have "enterable E J no a g c s1"
        using f idle l g by (simp add: enterable_def idle_block_def)
      from sw [OF this refl refl refl p(1,2) _ _ moved_stay [OF p(5)]] l False show ?thesis by auto
    qed
  qed
  show ?thesis
    unfolding resume_installed_def setup_thread_def
    by (auto split: result.split split del: if_split simp: abort_def simp del: wp_or_return
        intro!: wp_mono [OF thread_setup_wp [OF doc(2) fs wf]] after)
qed

text \<open>The thread that calls: in the shared libset, its preemption signals in their wrappers.\<close>

definition caller_ok :: "('w, 'z) gotcha_scheme \<Rightarrow> usize \<Rightarrow> ('w, 's) preemption_scheme \<Rightarrow> bool" where
  "caller_ok G me s \<longleftrightarrow> fs_of G s = me \<and> v_group (view G (world s)) = group_SHARED G \<and> signalers_wf (ptls s)"

lemma caller_not_preemptible:
  assumes "group_doc G" and "caller_ok G me s"
  shows "is_preemptible G s = (Val False, s)"
  using assms(2) by (simp add: caller_ok_def is_preemptible_run [OF assms(1)])

lemma lingering_tcbs:
  assumes "tcbs.more t = tcbs.more s"
  shows "ptls t = ptls s" and "ltls t = ltls s" and "closures t = closures s" and "stack_view t = stack_view s"
  using assms by (cases s; cases t; simp add: stack_view_def)+

lemma install_wp:
  assumes "prctl_doc G"
    and "\<And>t. ptls t = ptls s \<Longrightarrow> ltls t = ltls s \<Longrightarrow> closures t = closures s \<Longrightarrow> stack_view t = stack_view s \<Longrightarrow>
      view G (world t) = (view G (world s))\<lparr>v_fs := a\<rparr> \<Longrightarrow>
      P (Ok \<lparr>guard_this = \<lparr>tcb_fs = Some (Mut a)\<rparr>, guard_parent = \<lparr>tcb_fs = Some (Ref (fs_of G s))\<rparr>\<rparr>) t"
    and "\<And>e t. P (Err e) t"
  shows "wp (install G \<lparr>tcb_fs = Some (Mut a)\<rparr> g) P s"
proof (intro wp_defined defined_rules)
  fix r t assume d: "install G \<lparr>tcb_fs = Some (Mut a)\<rparr> g s = (Val r, t)"
  show "P r t"
    using assms(2,3) lingering_tcbs [OF keepsD [OF keeps_install(1) d]] install_Ok(1,2) [OF assms(1), of a g s _ t] d
    by (cases r) simp_all
qed

lemma uninstall_wp:
  assumes "prctl_doc G" and "guard_parent gd = \<lparr>tcb_fs = Some (Ref p)\<rparr>"
    and "\<And>t. ptls t = ptls s \<Longrightarrow> ltls t = ltls s \<Longrightarrow> closures t = closures s \<Longrightarrow> stack_view t = stack_view s \<Longrightarrow>
      view G (world t) = (view G (world s))\<lparr>v_fs := p\<rparr> \<Longrightarrow> P (Ok (guard_this gd)) t"
  shows "wp (uninstall G gd) P s"
proof (intro wp_defined defined_rules)
  fix r t assume d: "uninstall G gd s = (Val r, t)"
  show "P r t"
    using assms(3) lingering_tcbs [OF keepsD [OF keeps_install(2) d]] uninstall_Val(1,2) [OF assms(1,2) d]
    by simp
qed

lemma resumed_cong:
  assumes "resumed E J me a g c s fin c' t" and "ptls u = ptls t" "ltls u = ltls t" "closures u = closures t"
    "v_group (view E (world u)) = v_group (view E (world t))" "stack_view u = stack_view t"
  shows "resumed E J me a g c s fin (c'\<lparr>cont_tls := x\<rparr>) u"
  using assms by (auto simp: resumed_def idle_block_def cont_state_def split: if_splits intro: moved_end)

lemma resumed_start:
  "resumed E J me a g (c\<lparr>cont_tls := x\<rparr>) s1 fin c' t \<Longrightarrow> ptls s1 = ptls s \<Longrightarrow> ltls s1 = ltls s \<Longrightarrow>
   closures s1 = closures s \<Longrightarrow> stack_view s1 = stack_view s \<Longrightarrow> resumed E J me a g c s fin c' t"
  by (cases fin) (auto simp: resumed_def intro: moved_start)

lemma resume_continuation_wp:
  assumes doc: "run_doc E U J" "setup_doc E" and call: "caller_ok E me s" and c: "cont_ok E J a g c s" "a \<noteq> me"
  shows "wp (resume_continuation E U es us) (\<lambda>r (c', t). \<forall>fin. r = Ok fin \<longrightarrow>
    resumed E J me a g c s fin c' t \<and> fs_of E t = me \<and> cont_tls c' = cont_tls c) (c, s)"
    (is "wp _ ?post _")
proof -
  let ?b = "\<lparr>tcb_fs = Some (Mut a)\<rparr>" and ?c = "c\<lparr>cont_tls := \<lparr>reusable_value = Some None\<rparr>\<rparr>"
  let ?gd = "\<lparr>guard_this = ?b, guard_parent = \<lparr>tcb_fs = Some (Ref me)\<rparr>\<rparr>"
  have fin: "wp (or_return (elsewhere (uninstall E ?gd)) (\<lambda>tls. andthen (replace_tls tls) (ret (Ok fin)))) ?post (c', t)"
    if r: "resumed E J me a g c s fin c' t" "cont_tls c' = cont_tls ?c" for fin c' t
    using that c(1)
    by (auto intro!: uninstall_wp [OF setup_docD(4) [OF doc(2)], where p = me] resumed_cong [OF r(1)]
        simp: replace_tls_def deref_mut_def cont_ok_def)
  have mid: "wp (or_return (guarded E ?gd (resume_installed E U es me g us)) (\<lambda>finished.
      or_return (elsewhere (uninstall E ?gd)) (\<lambda>tls. andthen (replace_tls tls) (ret (Ok finished))))) ?post (?c, s1)"
    if s1: "ptls s1 = ptls s" "ltls s1 = ltls s" "closures s1 = closures s" "stack_view s1 = stack_view s"
      "view E (world s1) = (view E (world s))\<lparr>v_fs := a\<rparr>" for s1
  proof -
    have "wp (resume_installed E U es me g us) (\<lambda>r (c', t). \<forall>fin. r = Ok fin \<longrightarrow>
        resumed E J me a g ?c s1 fin c' t \<and> fs_of E t = a \<and> cont_tls c' = cont_tls ?c) (?c, s1)"
      using s1 call c by (intro resume_installed_wp [OF doc])
        (auto simp: caller_ok_def cont_ok_def idle_block_def cont_state_def split: if_splits)
    then have "wp (guarded E ?gd (resume_installed E U es me g us)) (\<lambda>r (c', t). \<forall>fin. r = Ok fin \<longrightarrow>
        resumed E J me a g c s fin c' t \<and> cont_tls c' = cont_tls ?c) (?c, s1)"
      by (rule wp_guarded [OF wp_mono]) (auto simp: split_beta dest: resumed_start [OF _ s1(1-4)])
    then show ?thesis
      unfolding wp_or_return [of "guarded _ _ _"]
      apply (rule wp_mono)
      subgoal for r ct by (cases ct; cases r) (simp_all add: fin del: wp_or_return)
      done
  qed
  have grp: "cont_group c = \<lparr>reusable_value = Some g\<rparr>" "cont_tls c = \<lparr>reusable_value = Some (Some ?b)\<rparr>" "fs_of E s = me"
    using c call by (simp_all add: cont_ok_def caller_ok_def)
  have "wp (or_return (elsewhere (install E ?b g)) (\<lambda>gd. or_return (guarded E gd (resume_installed E U es me g us)) (\<lambda>finished.
      or_return (elsewhere (uninstall E gd)) (\<lambda>tls. andthen (replace_tls tls) (ret (Ok finished)))))) ?post (?c, s)"
    unfolding wp_or_return [of "elsewhere _"] wp_elsewhere
    using mid grp by (intro install_wp [OF setup_docD(4) [OF doc(2)]]) (simp_all del: wp_or_return)
  then show ?thesis
    using grp by (simp add: resume_continuation_def take_tls_def deref_def deref_mut_def real_thread_id_current_def
        del: wp_or_return)
qed

section \<open>Dropping a continuation\<close>

text \<open>What dropping a continuation whose function is not paused leaves alone.\<close>

definition surroundings :: "nat \<Rightarrow> ('w, 'm, 'f, 'a, 's) lingering_scheme \<Rightarrow>
    'w \<times> (usize \<Rightarrow> preempt_tls) \<times> (usize \<Rightarrow> 'm linger_tls) \<times> (nat \<Rightarrow> ('f, 'a) completion)" where
  "surroundings b s = (world s, ptls s, ltls s, (closures s)(b := Empty))"

lemma ignores_surroundings [keeps_rules]:
  "ignores (surroundings b) groups_place" "ignores (surroundings b) localstores_place"
  "ignores (surroundings b) stacks_place"
  by (simp_all add: ignores_def surroundings_def place_defs)

lemma defined_drop_continuation [defined_rules]: "defined (drop_continuation G c)"
  unfolding drop_continuation_def is_preemptible_def by (intro defined_rules)

lemma keeps_drop_continuation:
  assumes "task_errno (stateful c) = None"
  shows "keeps (surroundings (functional c)) (drop_continuation G c)"
proof -
  have cp: "keeps (surroundings (functional c)) (drop_checkpoint cp)" for cp
    unfolding drop_checkpoint_def drop_stack_def by (intro keeps_rules)
  have cl: "keeps (surroundings (functional c)) (set_closure (functional c) Empty)"
    unfolding set_closure_def by (rule keeps_modify) (simp add: surroundings_def)
  have no_renewal: "only_if (task_errno (stateful c) \<noteq> None) m = ret ()" for m
    by (simp only: only_if_def assms simp_thms if_False)
  show ?thesis
    unfolding drop_continuation_def is_preemptible_def no_renewal by (intro keeps_rules cp cl)
qed

lemma drop_continuation_wp:
  assumes "task_errno (stateful c) = None"
    and "\<And>t. surroundings (functional c) t = surroundings (functional c) s \<Longrightarrow> P () t"
  shows "wp (drop_continuation G c) P s"
  by (intro wp_defined defined_rules)
    (auto dest!: keepsD [OF keeps_drop_continuation [OF assms(1)]] intro: assms(2))

section \<open>Resuming\<close>

text \<open>
  What \<^verbatim>\<open>resume\<close> guarantees: the caller's thread is as it was and has its preemption signal; nothing
  of the other functions has changed; and the value is a function paused anew, or the completion it promised.
\<close>

definition unchanged_besides :: "usize \<Rightarrow> nat \<Rightarrow> ('w, 'm, 'f, 'a, 's) lingering_scheme \<Rightarrow>
    ('w, 'm, 'f, 'a, 's) lingering_scheme \<Rightarrow> bool" where
  "unchanged_besides a b s t \<longleftrightarrow> (\<forall>c. c \<noteq> b \<longrightarrow> closures t c = closures s c) \<and>
     (\<forall>c. c \<noteq> a \<longrightarrow> ltls t c = ltls s c \<and> ptls t c = (ptls s c)\<lparr>tls_SIGNALER := tls_SIGNALER (ptls t c)\<rparr>)"

definition resume_post :: "('w, 'f, 'z) platform_scheme \<Rightarrow> ('f, 'a) promise \<Rightarrow> usize \<Rightarrow> usize \<Rightarrow> group \<Rightarrow>
    ('w, 'f mcontext, 'f, 'a, 's) lingering_scheme \<Rightarrow> nat \<Rightarrow> ('a, 'f mcontext) linger \<Rightarrow>
    ('w, 'f mcontext, 'f, 'a, 's) lingering_scheme \<Rightarrow> bool" where
  "resume_post E J me a g s b l t \<longleftrightarrow> caller_ok E me t \<and> tls_SIGNALER (ptls t me) \<noteq> None \<and>
     unchanged_besides a b s t \<and> idle_block a t \<and>
     (case l of
        Completion v \<Rightarrow> snd J (Ok v)
      | Continuation c \<Rightarrow> cont_ok E J a g c t \<and> task_errno (stateful c) \<noteq> None \<and> functional c = b
      | Poison \<Rightarrow> False)"

lemma surroundings_eq:
  assumes "surroundings b t = surroundings b s"
  shows "world t = world s" "ptls t = ptls s" "ltls t = ltls s" "c \<noteq> b \<Longrightarrow> closures t c = closures s c"
  using assms by (auto simp: surroundings_def fun_eq_iff dest!: spec [of _ c] split: if_splits)

lemma resume_finished_wp:
  assumes "resumed E J me a g c s True c' t" and "fs_of E t = me"
  shows "wp (bind (elsewhere (closure_retrieve (functional c))) (\<lambda>retval.
      bind (expect msg retval) (\<lambda>retval. case retval of
        Ok v \<Rightarrow> andthen (assign E (Completion v)) (ret (Ok ()))
      | Err payload \<Rightarrow> andthen (assign E Poison) (panic payload))))
    (\<lambda>r (l, u). resume_post E J me a g s (functional c) l u) (Continuation c', t)"
proof -
  obtain r where r: "closures t (functional c) = Return r" "snd J r" "task_errno (stateful c') = None"
      "functional c' = functional c"
    using assms(1) by (auto simp: resumed_def)
  let ?t = "t\<lparr>closures := (closures t)(functional c := Empty)\<rparr>"
  have post: "resume_post E J me a g s (functional c) (Completion v) u"
    if "surroundings (functional c) u = surroundings (functional c) ?t" "r = Ok v" for u v
    using assms r that surroundings_eq [OF that(1)]
    by (auto simp: resume_post_def resumed_def caller_ok_def unchanged_besides_def idle_block_def)
  have drop: "wp (drop_continuation E c') P ?t"
    if "\<And>u. surroundings (functional c) u = surroundings (functional c) ?t \<Longrightarrow> P () u" for P
    using that r by (intro drop_continuation_wp) simp_all
  show ?thesis
    using r by (cases r) (auto simp: closure_retrieve_def completion_take_def set_closure_def assign_def
        drop_linger_def intro!: drop post)
qed

lemma resume_wp:
  assumes doc: "run_doc E U J" "setup_doc E" and call: "caller_ok E me s" and c: "cont_ok E J a g c s" "a \<noteq> me"
  shows "wp (resume E U es us) (\<lambda>r (l, t). r = Ok () \<longrightarrow> resume_post E J me a g s (functional c) l t)
    (Continuation c, s)"
proof -
  let ?post = "\<lambda>r (l, t). r = Ok () \<longrightarrow> resume_post E J me a g s (functional c) l t"
  let ?go = "\<lambda>finished. if \<not> finished then ret (Ok ()) else
     bind (elsewhere (closure_retrieve (functional c))) (\<lambda>retval.
     bind (expect ''resume(): return value was already retrieved'' retval) (\<lambda>retval. case retval of
       Ok v \<Rightarrow> andthen (assign E (Completion v)) (ret (Ok ()))
     | Err payload \<Rightarrow> andthen (assign E Poison) (panic payload)))"
  have go: "wp (?go fin) ?post (Continuation c', t)"
    if r: "resumed E J me a g c s fin c' t" "fs_of E t = me" "cont_tls c' = cont_tls c" for fin c' t
  proof (cases fin)
    case True
    with r have "resumed E J me a g c s True c' t" by simp
    from resume_finished_wp [OF this r(2), where msg = "''resume(): return value was already retrieved''"]
    show ?thesis using True by (auto elim!: wp_mono simp del: wp_simps)
  next
    case False
    with r c(1) show ?thesis
      by (simp add: resume_post_def resumed_def caller_ok_def unchanged_besides_def cont_ok_def)
  qed
  have w: "wp (\<lambda>(_, s). case resume_continuation E U es us (c, s) of (r, (c', t)) \<Rightarrow> (r, (Continuation c', t))) Q (l, s) \<longleftrightarrow>
      wp (resume_continuation E U es us) (\<lambda>r (c', t). Q r (Continuation c', t)) (c, s)" for Q l
    by (simp add: wp_def split: prod.split outcome.split)
  have "wp (or_return (\<lambda>(_, s). case resume_continuation E U es us (c, s) of
      (r, (c', t)) \<Rightarrow> (r, (Continuation c', t))) ?go) ?post (l, s)" for l
    unfolding wp_or_return w
    apply (rule wp_mono [OF resume_continuation_wp [OF doc call c]])
    subgoal for r ct
      by (cases ct; cases r; (simp only: prod.case result.case, rule go)?) auto
    done
  moreover have "wp (is_preemptible E) Q s = Q False s" for Q
    by (intro wp_run caller_not_preemptible [OF preempt_docD(1) [OF run_docD(1) [OF doc(1)]] call])
  ultimately show ?thesis
    by (simp add: resume_def del: wp_or_return)
qed

section \<open>Panicking\<close>

text \<open>
  A \<^verbatim>\<open>Linger\<close> is poisoned only where the function has finished by panicking; its continuation has been dropped
  by then, with whatever outcome.
\<close>

lemma resume_poisons:
  assumes doc: "run_doc E U J" "setup_doc E" and call: "caller_ok E me s" and c: "cont_ok E J a g c s" "a \<noteq> me"
    and run: "resume E U es us (Continuation c, s) = (r, (Poison, t))"
  obtains msg c' u d where "resume_continuation E U es us (c, s) = (Val (Ok True), (c', u))"
    "resumed E J me a g c s True c' u" "fs_of E u = me" "cont_tls c' = cont_tls c" "snd J (Err msg)"
    "drop_continuation E c' (u\<lparr>closures := (closures u)(functional c := Empty)\<rparr>) = (d, t)"
    "r = Fail (case d of Val _ \<Rightarrow> Panicked msg | Fail e \<Rightarrow> e)"
proof -
  note p = caller_not_preemptible [OF preempt_docD(1) [OF run_docD(1) [OF doc(1)]] call]
  obtain q c' u where rc: "resume_continuation E U es us (c, s) = (q, (c', u))" by (metis prod.collapse)
  with run p have q: "q = Val (Ok True)"
    by (cases q) (auto simp: resume_def comp_simps elsewhere_def split: result.splits if_splits)
  note res = wp_Val [OF resume_continuation_wp [OF doc call c] rc [unfolded q], simplified]
  then obtain v where v: "closures u (functional c) = Return v" "snd J v" by (auto simp: resumed_def)
  let ?u = "u\<lparr>closures := (closures u)(functional c := Empty)\<rparr>"
  obtain d w where d: "drop_continuation E c' ?u = (d, w)" by fastforce
  from run p rc q v d obtain msg where "v = Err msg" "w = t" "r = Fail (case d of Val _ \<Rightarrow> Panicked msg | Fail e \<Rightarrow> e)"
    by (auto simp: resume_def comp_simps elsewhere_def closure_retrieve_def completion_take_def set_closure_def assign_def
        drop_linger_def split: result.splits outcome.splits prod.splits)
  with that rc q res v d show ?thesis by metis
qed

lemma resume_poison_post:
  assumes doc: "run_doc E U J" "setup_doc E" and call: "caller_ok E me s" and c: "cont_ok E J a g c s" "a \<noteq> me"
    and run: "resume E U es us (Continuation c, s) = (r, (Poison, t))"
  shows "caller_ok E me t \<and> tls_SIGNALER (ptls t me) \<noteq> None \<and> unchanged_besides a (functional c) s t \<and> idle_block a t"
  using doc call c run
proof (rule resume_poisons)
  fix c' u d
  assume r: "resumed E J me a g c s True c' u" "fs_of E u = me"
    and d: "drop_continuation E c' (u\<lparr>closures := (closures u)(functional c := Empty)\<rparr>) = (d, t)"
  let ?u = "u\<lparr>closures := (closures u)(functional c := Empty)\<rparr>"
  have "surroundings (functional c) t = surroundings (functional c) ?u"
    using keepsD [OF keeps_drop_continuation d] r(1) by (simp add: resumed_def)
  from surroundings_eq [OF this] r show ?thesis
    by (auto simp: resumed_def caller_ok_def unchanged_besides_def idle_block_def)
qed

section \<open>What does not depend on the world\<close>

lemma idle_block_world [simp]: "idle_block a (s\<lparr>world := w\<rparr>) = idle_block a s"
  by (simp add: idle_block_def)

lemma cont_ok_world [simp]: "cont_ok E J a g c (s\<lparr>world := w\<rparr>) = cont_ok E J a g c s"
  by (simp add: cont_ok_def cont_state_def)

end
