(* ===== verification/Guarantees.thy ===== *)
theory Guarantees
  imports Machine Contract
begin

text \<open>
  What happens to a preemptible function on its thread: when the timer's signal arrives, when it
  calls a library, when it asks to be paused.
\<close>

section \<open>A function running on the machine\<close>

text \<open>
  The thread whose own block is at \<open>0x100000\<close> executes the function of a block at \<open>0x200000\<close> in
  libset \<open>1\<close>; the function has until \<open>2000000000\<close>, and the clock shows \<open>1000000000\<close>.
\<close>

definition m_frame :: frame where
  "m_frame = \<lparr>fr_fun = 0, fr_group = 1, fr_signal = Some Alarm\<rparr>"

definition m_stack :: "stack reusable deref_adapter" where
  "m_stack = \<lparr>adapted = \<lparr>reusable_value = Some \<lparr>stack_addr = 0, stack_len = STACK_SIZE_BYTES\<rparr>\<rparr>\<rparr>"

definition m_inside :: "group \<Rightarrow> u64 \<Rightarrow> bool \<Rightarrow> (machine, instruction list, nat) process_state" where
  "m_inside g now deferred = (boot m_start)\<lparr>
     world := m_start\<lparr>m_view := \<lparr>v_group = g, v_mask = (if deferred then {14} else {}), v_pending = {14, 26}, v_fs = 0x200000,
       v_errno = (\<lambda>_. 0), v_handler = [14 \<mapsto> m_preempt, 26 \<mapsto> m_preempt]\<rparr>, m_now := now\<rparr>,
     ptls := (\<lambda>_. preempt_tls_default)(
       0x100000 := preempt_tls_default\<lparr>tls_SIGNALER := Some \<lparr>ps_signal = \<lparr>reusable_value = Some Alarm\<rparr>, ps_timer = 7\<rparr>\<rparr>,
       0x200000 := preempt_tls_default\<lparr>tls_SIGNAL := Some 0x100000, tls_ERRNO_LOCATION := Some 1, tls_DEFERRED := deferred\<rparr>),
     ltls := (\<lambda>_. linger_tls_default)(0x200000 := \<lparr>tls_BOOTSTRAP = None, tls_TASK = task_default\<lparr>task_checkpoint :=
       Some \<lparr>ctx_mcontext = Call_site, ctx_mask = {}, ctx_stack = m_stack\<rparr>\<rparr>, tls_DEADLINE = 2000000000\<rparr>)\<rparr>"

lemma m_inside_run_doc: "run_doc (m_platform debug) m_user (\<lambda>_. True, \<lambda>_. True)"
  by (simp add: run_doc_def m_preempt_doc m_docs m_clock_doc m_user_doc user_keeps_def split: user_op.split)

lemma m_locates: "locates (m_platform debug) 1 (Some 1)"
  by (simp add: locates_def m_group_limit_def)

lemma m_inside_in_function:
  "in_function (m_platform debug) (\<lambda>_. True, \<lambda>_. True) Alarm 0x200000 m_stack (Running m_frame prog) (m_inside 1 now False)"
  "in_function (m_platform debug) (\<lambda>_. True, \<lambda>_. True) Alarm 0x200000 m_stack (In_library m_frame prog) (m_inside 0 now deferred)"
  using m_locates
  by (auto simp: in_function_def m_inside_def boot_def m_frame_def signal_in_def preempt_tls_default_def task_default_def)

lemma m_inside_deliverable:
  "deliverable (m_platform debug) (world (m_inside g now False)) 14"
  "deliverable (m_platform debug) (world (m_inside g now False)) 26"
  by (simp_all add: deliverable_def m_inside_def)

section \<open>Executions\<close>

text \<open>
  C13.  An execution comes back.  From a state in which the thread is inside a preemptible
  function, and for every sequence of events, the execution either has not ended when the events
  have, or it is back at its call site with the function paused or finished.  It neither panics
  nor aborts nor does anything undefined, and it changes nothing but the world, the thread-local
  variables of its own block and its own closure.
\<close>

theorem execution_comes_back:
  assumes "run_doc E U J" and "in_function E J no fs k c s" and "execute E U es c s = (r, t)"
  shows "touches fs (fr_fun (frame_of c)) s t \<and>
    (r = Fail Unfinished \<or> r = Val () \<and> came_back E J no fs k (frame_of c) t)"
  using assms by (rule execute_comes_back)

theorem execution_comes_back_witness:
  "\<exists>r t. execute (m_platform True) m_user [Delivers Alarm, Delivers VirtualAlarm, Steps, Steps, Steps]
      (Running m_frame [Give 3]) (m_inside 1 5 False) = (r, t) \<and>
    touches 0x200000 0 (m_inside 1 5 False) t \<and>
    (r = Fail Unfinished \<or> r = Val () \<and>
      came_back (m_platform True) (\<lambda>_. True, \<lambda>_. True) Alarm 0x200000 m_stack m_frame t)"
proof -
  obtain r t where run: "execute (m_platform True) m_user [Delivers Alarm, Delivers VirtualAlarm, Steps, Steps, Steps]
      (Running m_frame [Give 3]) (m_inside 1 5 False) = (r, t)" by fastforce
  from execution_comes_back [OF m_inside_run_doc m_inside_in_function(1) run] run show ?thesis
    by (simp add: m_frame_def)
qed

section \<open>The timer\<close>

text \<open>A tick at or after the deadline.\<close>

lemma deliver_pauses:
  assumes doc: "run_doc E U J" and inv: "in_function E J no fs k c s" and "\<not> in_library c"
    and now: "time_is E (k_deliver E (signal_as_c_int no) (world s)) now" and "tls_DEADLINE (ltls s fs) \<le> now"
  shows "\<exists>t. deliver E no c s = (Val Back, t) \<and>
    v_group (view E (world t)) = group_SHARED E \<and> signal_as_c_int no \<in> v_mask (view E (world t)) \<and>
    paused_at c k (tls_TASK (ltls t fs)) \<and>
    task_errno (tls_TASK (ltls t fs)) = Some (v_errno (view E (world s)) (fr_group (frame_of c))) \<and>
    task_yielded (tls_TASK (ltls t fs)) = (tls_DEADLINE (ltls s fs) = 0)"
proof -
  note laws = kernel_laws [OF run_docD(3) [OF doc]] preempt_laws [OF run_docD(1) [OF doc]]
  let ?s = "s\<lparr>world := k_deliver E (signal_as_c_int no) (world s)\<rparr>"
  let ?uc = "\<lparr>uc_mcontext = Interrupted c, uc_sigmask = v_mask (view E (world s))\<rparr>"
  obtain cp where cp: "task_checkpoint (tls_TASK (ltls_at E ?s)) = Some cp" "ctx_mcontext cp = Call_site" "ctx_stack cp = k"
    using inv by (auto simp: in_function_def ltls_at_def laws)
  obtain cp' uc' where sw: "tt_swap E cp ?uc = (cp', uc')" by fastforce
  have d: "ctx_mcontext cp' = Interrupted c" "uc_mcontext uc' = Call_site" "ctx_stack cp' = k"
    using run_docD(2) [OF doc] sw cp
    by (auto simp: context_doc_def swap_doc_def dest!: spec [of _ cp] spec [of _ ?uc])
  have pre: "signal_at E ?s = Some no" "v_group (view E (world ?s)) \<noteq> group_SHARED E"
    "time_is E (world ?s) now" "tls_DEADLINE (ltls_at E ?s) \<le> now"
    using inv assms(3-5) by (simp_all add: in_function_def laws ltls_at_def)
  show ?thesis
    using preempt_pauses [OF run_docD(1) [OF doc] pre cp(1) sw] inv d assms(3)
    by (simp add: deliver_run comp_simps goto_def paused_at_def in_function_def laws tls_at_def ltls_at_def
        disabled_world_view [OF run_docD(1) [OF doc]])
qed

text \<open>
  C14.  A function is paused once its deadline has passed.  When the thread's own signal reaches a
  function outside every library and the clock shows its deadline or later, control returns to
  the call site: the thread is in the shared libset with the signal blocked, and \<^verbatim>\<open>TASK\<close> holds
  the point of interruption, the function's \<^verbatim>\<open>errno\<close>, and that the function yielded just if the
  deadline was zero.
\<close>

theorem timeout_pauses:
  assumes "run_doc E U J" and "in_function E J no fs k c s" and "\<not> in_library c"
    and "time_is E (k_deliver E (signal_as_c_int no) (world s)) now" and "tls_DEADLINE (ltls s fs) \<le> now"
  shows "\<exists>t. deliver E no c s = (Val Back, t) \<and>
    v_group (view E (world t)) = group_SHARED E \<and> signal_as_c_int no \<in> v_mask (view E (world t)) \<and>
    paused_at c k (tls_TASK (ltls t fs)) \<and>
    task_errno (tls_TASK (ltls t fs)) = Some (v_errno (view E (world s)) (fr_group (frame_of c))) \<and>
    task_yielded (tls_TASK (ltls t fs)) = (tls_DEADLINE (ltls s fs) = 0)"
  using assms by (rule deliver_pauses)

theorem timeout_pauses_witness:
  "\<exists>t. deliver (m_platform True) Alarm (Running m_frame [Give 3]) (m_inside 1 2000000000 False) = (Val Back, t) \<and>
    v_group (m_view (world t)) = 0 \<and> 14 \<in> v_mask (m_view (world t)) \<and>
    paused_at (Running m_frame [Give 3]) m_stack (tls_TASK (ltls t 0x200000)) \<and>
    task_errno (tls_TASK (ltls t 0x200000)) = Some 0 \<and> \<not> task_yielded (tls_TASK (ltls t 0x200000))"
  using timeout_pauses [OF m_inside_run_doc m_inside_in_function(1) [where debug = True and now = 2000000000 and prog = "[Give 3]"] _ m_time_is]
  by (simp add: m_inside_def m_frame_def)

text \<open>
  C15.  A function is not paused before its deadline.  When the thread's own signal reaches it
  earlier, it goes on where it was; only that the signal is no longer pending has changed in what
  the kernel knows of the thread.
\<close>

theorem early_tick_spares:
  assumes doc: "run_doc E U J" and inv: "in_function E J no fs k c s" and "\<not> in_library c"
    and now: "time_is E (k_deliver E (signal_as_c_int no) (world s)) now" and "now < tls_DEADLINE (ltls s fs)"
  shows "\<exists>w. deliver E no c s = (Val (At c), s\<lparr>world := w\<rparr>) \<and>
    view E w = (view E (world s))\<lparr>v_pending := v_pending (view E (world s)) - {signal_as_c_int no}\<rparr>"
proof -
  note laws = kernel_laws [OF run_docD(3) [OF doc]] preempt_laws [OF run_docD(1) [OF doc]]
  let ?s = "s\<lparr>world := k_deliver E (signal_as_c_int no) (world s)\<rparr>"
  have pre: "signal_at E ?s = Some no" "v_group (view E (world ?s)) \<noteq> group_SHARED E"
    "time_is E (world ?s) now" "now < tls_DEADLINE (ltls_at E ?s)"
    using inv assms(3-5) by (simp_all add: in_function_def laws ltls_at_def)
  show ?thesis
    using preempt_spares [OF run_docD(1) [OF doc] pre]
    by (intro exI [of _ "k_sigreturn E (v_mask (view E (world s))) (tt_set_errno E (tt_errno E (world ?s)) (world ?s))"])
      (simp add: deliver_run comp_simps goto_def laws)
qed

theorem early_tick_spares_witness:
  "\<exists>w. deliver (m_platform True) Alarm (Running m_frame [Give 3]) (m_inside 1 1999999999 False) =
      (Val (At (Running m_frame [Give 3])), (m_inside 1 1999999999 False)\<lparr>world := w\<rparr>) \<and>
    v_pending (m_view w) = {26}"
  using early_tick_spares [OF m_inside_run_doc m_inside_in_function(1) [where debug = True and now = 1999999999 and prog = "[Give 3]"] _ m_time_is]
  by (simp add: m_inside_def m_frame_def) (metis (no_types, lifting) kview.select_convs(3) kview.update_convs(3))

section \<open>Shared libraries\<close>

text \<open>
  C17.  Nothing is preempted inside a shared library.  When the thread's own signal arrives while
  the function is in a library, the call goes on; the signal is blocked, the preemption is noted
  as deferred, and the deadline, \<^verbatim>\<open>TASK\<close> and every \<^verbatim>\<open>errno\<close> are as before.
\<close>

theorem library_defers:
  assumes doc: "run_doc E U J" and inv: "in_function E J no fs k (In_library fr f) s"
  shows "\<exists>t. deliver E no (In_library fr f) s = (Val (At (In_library fr f)), t) \<and>
    tls_DEFERRED (ptls t fs) \<and> signal_as_c_int no \<in> v_mask (view E (world t)) \<and>
    ltls t = ltls s \<and> closures t = closures s \<and>
    v_errno (view E (world t)) = v_errno (view E (world s)) \<and> v_group (view E (world t)) = group_SHARED E"
proof -
  note laws = kernel_laws [OF run_docD(3) [OF doc]] preempt_laws [OF run_docD(1) [OF doc]]
  let ?s = "s\<lparr>world := k_deliver E (signal_as_c_int no) (world s)\<rparr>"
  have pre: "signal_at E ?s = Some no" "v_group (view E (world ?s)) = group_SHARED E"
    using inv by (simp_all add: in_function_def laws)
  show ?thesis
    using preempt_defers [OF run_docD(1) [OF doc] pre] inv
    by (simp add: deliver_run comp_simps goto_def laws in_function_def tls_at_def)
qed

theorem library_defers_witness:
  "\<exists>t. deliver (m_platform True) Alarm (In_library m_frame []) (m_inside 0 2000000000 False) =
      (Val (At (In_library m_frame [])), t) \<and>
    tls_DEFERRED (ptls t 0x200000) \<and> 14 \<in> v_mask (m_view (world t)) \<and>
    ltls t = ltls (m_inside 0 2000000000 False) \<and> closures t = closures (m_inside 0 2000000000 False) \<and>
    v_errno (m_view (world t)) = (\<lambda>_. 0) \<and> v_group (m_view (world t)) = 0"
  using library_defers [OF m_inside_run_doc m_inside_in_function(2)
      [where debug = True and now = 2000000000 and prog = "[]" and deferred = False]]
  by (simp add: m_inside_def m_frame_def)

text \<open>
  C16.  No deferred preemption is lost.  When a library call returns during which a preemption was
  deferred, the thread's signal is pending and unblocked in the function's libset before the
  function executes anything: its handler is the next thing to run.
\<close>

theorem deferred_preemption_delivered:
  assumes doc: "run_doc E U J" and inv: "in_function E J no fs k (In_library fr f) s"
    and "tls_DEFERRED (ptls s fs)" and "v_handler (view E (world s)) (signal_as_c_int no) = Some (addr_of_preempt E)"
  shows "\<exists>t. thread_event E U Steps (In_library fr f) s = (Val (At (Running fr f)), t) \<and>
    v_group (view E (world t)) = fr_group fr \<and> \<not> tls_DEFERRED (ptls t fs) \<and>
    enabled E (Delivers no) (Running fr f) (world t) \<and> \<not> enabled E Steps (Running fr f) (world t)"
proof -
  obtain w e where r: "library_returns E fr s =
      (Val (), s\<lparr>world := w, ptls := (ptls s)(fs := (ptls s fs)\<lparr>tls_DEFERRED := False\<rparr>)\<rparr>)"
    and v: "view E w = (view E (world s))\<lparr>v_group := fr_group fr,
      v_mask := v_mask (view E (world s)) - raised (ptls s fs) no,
      v_pending := v_pending (view E (world s)) \<union> raised (ptls s fs) no, v_errno := e\<rparr>"
    using inv by (auto simp: in_function_def intro: library_returns_run [OF run_docD(1) [OF doc]])
  show ?thesis
    using assms(3,4) v by (simp add: r comp_simps raised_def deliverable_def interrupted_def)
qed

theorem deferred_preemption_delivered_witness:
  "\<exists>t. thread_event (m_platform True) m_user Steps (In_library m_frame []) (m_inside 0 5 True) =
      (Val (At (Running m_frame [])), t) \<and>
    v_group (m_view (world t)) = 1 \<and> \<not> tls_DEFERRED (ptls t 0x200000) \<and>
    enabled (m_platform True :: (machine, instruction list) platform) (Delivers Alarm) (Running m_frame ([] :: instruction list)) (world t) \<and>
    \<not> enabled (m_platform True :: (machine, instruction list) platform) Steps (Running m_frame ([] :: instruction list)) (world t)"
proof -
  have "tls_DEFERRED (ptls (m_inside 0 5 True) 0x200000)"
    "v_handler (view (m_platform True) (world (m_inside 0 5 True))) (signal_as_c_int Alarm) = Some (addr_of_preempt (m_platform True))"
    by (simp_all add: m_inside_def)
  from deferred_preemption_delivered [OF m_inside_run_doc m_inside_in_function(2)
      [where debug = True and now = 5 and prog = "[]" and deferred = True] this]
  show ?thesis by (simp add: m_frame_def)
qed

text \<open>
  C19.  A signal of another thread does not disturb a function.  It is blocked from then on, and
  nothing else that the kernel knows of the thread has changed but that it is not pending.
\<close>

theorem foreign_signal_blocked:
  assumes doc: "run_doc E U J" and inv: "in_function E J no fs k c s" and "no' \<noteq> no"
  shows "\<exists>w. deliver E no' c s = (Val (At c), s\<lparr>world := w\<rparr>) \<and>
    view E w = (view E (world s))\<lparr>v_pending := v_pending (view E (world s)) - {signal_as_c_int no'},
      v_mask := insert (signal_as_c_int no') (v_mask (view E (world s)))\<rparr>"
proof -
  note laws = kernel_laws [OF run_docD(3) [OF doc]] preempt_laws [OF run_docD(1) [OF doc]]
  let ?s = "s\<lparr>world := k_deliver E (signal_as_c_int no') (world s)\<rparr>"
  have "signal_at E ?s = Some no" using inv by (simp add: in_function_def laws)
  with preempt_irrelevant [OF run_docD(1) [OF doc], where s = ?s and no = no'] assms(3) show ?thesis
    by (intro exI [of _ "k_sigreturn E (insert (signal_as_c_int no') (v_mask (view E (world s))))
          (tt_set_errno E (tt_errno E (world ?s)) (world ?s))"])
      (simp add: deliver_run comp_simps goto_def laws)
qed

theorem foreign_signal_blocked_witness:
  "\<exists>w. deliver (m_platform True) VirtualAlarm (Running m_frame []) (m_inside 1 5 False) =
      (Val (At (Running m_frame [])), (m_inside 1 5 False)\<lparr>world := w\<rparr>) \<and>
    v_pending (m_view w) = {14} \<and> v_mask (m_view w) = {26}"
proof -
  obtain w where "deliver (m_platform True) VirtualAlarm (Running m_frame []) (m_inside 1 5 False) =
      (Val (At (Running m_frame [])), (m_inside 1 5 False)\<lparr>world := w\<rparr>)"
    "m_view w = (m_view (world (m_inside 1 5 False)))\<lparr>v_pending := v_pending (m_view (world (m_inside 1 5 False))) - {26},
      v_mask := insert 26 (v_mask (m_view (world (m_inside 1 5 False))))\<rparr>"
    using foreign_signal_blocked [OF m_inside_run_doc m_inside_in_function(1) [where debug = True], where no' = VirtualAlarm]
    by auto
  then show ?thesis by (auto simp: m_inside_def)
qed

section \<open>Yielding\<close>

lemma pauses_step:
  assumes doc: "run_doc E U J" and inv: "in_function E J no fs k (Running fr f) s"
    and "U f (world s) = (Pauses f', w)"
    and "v_handler (view E (world s)) (signal_as_c_int no) = Some (addr_of_preempt E)"
  obtains t where "thread_event E U Steps (Running fr f) s = (Val (At (Running fr f')), t)"
    and "in_function E J no fs k (Running fr f') t" and "tls_DEADLINE (ltls t fs) = 0"
    and "deliverable E (world t) (signal_as_c_int no)"
proof -
  note d = run_docD(1) [OF doc]
  have w: "sets_errno E (world s) w"
    using run_docD(5) [OF doc] assms(3) unfolding user_doc_def by (metis snd_conv)
  let ?s = "s\<lparr>world := group_thread_set E (group_SHARED E) w\<rparr>"
  let ?t = "?s\<lparr>ltls := (ltls s)(fs := (ltls s fs)\<lparr>tls_DEADLINE := 0\<rparr>),
    world := masked E Block {signal_as_c_int no} (world ?s),
    ptls := (ptls s)(fs := (ptls s fs)\<lparr>tls_DEFERRED := True\<rparr>)\<rparr>"
  have p: "pause E ?s = (Val (), ?t)"
    using inv w by (subst pause_run [OF d, of _ no]) (auto simp: in_function_def sets_errno_def preempt_laws [OF d])
  have t: "fs_of E ?t = fs" "signal_in (ptls ?t) fs = Some no"
    "locates E (fr_group fr) (tls_ERRNO_LOCATION (ptls ?t fs))"
    using inv w by (auto simp: in_function_def sets_errno_def preempt_laws [OF d])
  obtain w' e where r: "library_returns E fr ?t =
      (Val (), ?t\<lparr>world := w', ptls := (ptls ?t)(fs := (ptls ?t fs)\<lparr>tls_DEFERRED := False\<rparr>)\<rparr>)"
    and v: "view E w' = (view E (world ?t))\<lparr>v_group := fr_group fr,
      v_mask := v_mask (view E (world ?t)) - raised (ptls ?t fs) no,
      v_pending := v_pending (view E (world ?t)) \<union> raised (ptls ?t fs) no, v_errno := e\<rparr>"
    using library_returns_run [OF d t] by blast
  let ?u = "?t\<lparr>world := w', ptls := (ptls ?t)(fs := (ptls ?t fs)\<lparr>tls_DEFERRED := False\<rparr>)\<rparr>"
  have u: "thread_event E U Steps (Running fr f) s = (Val (At (Running fr f')), ?u)"
    using assms(3) p r by (simp add: user_step_def comp_simps)
  have "goes_on E J no fs k (Running fr f) s (user_step E U fr f s)"
    by (rule goes_on_user_step [OF doc inv])
  also have "user_step E U fr f s = (Val (At (Running fr f')), ?u)" using u by simp
  finally have "in_function E J no fs k (Running fr f') ?u" by (simp add: goes_on_def)
  moreover have "deliverable E (world ?u) (signal_as_c_int no)"
    using v w assms(4) by (auto simp: deliverable_def raised_def sets_errno_def preempt_laws [OF d])
  ultimately show ?thesis using u by (intro that [of ?u]) simp_all
qed

text \<open>
  C18.  \<^verbatim>\<open>pause\<close> yields at once.  When a function calls \<^verbatim>\<open>pause\<close>, whatever its deadline was, the
  thread's signal becomes deliverable before the function executes anything more, and its
  handler returns to the call site with the function paused right after the call, marked as
  having yielded, with the \<^verbatim>\<open>errno\<close> it left.
\<close>

theorem pause_yields:
  assumes doc: "run_doc E U J" and inv: "in_function E J no fs k (Running fr f) s"
    and "U f (world s) = (Pauses f', w)" and "\<not> interrupted E (world s)"
    and "v_handler (view E (world s)) (signal_as_c_int no) = Some (addr_of_preempt E)"
  shows "\<exists>t. execute E U (Steps # Delivers no # es) (Running fr f) s = (Val (), t) \<and>
    paused_at (Running fr f') k (tls_TASK (ltls t fs)) \<and> task_yielded (tls_TASK (ltls t fs))"
proof -
  obtain t where t: "thread_event E U Steps (Running fr f) s = (Val (At (Running fr f')), t)"
    "in_function E J no fs k (Running fr f') t" "tls_DEADLINE (ltls t fs) = 0"
    "deliverable E (world t) (signal_as_c_int no)"
    using pauses_step [OF doc inv assms(3,5)] .
  obtain now where now: "time_is E (k_deliver E (signal_as_c_int no) (world t)) now" using doc by (rule in_function_clock)
  obtain u where u: "deliver E no (Running fr f') t = (Val Back, u)"
    "paused_at (Running fr f') k (tls_TASK (ltls u fs))" "task_yielded (tls_TASK (ltls u fs)) = (tls_DEADLINE (ltls t fs) = 0)"
    using deliver_pauses [OF doc t(2) _ now] t(3) by auto
  show ?thesis
    using t u assms(4) by (simp add: bind_run comp_simps del: thread_event.simps(4))
qed

theorem pause_yields_witness:
  "\<exists>t. execute (m_platform True) m_user [Steps, Delivers Alarm] (Running m_frame [Yield, Give 3])
      ((m_inside 1 5 False)\<lparr>world := (world (m_inside 1 5 False))\<lparr>m_view := (m_view (world (m_inside 1 5 False)))\<lparr>v_pending := {}\<rparr>\<rparr>\<rparr>) = (Val (), t) \<and>
    paused_at (Running m_frame [Give 3]) m_stack (tls_TASK (ltls t 0x200000)) \<and> task_yielded (tls_TASK (ltls t 0x200000))"
proof (rule pause_yields [OF m_inside_run_doc])
  show "in_function (m_platform True) (\<lambda>_. True, \<lambda>_. True) Alarm 0x200000 m_stack (Running m_frame [Yield, Give 3])
      ((m_inside 1 5 False)\<lparr>world := (world (m_inside 1 5 False))\<lparr>m_view := (m_view (world (m_inside 1 5 False)))\<lparr>v_pending := {}\<rparr>\<rparr>\<rparr>)"
    using m_inside_in_function(1) [where debug = True and now = 5 and prog = "[Yield, Give 3]"] by (simp add: in_function_def)
qed (simp_all add: interrupted_def, simp add: m_inside_def)

end
