(* ===== verification/Thread_Guarantees.thy ===== *)
theory Thread_Guarantees
  imports Machine Contract
begin

text \<open>
  What a thread is guaranteed by the parts that surround a preemptible function: the deadline,
  the thread-control block, the preemption signal, and turning preemption on and off.
\<close>

section \<open>Deadlines\<close>

text \<open>
  C30.  A budget becomes a deadline.  While the clock and the budget, both in nanoseconds, add up
  to less than \<open>2\<^sup>6\<^sup>4\<close>, \<^verbatim>\<open>stamp\<close> replaces the budget by exactly that sum.  The largest budget,
  which stands for no limit, becomes the deadline \<open>2\<^sup>6\<^sup>4 - 1\<close>.
\<close>

theorem stamp_deadline:
  assumes "time_is L (world s) now" and "tls_DEADLINE (ltls_at L s) = us"
    and "unat now + unat us * 1000 < 2 ^ 64 \<or> us = u64_MAX"
  shows "\<exists>t. stamp L s = (Val (), t) \<and> world t = world s \<and>
    unat (tls_DEADLINE (ltls_at L t)) = (if us = u64_MAX then 2 ^ 64 - 1 else unat now + unat us * 1000)"
proof -
  have "\<not> debug_build L \<or> unat us * 1000 \<ge> 2 ^ 64 \<or> unat now + unat us * 1000 < 2 ^ 64"
    using assms(3) by (auto simp: unat_u64_MAX)
  moreover have "unat (deadline_after us now) = (if us = u64_MAX then 2 ^ 64 - 1 else unat now + unat us * 1000)"
    using assms(3) by (auto simp: deadline_after_def unat_u64_MAX unat_word_ariths)
  ultimately show ?thesis
    using stamp_run [OF assms(1,2)] by (simp add: ltls_at_def)
qed

text \<open>The machine at one second past the epoch, a function's block installed, its budget \<open>us\<close>.\<close>

definition m_budget :: "u64 \<Rightarrow> (machine, instruction list, nat) process_state" where
  "m_budget us = (boot m_start)\<lparr>ltls := (\<lambda>_. linger_tls_default\<lparr>tls_DEADLINE := us\<rparr>)\<rparr>"

lemma m_budget_time: "time_is (m_platform debug) (world (m_budget us)) 1000000000"
  using m_time_is [of debug "world (m_budget us)"] by (simp add: m_budget_def boot_def m_start_def)

lemma m_budget_deadline: "tls_DEADLINE (ltls_at (m_platform debug) (m_budget us)) = us"
  by (simp add: m_budget_def ltls_at_def)

theorem stamp_deadline_witness:
  "\<exists>t. stamp (m_platform True :: (machine, instruction list) platform) (m_budget 5) = (Val (), t) \<and> world t = world (m_budget 5) \<and>
    unat (tls_DEADLINE (ltls_at (m_platform True :: (machine, instruction list) platform) t)) = 1000005000"
  using stamp_deadline [OF m_budget_time m_budget_deadline, of 5 True] by (simp add: u64_MAX_def)

text \<open>
  C32.  A budget that is too large to be counted in nanoseconds and not larger than the clock's
  reading is spent at once: \<^verbatim>\<open>stamp\<close> leaves it as the deadline, which then lies in the past, so
  that the next tick of the timer pauses the function.
\<close>

theorem huge_budget_expired:
  assumes "time_is L (world s) now" and "tls_DEADLINE (ltls_at L s) = us"
    and "2 ^ 64 \<le> unat us * 1000" and "us \<le> now"
  shows "\<exists>t. stamp L s = (Val (), t) \<and> world t = world s \<and> tls_DEADLINE (ltls_at L t) \<le> now"
  using stamp_run [OF assms(1,2)] assms(3,4) by (simp add: deadline_after_def ltls_at_def)

text \<open>The machine in the year 2023, where the clock reads more than \<open>2\<^sup>6\<^sup>4 / 1000\<close> nanoseconds.\<close>

definition m_today :: "(machine, instruction list, nat) process_state" where
  "m_today = (m_budget 20000000000000000)\<lparr>world := m_start\<lparr>m_now := 1700000000000000000\<rparr>\<rparr>"

theorem huge_budget_expired_witness:
  "\<exists>t. stamp (m_platform True :: (machine, instruction list) platform) m_today = (Val (), t) \<and> world t = world m_today \<and>
    tls_DEADLINE (ltls_at (m_platform True :: (machine, instruction list) platform) t) \<le> 1700000000000000000"
proof (rule huge_budget_expired)
  show "time_is (m_platform True :: (machine, instruction list) platform) (world m_today) 1700000000000000000"
    using m_time_is [of True "world m_today"] by (simp add: m_today_def)
  show "tls_DEADLINE (ltls_at (m_platform True :: (machine, instruction list) platform) m_today) = 20000000000000000"
    by (simp add: m_today_def m_budget_def ltls_at_def)
qed simp_all

text \<open>
  C31.  Between the two, the sum overflows.  A debug build panics; a release build wraps around,
  and the deadline lies in the past.
\<close>

theorem budget_overflows:
  assumes "time_is L (world s) now" and "tls_DEADLINE (ltls_at L s) = us"
    and "unat us * 1000 < 2 ^ 64" and "2 ^ 64 \<le> unat now + unat us * 1000"
  shows "if debug_build L then stamp L s = (Fail (Panicked ''attempt to add with overflow''), s)
    else \<exists>t. stamp L s = (Val (), t) \<and> tls_DEADLINE (ltls_at L t) < now"
proof (cases "debug_build L")
  case True
  then show ?thesis using stamp_overflow [OF assms(1,2)] assms(3,4) by simp
next
  case False
  have u: "unat (us * 1000) = unat us * 1000" using assms(3) by (simp add: unat_word_ariths)
  have "unat (now + us * 1000) = unat now + unat us * 1000 - 2 ^ 64"
    using u assms(3,4) unsigned_less [where ?'a = nat, of now]
    by (simp add: unat_word_ariths(1) mod_if)
  then have "now + us * 1000 < now"
    using assms(3,4) by (simp add: word_less_nat_alt)
  then show ?thesis
    using False stamp_run [OF assms(1,2)] assms(3) by (simp add: deadline_after_def ltls_at_def)
qed

theorem budget_overflows_witness:
  "stamp (m_platform True :: (machine, instruction list) platform) (m_budget 18446744073709551) =
    (Fail (Panicked ''attempt to add with overflow''), m_budget 18446744073709551)"
  using budget_overflows [OF m_budget_time m_budget_deadline, of "18446744073709551" True] by simp

section \<open>Thread-control blocks\<close>

text \<open>
  C24.  A block that was installed comes back, and the thread pointer with it.  Install an owned
  block, run anything at all, and uninstall: where that returns, the thread pointer is what it
  was, and the result is the same block, or an error from installing it.
\<close>

theorem tcb_bracket:
  assumes "prctl_doc G"
    and "or_return (install G \<lparr>tcb_fs = Some (Mut a)\<rparr> g) (\<lambda>gd. andthen body (uninstall G gd)) s = (Val r, t)"
  shows "fs_of G t = fs_of G s \<and> (r = Ok \<lparr>tcb_fs = Some (Mut a)\<rparr> \<or> (\<exists>e. r = Err e))"
  using tcb.bracket [OF _ assms(2)] assms(1) by (auto simp: owned_block_def)

theorem tcb_bracket_witness:
  "\<exists>r t. or_return (install (m_gotcha True) \<lparr>tcb_fs = Some (Mut 0x200000)\<rparr> 1)
      (\<lambda>gd. andthen (ret ()) (uninstall (m_gotcha True) gd)) (boot m_start :: (machine, nat, nat) process_state) = (Val r, t) \<and>
    v_fs (m_view (world t)) = 0x100000 \<and> r = Ok \<lparr>tcb_fs = Some (Mut 0x200000)\<rparr>"
proof -
  let ?m = "or_return (install (m_gotcha True) \<lparr>tcb_fs = Some (Mut 0x200000)\<rparr> 1)
      (\<lambda>gd. andthen (ret ()) (uninstall (m_gotcha True) gd)) (boot m_start :: (machine, nat, nat) process_state)"
  have doc: "prctl_doc (m_gotcha True)"
    by (auto simp: prctl_doc_def machine_defs)
  obtain t where run: "?m = (Val (Ok \<lparr>tcb_fs = Some (Mut 0x200000)\<rparr>), t)"
    by (simp add: install_def install_unguarded_def unguarded_parent_def on_panic_def uninstall_def drop_tcb_guard_def
        tcb_current_def arch_prctl_get_def arch_prctl_set_def install_ctype_def write_word_def comp_simps machine_defs)
  from tcb_bracket [OF doc run] run show ?thesis by (simp add: machine_defs boot_def m_start_def)
qed

text \<open>
  C25.  An installed block stands in for the thread's own.  It has the thread's pointer guard and
  the word by which the kernel and the C library know the thread; the other words of the block,
  and all other blocks, are untouched, and everything else the kernel knows of the thread is too.
\<close>

theorem install_inherits:
  assumes "prctl_doc G" and "install G \<lparr>tcb_fs = Some (Mut a)\<rparr> grp s = (Val (Ok gd), t)"
  shows "view G (world t) = (view G (world s))\<lparr>v_fs := a\<rparr> \<and>
    tcb_words t a POINTER_GUARD = tcb_words s (fs_of G s) POINTER_GUARD \<and>
    tcb_words t a KERNEL_THREAD = tcb_words s (fs_of G s) KERNEL_THREAD \<and>
    (\<forall>b i. b \<noteq> a \<or> i \<notin> {POINTER_GUARD, KERNEL_THREAD} \<longrightarrow> tcb_words t b i = tcb_words s b i)"
  using install_Ok(2,3) [OF assms]
  by (auto simp: inherit_def POINTER_GUARD_def KERNEL_THREAD_def)

theorem install_inherits_witness:
  "\<exists>gd t. install (m_gotcha True) \<lparr>tcb_fs = Some (Mut 0x200000)\<rparr> 1
      ((boot m_start :: (machine, nat, nat) process_state)\<lparr>tcb_words := \<lambda>a i. a + of_nat i\<rparr>) = (Val (Ok gd), t) \<and>
    v_fs (m_view (world t)) = 0x200000 \<and> tcb_words t 0x200000 6 = 0x100006 \<and> tcb_words t 0x200000 7 = 0x200007"
proof -
  let ?s = "(boot m_start :: (machine, nat, nat) process_state)\<lparr>tcb_words := \<lambda>a i. a + of_nat i\<rparr>"
  have doc: "prctl_doc (m_gotcha True)"
    by (auto simp: prctl_doc_def machine_defs)
  obtain gd t where run: "install (m_gotcha True) \<lparr>tcb_fs = Some (Mut 0x200000)\<rparr> 1 ?s = (Val (Ok gd), t)"
    by (simp add: install_def install_unguarded_def unguarded_parent_def on_panic_def
        tcb_current_def arch_prctl_get_def arch_prctl_set_def install_ctype_def write_word_def comp_simps machine_defs)
  from install_inherits [OF doc run] run show ?thesis
    by (simp add: machine_defs boot_def m_start_def POINTER_GUARD_def KERNEL_THREAD_def)
qed

section \<open>Preemption signals\<close>

text \<open>Every call that sets up a preemption signal succeeds; \<^verbatim>\<open>timer_settime\<close> only for a valid interval.\<close>

definition setup_succeeds :: "('w, 'z) libc_scheme \<Rightarrow> bool" where
  "setup_succeeds L \<longleftrightarrow> (\<forall>no act w. fst (fst (c_sigaction L no act w)) = 0) \<and>
     (\<forall>c e w. fst (fst (c_timer_create L c e w)) = 0) \<and>
     (\<forall>i f it w. itimerspec_valid it \<longrightarrow> fst (fst (c_timer_settime L i f it w)) = 0)"

lemma quantum_fits [simp]: "i64_mul_checked debug QUANTUM_MICROSECS 1000 = ret 100000"
  by (simp add: i64_mul_checked_def QUANTUM_MICROSECS_def)

lemma quantum_valid [simp]:
  "itimerspec_valid \<lparr>it_interval = \<lparr>tv_sec = 0, tv_nsec = 100000\<rparr>, it_value = \<lparr>tv_sec = 0, tv_nsec = 100000\<rparr>\<rparr>"
  by (simp add: itimerspec_valid_def timespec_valid_def)

abbreviation each_quantum :: itimerspec where
  "each_quantum \<equiv> \<lparr>it_interval = \<lparr>tv_sec = 0, tv_nsec = 100000\<rparr>, it_value = \<lparr>tv_sec = 0, tv_nsec = 100000\<rparr>\<rparr>"

text \<open>The worlds \<^verbatim>\<open>PreemptionSignal::new\<close> goes through, while its calls succeed: the handler, the mask, and the timer.\<close>

definition handled_world :: "('w, 'z) libc_scheme \<Rightarrow> handler \<Rightarrow> signal \<Rightarrow> 'w \<Rightarrow> 'w" where
  "handled_world L h no w = masked L Block {signal_as_c_int no}
     (snd (c_sigaction L (signal_as_c_int no) (Some (sigaction_new h {} (or SA_SIGINFO SA_RESTART))) w))"

definition timer_made :: "('w, 'z) libc_scheme \<Rightarrow> handler \<Rightarrow> signal \<Rightarrow> 'w \<Rightarrow> (c_int \<times> timer) \<times> 'w" where
  "timer_made L h no w = c_timer_create L (clock_as_c_int Real) (sigevent_signal L no) (handled_world L h no w)"

lemma handled_world_view:
  assumes "setup_doc G" and "\<And>no act w. fst (fst (c_sigaction G no act w)) = 0"
  shows "view G (handled_world G h no w) = (view G w)\<lparr>v_handler := (v_handler (view G w))(signal_as_c_int no \<mapsto> h),
      v_mask := insert (signal_as_c_int no) (v_mask (view G w))\<rparr>"
proof -
  have "view G (snd (c_sigaction G (signal_as_c_int no) (Some (sigaction_new h {} f)) w)) =
      (view G w)\<lparr>v_handler := (v_handler (view G w))(signal_as_c_int no \<mapsto> h)\<rparr>" for f
    using setup_docD(2) [OF assms(1)] assms(2) by (simp add: sigaction_doc_def split_beta sigaction_new_def)
  then show ?thesis by (simp add: handled_world_def preempt_laws [OF setup_docD(1) [OF assms(1)]])
qed

lemma timer_made_timers:
  assumes "armed_doc G tmr" and "fst (fst (timer_made G h no w)) = 0"
  shows "tmr (snd (timer_made G h no w)) =
    (tmr w)(snd (fst (timer_made G h no w)) \<mapsto> (clock_as_c_int Real, sigevent_signal G no, None))"
  using assms(2) by (simp add: timer_made_def handled_world_def masked_def armed_laws [OF assms(1)])

lemma preemption_signal_arm_steps:
  assumes "setup_doc G" and "\<And>no act w. fst (fst (c_sigaction G no act w)) = 0" and "\<And>c e w. fst (fst (c_timer_create G c e w)) = 0"
  shows "preemption_signal_arm G h QUANTUM_MICROSECS \<lparr>reusable_value = Some no\<rparr> s =
    or_return (timer_settime G (snd (fst (timer_made G h no (world s)))) False each_quantum) (\<lambda>_.
      ret (Ok \<lparr>ps_signal = \<lparr>reusable_value = Some no\<rparr>, ps_timer = snd (fst (timer_made G h no (world s)))\<rparr>))
    (s\<lparr>world := snd (timer_made G h no (world s))\<rparr>)"
  using assms(2,3)
  by (simp add: preemption_signal_arm_def deref_def comp_simps sigaction_def mask_signal_run [OF setup_docD(1) [OF assms(1)]]
      timer_create_def timer_settime_def split_beta preempt_laws [OF setup_docD(1) [OF assms(1)]] timer_made_def handled_world_def)

lemma preemption_signal_arm_run:
  assumes doc: "setup_doc G" and ok: "setup_succeeds G"
  obtains timer w where "preemption_signal_arm G h QUANTUM_MICROSECS \<lparr>reusable_value = Some no\<rparr> s =
      (Val (Ok \<lparr>ps_signal = \<lparr>reusable_value = Some no\<rparr>, ps_timer = timer\<rparr>), s\<lparr>world := w\<rparr>)"
    and "view G w = (view G (world s))\<lparr>v_handler := (v_handler (view G (world s)))(signal_as_c_int no \<mapsto> h),
      v_mask := insert (signal_as_c_int no) (v_mask (view G (world s)))\<rparr>"
    and "armed_doc G tmr \<Longrightarrow> tmr w = (tmr (world s))(timer \<mapsto> (clock_as_c_int Real, sigevent_signal G no, Some (0, each_quantum)))"
proof -
  let ?m = "timer_made G h no (world s)"
  let ?w = "snd (c_timer_settime G (snd (fst ?m)) 0 each_quantum (snd ?m))"
  have z: "fst (fst (c_sigaction G n act w)) = 0" "fst (fst (c_timer_create G c e w)) = 0"
    "fst (fst (c_timer_settime G i f each_quantum w)) = 0" for n act w c e i f
    using ok by (simp_all add: setup_succeeds_def)
  have "preemption_signal_arm G h QUANTUM_MICROSECS \<lparr>reusable_value = Some no\<rparr> s =
      (Val (Ok \<lparr>ps_signal = \<lparr>reusable_value = Some no\<rparr>, ps_timer = snd (fst ?m)\<rparr>), s\<lparr>world := ?w\<rparr>)"
    by (simp add: preemption_signal_arm_steps [OF doc z(1,2)] comp_simps timer_settime_def z(3) split_beta)
  moreover have "view G ?w = (view G (world s))\<lparr>v_handler := (v_handler (view G (world s)))(signal_as_c_int no \<mapsto> h),
      v_mask := insert (signal_as_c_int no) (v_mask (view G (world s)))\<rparr>"
    by (simp add: timer_made_def timer_laws [OF setup_docD(3) [OF doc]] handled_world_view [OF doc z(1)])
  moreover have "tmr ?w = (tmr (world s))(snd (fst ?m) \<mapsto> (clock_as_c_int Real, sigevent_signal G no, Some (0, each_quantum)))"
    if t: "armed_doc G tmr"
    using timer_made_timers [OF t, of h no "world s"] by (simp add: armed_laws(2) [OF t] z(3) timer_made_def z(2))
  ultimately show ?thesis by (rule that)
qed

text \<open>
  C33.  A thread's preemption signal is ready before it is used.  When a signal is available and
  the system calls succeed, the signal is assigned to the thread, its handler is \<open>h\<close>, it is blocked, and
  nothing else the kernel knows of the thread has changed.  It comes with a timer on the real-time clock that is armed,
  relative to now and repeatedly, for a hundred microseconds, and whose event is to raise exactly this signal; no other timer has
  changed.
\<close>

theorem preemption_signal_armed:
  assumes "setup_doc G" and "setup_succeeds G" and "armed_doc G tmr"
    and "assign_signal s = (Val (Ok \<lparr>reusable_value = Some no\<rparr>), u)"
  shows "\<exists>timer event t. preemption_signal_new G h QUANTUM_MICROSECS s =
      (Val (Ok \<lparr>ps_signal = \<lparr>reusable_value = Some no\<rparr>, ps_timer = timer\<rparr>), t) \<and>
    view G (world t) = (view G (world u))\<lparr>v_handler := (v_handler (view G (world u)))(signal_as_c_int no \<mapsto> h),
      v_mask := insert (signal_as_c_int no) (v_mask (view G (world u)))\<rparr> \<and>
    tmr (world t) = (tmr (world u))(timer \<mapsto> (clock_as_c_int Real, event, Some (0, each_quantum))) \<and>
    sigev_notify event = SIGEV_SIGNAL \<and> sigev_signo event = signal_as_c_int no"
proof -
  obtain timer w where "preemption_signal_arm G h QUANTUM_MICROSECS \<lparr>reusable_value = Some no\<rparr> u =
      (Val (Ok \<lparr>ps_signal = \<lparr>reusable_value = Some no\<rparr>, ps_timer = timer\<rparr>), u\<lparr>world := w\<rparr>)"
    "view G w = (view G (world u))\<lparr>v_handler := (v_handler (view G (world u)))(signal_as_c_int no \<mapsto> h),
      v_mask := insert (signal_as_c_int no) (v_mask (view G (world u)))\<rparr>"
    "tmr w = (tmr (world u))(timer \<mapsto> (clock_as_c_int Real, sigevent_signal G no, Some (0, each_quantum)))"
    using preemption_signal_arm_run [OF assms(1,2), where tmr = tmr] assms(3) by blast
  then show ?thesis
    using assms(4) sigevent_signal_fields [of G no]
    by (intro exI [of _ timer] exI [of _ "sigevent_signal G no"] exI [of _ "u\<lparr>world := w\<rparr>"])
      (simp add: preemption_signal_new_def bind_run comp_simps on_panic_def)
qed

text \<open>
  C39.  A thread that cannot be set up leaves its timer behind.  When everything succeeds but arming the timer, the error is
  reported and the signal goes back to the pool, blocked and with its handler registered; the timer that was created for it is not
  deleted, and nothing refers to it any more.
\<close>

theorem failed_arming_leaks_timer:
  assumes "setup_doc G" and "armed_doc G tmr"
    and "\<And>no act w. fst (fst (c_sigaction G no act w)) = 0" and "\<And>c e w. fst (fst (c_timer_create G c e w)) = 0"
    and "\<And>i f it w. fst (fst (c_timer_settime G i f it w)) \<noteq> 0"
    and "assign_signal s = (Val (Ok \<lparr>reusable_value = Some no\<rparr>), u)"
    and "SIGNALS u = Some \<lparr>mx_value = vec, mx_locked = False, mx_poisoned = False\<rparr>"
  shows "\<exists>e timer t. preemption_signal_new G h QUANTUM_MICROSECS s = (Val (Err e), t) \<and>
    SIGNALS t = Some \<lparr>mx_value = vec @ [no], mx_locked = False, mx_poisoned = False\<rparr> \<and>
    view G (world t) = (view G (world u))\<lparr>v_handler := (v_handler (view G (world u)))(signal_as_c_int no \<mapsto> h),
      v_mask := insert (signal_as_c_int no) (v_mask (view G (world u)))\<rparr> \<and>
    tmr (world t) = (tmr (world u))(timer \<mapsto> (clock_as_c_int Real, sigevent_signal G no, None))"
proof -
  let ?m = "timer_made G h no (world u)"
  let ?w = "snd (c_timer_settime G (snd (fst ?m)) 0 each_quantum (snd ?m))"
  have arm: "preemption_signal_arm G h QUANTUM_MICROSECS \<lparr>reusable_value = Some no\<rparr> u =
      (Val (Err (last_os_error G ?w)), u\<lparr>world := ?w\<rparr>)"
    by (simp add: preemption_signal_arm_steps [OF assms(1,3,4)] comp_simps timer_settime_def assms(5) split_beta)
  have "drop_signal \<lparr>reusable_value = Some no\<rparr> (u\<lparr>world := ?w\<rparr>) =
      (Val (), u\<lparr>world := ?w, SIGNALS := Some \<lparr>mx_value = vec @ [no], mx_locked = False, mx_poisoned = False\<rparr>\<rparr>)"
    using assms(7)
    by (simp add: drop_reusable_def comp_simps inner_of_def place_fields holding_def mutex_fields mutex_ready_def vec_push_def)
  with arm assms(6) have "preemption_signal_new G h QUANTUM_MICROSECS s = (Val (Err (last_os_error G ?w)),
      u\<lparr>world := ?w, SIGNALS := Some \<lparr>mx_value = vec @ [no], mx_locked = False, mx_poisoned = False\<rparr>\<rparr>)"
    by (simp add: preemption_signal_new_def comp_simps on_panic_def)
  moreover have "view G ?w = (view G (world u))\<lparr>v_handler := (v_handler (view G (world u)))(signal_as_c_int no \<mapsto> h),
      v_mask := insert (signal_as_c_int no) (v_mask (view G (world u)))\<rparr>"
    by (simp add: timer_made_def timer_laws [OF setup_docD(3) [OF assms(1)]] handled_world_view [OF assms(1,3)])
  moreover have "tmr ?w = (tmr (world u))(snd (fst ?m) \<mapsto> (clock_as_c_int Real, sigevent_signal G no, None))"
    using timer_made_timers [OF assms(2), of h no "world u"] by (simp add: armed_laws(2) [OF assms(2)] assms(5) timer_made_def assms(4))
  ultimately show ?thesis by auto
qed

text \<open>A process whose pools are initialized and empty, with \<open>n\<close> signals handed out.\<close>

definition m_signals :: "usize \<Rightarrow> (machine, nat, nat) process_state" where
  "m_signals n = (boot m_start)\<lparr>SIGNALS := Some mutex_default, SIGNALS_INIT := Once_Done, SIGNALS_free := n\<rparr>"

lemma m_gotcha_setup_doc: "setup_doc (m_gotcha debug)"
proof -
  have [simp]: "v\<lparr>v_mask := v_mask v\<rparr> = v" for v :: kview by simp
  have "preempt_doc (m_gotcha debug)" "sigaction_doc (m_gotcha debug)" "timer_doc (m_gotcha debug)" "prctl_doc (m_gotcha debug)"
    by (auto simp: preempt_doc_def group_doc_def errno_doc_def sigset_doc_def sigmask_doc_def sigaction_doc_def
      kill_doc_def timer_doc_def prctl_doc_def masked_def killed_def m_sigaction_def m_location machine_defs
      split: option.splits if_splits)
  then show ?thesis by (simp add: setup_doc_def)
qed

lemma m_armed_doc: "armed_doc (m_gotcha debug) m_timers"
  by (auto simp: armed_doc_def machine_defs m_sigaction_def m_sigmask_def Let_def split: option.split)

lemma m_assign_signal: "assign_signal (m_signals 1) = (Val (Ok \<lparr>reusable_value = Some VirtualAlarm\<rparr>), m_signals 2)"
  by (simp add: m_signals_def assign_signal_def comp_simps call_once_def signals_once_def try_from_def
      inner_of_def place_fields holding_def mutex_fields mutex_ready_def signal_builder_run mutex_default_def
      NOTIFICATION_SIGNALS_def boot_def)

theorem preemption_signal_armed_witness:
  "\<exists>timer event t. preemption_signal_new (m_gotcha True) m_preempt QUANTUM_MICROSECS (m_signals 1) =
      (Val (Ok \<lparr>ps_signal = \<lparr>reusable_value = Some VirtualAlarm\<rparr>, ps_timer = timer\<rparr>), t) \<and>
    v_handler (m_view (world t)) = [26 \<mapsto> m_preempt] \<and> v_mask (m_view (world t)) = {26} \<and>
    m_timers (world t) = [timer \<mapsto> (0, event, Some (0, each_quantum))] \<and> sigev_signo event = 26"
proof -
  have ok: "setup_succeeds (m_gotcha True)"
    by (simp add: setup_succeeds_def machine_defs m_sigaction_def)
  from preemption_signal_armed [OF m_gotcha_setup_doc ok m_armed_doc m_assign_signal, of m_preempt] show ?thesis
    by (auto simp: m_signals_def boot_def m_start_def machine_defs)
qed

text \<open>A machine on which no timer can be armed.\<close>

definition m_unarmed :: "machine gotcha" where
  "m_unarmed = (m_gotcha True)\<lparr>c_timer_settime := \<lambda>_ _ it w. ((- 1, it), w)\<rparr>"

theorem failed_arming_leaks_timer_witness:
  "\<exists>e timer event t. preemption_signal_new m_unarmed m_preempt QUANTUM_MICROSECS (m_signals 1) = (Val (Err e), t) \<and>
    SIGNALS t = Some \<lparr>mx_value = [VirtualAlarm], mx_locked = False, mx_poisoned = False\<rparr> \<and>
    m_timers (world t) = [timer \<mapsto> (0, event, None)]"
proof -
  have doc: "setup_doc m_unarmed"
    using m_gotcha_setup_doc [of True]
    by (simp add: m_unarmed_def setup_doc_def preempt_doc_def group_doc_def errno_doc_def sigset_doc_def sigmask_doc_def
        sigaction_doc_def kill_doc_def timer_doc_def prctl_doc_def masked_def killed_def cong del: option.case_cong_weak)
  have tmr: "armed_doc m_unarmed m_timers"
    by (auto simp: m_unarmed_def armed_doc_def machine_defs m_sigaction_def m_sigmask_def Let_def split: option.split)
  have ok: "fst (fst (c_sigaction m_unarmed no act w)) = 0" "fst (fst (c_timer_create m_unarmed c e w)) = 0"
    "fst (fst (c_timer_settime m_unarmed i f it w)) \<noteq> 0" for no act w c e i f it
    by (simp_all add: m_unarmed_def machine_defs m_sigaction_def)
  have "SIGNALS (m_signals 2) = Some \<lparr>mx_value = [], mx_locked = False, mx_poisoned = False\<rparr>"
    by (simp add: m_signals_def mutex_default_def)
  from failed_arming_leaks_timer [OF doc tmr ok m_assign_signal this, of m_preempt] show ?thesis
    by (auto simp: m_signals_def boot_def m_start_def)
qed

text \<open>
  C34.  The seventeenth thread cannot have a preemption signal.  Once every notification signal has
  been handed out and none has come back, setting up another thread panics, and the pool stays
  usable.  The message tells that there was none, and not that the pool is poisoned.
\<close>

theorem signals_run_out:
  assumes "SIGNALS s = Some \<lparr>mx_value = [], mx_locked = False, mx_poisoned = False\<rparr>"
    and "SIGNALS_INIT s = Once_Done" and "16 \<le> SIGNALS_free s"
  shows "\<exists>t. preemption_signal_new G h q s =
      (Fail (Panicked ''libinger: no available signal for preempting this thread: None''), t) \<and> SIGNALS t = SIGNALS s"
proof -
  have "\<not> unat (SIGNALS_free s) < length NOTIFICATION_SIGNALS"
    using assms(3) by (simp add: NOTIFICATION_SIGNALS_def word_le_nat_alt)
  then show ?thesis
    using assms
    by (simp add: preemption_signal_new_def assign_signal_def comp_simps call_once_def signals_once_def try_from_def
        inner_of_def place_fields holding_def mutex_fields mutex_ready_def signal_builder_run debug_option_def)
qed

theorem signals_run_out_witness:
  "\<exists>t. preemption_signal_new (m_gotcha True) m_preempt QUANTUM_MICROSECS (m_signals 16) =
      (Fail (Panicked ''libinger: no available signal for preempting this thread: None''), t) \<and> SIGNALS t = Some mutex_default"
  using signals_run_out [of "m_signals 16" "m_gotcha True" m_preempt QUANTUM_MICROSECS]
  by (simp add: m_signals_def mutex_default_def)

text \<open>
  C36.  A dropped preemption signal keeps its handler.  The destructor asks for the handler to be
  unregistered by passing no action, which \<^verbatim>\<open>sigaction\<close> takes as a query: every registered handler
  is still registered afterwards, although the signal is back in the pool.
\<close>

theorem dropped_signal_keeps_handler:
  assumes "setup_doc G" and "SIGNALS s = Some \<lparr>mx_value = vec, mx_locked = False, mx_poisoned = False\<rparr>"
  shows "\<exists>t. drop_preemption_signal G \<lparr>ps_signal = \<lparr>reusable_value = Some no\<rparr>, ps_timer = i\<rparr> s = (Val (), t) \<and>
    v_handler (view G (world t)) = v_handler (view G (world s)) \<and>
    SIGNALS t = Some \<lparr>mx_value = vec @ [no], mx_locked = False, mx_poisoned = False\<rparr>"
proof -
  let ?w1 = "snd (c_timer_delete G i (world s))"
  obtain code old w2 where c: "c_sigaction G (signal_as_c_int no) None ?w1 = ((code, old), w2)"
    by (metis prod.collapse)
  have v: "view G w2 = view G (world s)"
    using setup_docD(2) [OF assms(1)] c timer_laws(3) [OF setup_docD(3) [OF assms(1)], of i "world s"]
    by (auto simp: sigaction_doc_def dest!: spec [of _ "signal_as_c_int no"] spec [of _ None] spec [of _ ?w1])
  show ?thesis
    using assms(2) c v
    by (cases "code = 0"; cases "fst (c_timer_delete G i (world s)) = 0")
      (simp_all add: drop_preemption_signal_def with_cleanup_def on_panic_def comp_simps timer_delete_def deref_def sigaction_def
        drop_reusable_def inner_of_def place_fields holding_def mutex_fields mutex_ready_def vec_push_def)
qed

theorem dropped_signal_keeps_handler_witness:
  "\<exists>t. drop_preemption_signal (m_gotcha True) \<lparr>ps_signal = \<lparr>reusable_value = Some Alarm\<rparr>, ps_timer = 7\<rparr>
      ((m_signals 1)\<lparr>world := m_start\<lparr>m_view := (m_view m_start)\<lparr>v_handler := [14 \<mapsto> m_preempt]\<rparr>\<rparr>\<rparr>) = (Val (), t) \<and>
    v_handler (m_view (world t)) = [14 \<mapsto> m_preempt] \<and>
    SIGNALS t = Some \<lparr>mx_value = [Alarm], mx_locked = False, mx_poisoned = False\<rparr>"
  using dropped_signal_keeps_handler [OF m_gotcha_setup_doc [where debug = True], where s =
      "(m_signals 1)\<lparr>world := m_start\<lparr>m_view := (m_view m_start)\<lparr>v_handler := [14 \<mapsto> m_preempt]\<rparr>\<rparr>\<rparr>" and vec = "[]" and no = Alarm and i = 7]
  by (simp add: m_signals_def mutex_default_def machine_defs)

text \<open>
  A thread is set up once.  When a thread that already has a preemption signal resumes
  another function, it keeps its signal, takes none from the pool, and the function's block refers
  to it from then on.
\<close>

theorem thread_setup_reuses:
  assumes "tls_SIGNALER (ptls s me) = Some ps" and "\<not> tls_SIGNAL_torn (tls_at G s)" and "HOOK_INIT s \<noteq> Once_Poisoned"
  shows "\<exists>t. thread_setup G me h q s = (Val (Ok ()), t) \<and>
    SIGNALS t = SIGNALS s \<and> SIGNALS_free t = SIGNALS_free s \<and> tls_SIGNALER (ptls t me) = Some ps \<and>
    signal_in (ptls t) (fs_of G s) = reusable_value (ps_signal ps)"
  using assms
  by (cases "HOOK_INIT s")
    (auto simp: thread_setup_def comp_simps call_once_def hook_once_def tls_at_def signal_in_def)

theorem thread_setup_reuses_witness:
  "\<exists>t. thread_setup (m_platform True :: (machine, nat) platform) 0x100000 m_preempt QUANTUM_MICROSECS
      ((m_signals 1)\<lparr>ptls := (\<lambda>_. preempt_tls_default\<lparr>tls_SIGNALER :=
        Some \<lparr>ps_signal = \<lparr>reusable_value = Some Alarm\<rparr>, ps_timer = 7\<rparr>\<rparr>)\<rparr>) = (Val (Ok ()), t) \<and>
    SIGNALS t = Some mutex_default \<and> SIGNALS_free t = 1 \<and> signal_in (ptls t) 0x100000 = Some Alarm"
  using thread_setup_reuses [where s = "(m_signals 1)\<lparr>ptls := (\<lambda>_. preempt_tls_default\<lparr>tls_SIGNALER :=
        Some \<lparr>ps_signal = \<lparr>reusable_value = Some Alarm\<rparr>, ps_timer = 7\<rparr>\<rparr>)\<rparr>" and me = "0x100000"
      and ps = "\<lparr>ps_signal = \<lparr>reusable_value = Some Alarm\<rparr>, ps_timer = 7\<rparr>" and G = "m_platform True :: (machine, nat) platform" and h = m_preempt and q = QUANTUM_MICROSECS]
  by (auto simp: m_signals_def tls_at_def preempt_tls_default_def boot_def m_start_def)

section \<open>Turning preemption on and off\<close>

text \<open>
  C23.  Preemption is on exactly while a function runs.  Turning it on for a libset puts the thread
  into that libset with its signal unblocked, and raises the signal if a preemption had been
  deferred; turning it off with the signal that was reported brings the thread back to the shared
  libset with the signal blocked, no preemption signal, and nothing deferred.
\<close>

theorem enable_disable:
  assumes doc: "preempt_doc G" and loc: "group_lookup_errno_location G g (world s) = Some f" and sig: "signal_at G s = Some no"
  shows "\<exists>t u. enable_preemption G (Some g) s = (Val (Ok (Some no)), t) \<and>
    v_group (view G (world t)) = g \<and> signal_as_c_int no \<notin> v_mask (view G (world t)) \<and>
    (signal_as_c_int no \<in> v_pending (view G (world t)) \<longleftrightarrow>
      tls_DEFERRED (tls_at G s) \<or> signal_as_c_int no \<in> v_pending (view G (world s))) \<and>
    disable_preemption G (Some no) t = (Val (), u) \<and>
    v_group (view G (world u)) = group_SHARED G \<and> signal_as_c_int no \<in> v_mask (view G (world u)) \<and>
    signal_at G u = None \<and> \<not> tls_DEFERRED (tls_at G u)"
proof -
  let ?t = "s\<lparr>world := entered_world G g (tls_DEFERRED (tls_at G s)) no (world s),
      ptls := (ptls s)(fs_of G s := (tls_at G s)\<lparr>tls_ERRNO_LOCATION := Some f, tls_DEFERRED := False\<rparr>)\<rparr>"
  let ?u = "?t\<lparr>world := disabled_world G (Some no) (world ?t),
      ptls := (ptls ?t)(fs_of G ?t := (tls_at G ?t)\<lparr>tls_SIGNAL := None, tls_DEFERRED := False\<rparr>)\<rparr>"
  have "enable_preemption G (Some g) s = (Val (Ok (Some no)), ?t)"
    using enable_preemption_group [OF doc loc sig] .
  moreover have "disable_preemption G (Some no) ?t = (Val (), ?u)"
    using disable_preemption_run [OF doc, of ?t "Some no"] signal_in_Some [OF sig]
    by (simp add: tls_at_def entered_world_view [OF doc])
  moreover have "signal_at G ?u = None" "\<not> tls_DEFERRED (tls_at G ?u)"
    by (simp_all add: signal_in_def tls_at_def entered_world_view [OF doc] disabled_world_view [OF doc])
  ultimately show ?thesis
    by (intro exI [of _ ?t] exI [of _ ?u]) (simp add: entered_world_view [OF doc] disabled_world_view [OF doc])
qed

text \<open>A thread whose function's block is installed and refers to the thread's signal.\<close>

definition m_ready :: "(machine, nat, nat) process_state" where
  "m_ready = (boot (m_start\<lparr>m_view := (m_view m_start)\<lparr>v_fs := 0x200000\<rparr>\<rparr>))\<lparr>ptls := (\<lambda>_. preempt_tls_default)(
     0x100000 := preempt_tls_default\<lparr>tls_SIGNALER := Some \<lparr>ps_signal = \<lparr>reusable_value = Some Alarm\<rparr>, ps_timer = 7\<rparr>\<rparr>,
     0x200000 := preempt_tls_default\<lparr>tls_SIGNAL := Some 0x100000\<rparr>)\<rparr>"

theorem enable_disable_witness:
  "\<exists>t u. enable_preemption (m_gotcha True) (Some 2) m_ready = (Val (Ok (Some Alarm)), t) \<and>
    v_group (m_view (world t)) = 2 \<and> 14 \<notin> v_mask (m_view (world t)) \<and> 14 \<notin> v_pending (m_view (world t)) \<and>
    disable_preemption (m_gotcha True) (Some Alarm) t = (Val (), u) \<and>
    v_group (m_view (world u)) = 0 \<and> 14 \<in> v_mask (m_view (world u))"
proof -
  have "group_lookup_errno_location (m_gotcha True) 2 (world m_ready) = Some 2"
    by (simp add: machine_defs m_group_limit_def)
  moreover have "signal_at (m_gotcha True) m_ready = Some Alarm"
    by (simp add: m_ready_def boot_def machine_defs signal_in_def preempt_tls_default_def)
  ultimately obtain t u where "enable_preemption (m_gotcha True) (Some 2) m_ready = (Val (Ok (Some Alarm)), t)"
    "v_group (view (m_gotcha True) (world t)) = 2" "14 \<notin> v_mask (view (m_gotcha True) (world t))"
    "14 \<in> v_pending (view (m_gotcha True) (world t)) \<longleftrightarrow>
      tls_DEFERRED (tls_at (m_gotcha True) m_ready) \<or> 14 \<in> v_pending (view (m_gotcha True) (world m_ready))"
    "disable_preemption (m_gotcha True) (Some Alarm) t = (Val (), u)"
    "v_group (view (m_gotcha True) (world u)) = group_SHARED (m_gotcha True)" "14 \<in> v_mask (view (m_gotcha True) (world u))"
    using enable_disable [OF setup_docD(1) [OF m_gotcha_setup_doc [where debug = True]], where g = 2 and s = m_ready and f = 2 and no = Alarm]
    by auto
  then show ?thesis
    by (intro exI [of _ t] exI [of _ u])
      (simp add: machine_defs m_ready_def tls_at_def preempt_tls_default_def boot_def m_start_def)
qed

end
