(* ===== verification/Release.thy ===== *)
theory Release
  imports Pool_Guarantees Contract
begin

text \<open>
  What becomes of the resources of a preemptible function: its libset, its thread-control block
  and its stack go back to their pools when its continuation is dropped.
\<close>

section \<open>Giving values back\<close>

lemma drop_reusable_run:
  "GROUPS s = Some (free_pool gs) \<Longrightarrow>
    drop_group \<lparr>reusable_value = Some g\<rparr> s = (Val (), s\<lparr>GROUPS := Some (free_pool (gs @ [g]))\<rparr>)"
  "LOCALSTORES s = Some (free_pool bs) \<Longrightarrow>
    drop_localstore \<lparr>reusable_value = Some b\<rparr> s = (Val (), s\<lparr>LOCALSTORES := Some (free_pool (bs @ [b]))\<rparr>)"
  "STACKS s = Some (free_pool ks) \<Longrightarrow>
    drop_stack \<lparr>adapted = \<lparr>reusable_value = Some k\<rparr>\<rparr> s = (Val (), s\<lparr>STACKS := Some (free_pool (ks @ [k]))\<rparr>)"
  by (simp_all add: drop_stack_def drop_reusable_def comp_simps inner_of_def holding_def place_fields mutex_fields
      mutex_ready_def vec_push_def)

text \<open>The stack a continuation holds, if it has one.\<close>

definition stack_of :: "'m continuation \<Rightarrow> stack option" where
  "stack_of c = Option.bind (task_checkpoint (stateful c)) (\<lambda>cp. reusable_value (adapted (ctx_stack cp)))"

text \<open>Its wrappers are full, as they are until they are dropped.\<close>

definition holds_all :: "'m continuation \<Rightarrow> group \<Rightarrow> tcb option \<Rightarrow> bool" where
  "holds_all c g b \<longleftrightarrow> cont_group c = \<lparr>reusable_value = Some g\<rparr> \<and> cont_tls c = \<lparr>reusable_value = Some b\<rparr> \<and>
     (\<forall>cp. task_checkpoint (stateful c) = Some cp \<longrightarrow> reusable_value (adapted (ctx_stack cp)) \<noteq> None)"

definition released :: "'m continuation \<Rightarrow> group \<Rightarrow> tcb option \<Rightarrow> group list \<Rightarrow> tcb option list \<Rightarrow> stack list \<Rightarrow>
    ('w, 'm, 'f, 'a, 's) lingering_scheme \<Rightarrow> ('w, 'm, 'f, 'a, 's) lingering_scheme" where
  "released c g b gs bs ks s = s\<lparr>closures := (closures s)(functional c := Empty),
     GROUPS := Some (free_pool (gs @ [g])), LOCALSTORES := Some (free_pool (bs @ [b])),
     STACKS := (case stack_of c of None \<Rightarrow> STACKS s | Some k \<Rightarrow> Some (free_pool (ks @ [k])))\<rparr>"

lemma drop_checkpoint_run:
  assumes "holds_all c g b" and "task_checkpoint (stateful c) \<noteq> None \<Longrightarrow> STACKS s = Some (free_pool ks)"
  shows "drop_checkpoint (task_checkpoint (stateful c)) s = (Val (), s\<lparr>STACKS :=
    (case stack_of c of None \<Rightarrow> STACKS s | Some k \<Rightarrow> Some (free_pool (ks @ [k])))\<rparr>)"
proof (cases "task_checkpoint (stateful c)")
  case None
  then show ?thesis by (simp add: drop_checkpoint_def stack_of_def)
next
  case (Some cp)
  with assms(1) obtain k where "reusable_value (adapted (ctx_stack cp)) = Some k" by (auto simp: holds_all_def)
  moreover have "ctx_stack cp = \<lparr>adapted = \<lparr>reusable_value = reusable_value (adapted (ctx_stack cp))\<rparr>\<rparr>" by simp
  ultimately have "ctx_stack cp = \<lparr>adapted = \<lparr>reusable_value = Some k\<rparr>\<rparr>" by metis
  with Some assms(2) show ?thesis by (simp add: drop_checkpoint_def stack_of_def drop_reusable_run)
qed

lemma drop_fields_run:
  assumes "holds_all c g b" and "GROUPS s = Some (free_pool gs)" and "LOCALSTORES s = Some (free_pool bs)"
    and "task_checkpoint (stateful c) \<noteq> None \<Longrightarrow> STACKS s = Some (free_pool ks)"
  shows "andthen (set_closure (functional c) Empty)
      (with_cleanup (drop_checkpoint (task_checkpoint (stateful c)))
        (with_cleanup (drop_group (cont_group c)) (drop_localstore (cont_tls c)))) s = (Val (), released c g b gs bs ks s)"
proof -
  let ?s = "s\<lparr>closures := (closures s)(functional c := Empty)\<rparr>"
  let ?t = "?s\<lparr>STACKS := (case stack_of c of None \<Rightarrow> STACKS ?s | Some k \<Rightarrow> Some (free_pool (ks @ [k])))\<rparr>"
  have cp: "drop_checkpoint (task_checkpoint (stateful c)) ?s = (Val (), ?t)"
    using assms(4) by (intro drop_checkpoint_run [OF assms(1)]) simp
  let ?u = "?t\<lparr>GROUPS := Some (free_pool (gs @ [g]))\<rparr>"
  have g: "drop_group (cont_group c) ?t = (Val (), ?u)"
    using assms(1,2) by (simp add: holds_all_def drop_reusable_run)
  have b: "drop_localstore (cont_tls c) ?u = (Val (), ?u\<lparr>LOCALSTORES := Some (free_pool (bs @ [b]))\<rparr>)"
    using assms(1,3) by (simp add: holds_all_def drop_reusable_run)
  have "with_cleanup (drop_group (cont_group c)) (drop_localstore (cont_tls c)) ?t =
      (Val (), ?u\<lparr>LOCALSTORES := Some (free_pool (bs @ [b]))\<rparr>)"
    using g b by (rule with_cleanup_Val)
  with cp have "with_cleanup (drop_checkpoint (task_checkpoint (stateful c)))
      (with_cleanup (drop_group (cont_group c)) (drop_localstore (cont_tls c))) ?s =
      (Val (), ?u\<lparr>LOCALSTORES := Some (free_pool (bs @ [b]))\<rparr>)"
    by (rule with_cleanup_Val)
  then show ?thesis by (cases s; cases "stack_of c") (simp_all add: andthen_run set_closure_def released_def)
qed

lemma drop_continuation_run:
  assumes "group_doc G" and "v_group (view G (world s)) = group_SHARED G"
    and held: "holds_all c g b" and "GROUPS s = Some (free_pool gs)" and "LOCALSTORES s = Some (free_pool bs)"
    and "task_checkpoint (stateful c) \<noteq> None \<Longrightarrow> STACKS s = Some (free_pool ks)"
    and "task_errno (stateful c) \<noteq> None \<Longrightarrow> fst (group_renew G g (world s))"
  shows "drop_continuation G c s = (Val (), released c g b gs bs ks
    (if task_errno (stateful c) = None then s else s\<lparr>world := snd (group_renew G g (world s))\<rparr>))"
proof -
  let ?s = "if task_errno (stateful c) = None then s else s\<lparr>world := snd (group_renew G g (world s))\<rparr>"
  have head: "bind (is_preemptible G) (\<lambda>p.
        andthen (debug_assert (debug_build G) (\<not> p) ''libinger: dropped from preemptible function'')
        (only_if (task_errno (stateful c) \<noteq> None)
          (bind (deref (cont_group c)) (\<lambda>grp.
           bind (prim (group_renew G grp)) (\<lambda>renewed.
           assert renewed ''libinger: failed to reinitialize library group''))))) s = (Val (), ?s)"
    using assms(2,3,7)
    by (auto simp: comp_simps is_preemptible_run [OF assms(1)] deref_def holds_all_def)
  have "andthen (set_closure (functional c) Empty)
      (with_cleanup (drop_checkpoint (task_checkpoint (stateful c)))
        (with_cleanup (drop_group (cont_group c)) (drop_localstore (cont_tls c)))) ?s = (Val (), released c g b gs bs ks ?s)"
    using assms(4-6) by (intro drop_fields_run [OF held]) simp_all
  with head show ?thesis unfolding drop_continuation_def by (rule with_cleanup_Val)
qed

text \<open>
  C21.  Dropping a continuation gives everything back.  While the pools are usable, dropping a
  continuation outside preemptible code puts its libset, its thread-control block and, if it was
  started, its stack back into their pools, and forgets the closure.  The libset is reinitialized
  first exactly if the function was paused; if that fails, the drop panics.
\<close>

theorem drop_releases:
  assumes "group_doc G" and "v_group (view G (world s)) = group_SHARED G"
    and "holds_all c g b" and "GROUPS s = Some (free_pool gs)" and "LOCALSTORES s = Some (free_pool bs)"
    and "task_checkpoint (stateful c) \<noteq> None \<Longrightarrow> STACKS s = Some (free_pool ks)"
    and "task_errno (stateful c) \<noteq> None \<Longrightarrow> fst (group_renew G g (world s))"
  shows "\<exists>t. drop_continuation G c s = (Val (), t) \<and>
    GROUPS t = Some (free_pool (gs @ [g])) \<and> LOCALSTORES t = Some (free_pool (bs @ [b])) \<and>
    STACKS t = (case stack_of c of None \<Rightarrow> STACKS s | Some k \<Rightarrow> Some (free_pool (ks @ [k]))) \<and>
    closures t = (closures s)(functional c := Empty) \<and> ptls t = ptls s \<and> ltls t = ltls s \<and>
    world t = (if task_errno (stateful c) = None then world s else snd (group_renew G g (world s)))"
  using drop_continuation_run [OF assms] by (auto simp: released_def split: option.split)

section \<open>Continuations on the machine\<close>

text \<open>A function that has been launched and not yet run, whatever its code.\<close>

definition m_fresh :: "'f mcontext continuation" where
  "m_fresh = \<lparr>functional = 0, stateful = task_default, cont_group = \<lparr>reusable_value = Some 1\<rparr>,
     cont_tls = \<lparr>reusable_value = Some (Some \<lparr>tcb_fs = Some (Mut 0x200000)\<rparr>)\<rparr>\<rparr>"

definition m_with :: "machine \<Rightarrow> 'f \<Rightarrow> (machine, 'f, 'a) process_state" where
  "m_with w f = (boot w)\<lparr>closures := (\<lambda>_. Empty)(0 := Function f)\<rparr>"

lemma m_setup_doc: "setup_doc (m_platform debug)"
  by (simp add: setup_doc_def m_preempt_doc m_docs)

lemma m_with_caller:
  "m_view w = m_view m_start \<Longrightarrow> caller_ok (m_platform debug) 0x100000 (m_with w f)"
  by (simp add: caller_ok_def m_with_def boot_def m_start_def signalers_wf_def preempt_tls_default_def)

lemma m_fresh_ok: "fst J f \<Longrightarrow> cont_ok (m_platform debug) J 0x200000 1 m_fresh (m_with w f)"
  by (simp add: cont_ok_def m_fresh_def m_with_def boot_def idle_block_def preempt_tls_default_def
      linger_tls_default_def cont_state_def task_default_def m_group_limit_def)

abbreviation m_debug :: "(machine, instruction list) platform" where
  "m_debug \<equiv> m_platform True"

text \<open>A continuation paused on the machine, with its stack, and pools that are empty.\<close>

definition m_paused :: "instruction list mcontext continuation" where
  "m_paused = \<lparr>functional = 0, stateful = \<lparr>task_errno = Some 0, task_checkpoint =
       Some \<lparr>ctx_mcontext = Interrupted (Running \<lparr>fr_fun = 0, fr_group = 1, fr_signal = Some Alarm\<rparr> [Give 3]), ctx_mask = {},
         ctx_stack = \<lparr>adapted = \<lparr>reusable_value = Some (stack_at 0)\<rparr>\<rparr>\<rparr>, task_yielded = False\<rparr>,
     cont_group = \<lparr>reusable_value = Some 1\<rparr>,
     cont_tls = \<lparr>reusable_value = Some (Some \<lparr>tcb_fs = Some (Mut 0x200000)\<rparr>)\<rparr>\<rparr>"

definition m_pools :: "(machine, instruction list, nat) process_state" where
  "m_pools = (boot m_start)\<lparr>GROUPS := Some (free_pool []), LOCALSTORES := Some (free_pool []), STACKS := Some (free_pool []),
     GROUPS_INIT := Once_Done, LOCALSTORES_INIT := Once_Done, STACKS_INIT := Once_Done\<rparr>"

lemma m_paused_holds: "holds_all m_paused 1 (Some \<lparr>tcb_fs = Some (Mut 0x200000)\<rparr>)"
  by (simp add: holds_all_def m_paused_def)

theorem drop_releases_witness:
  "\<exists>t. drop_continuation m_debug m_paused m_pools = (Val (), t) \<and>
    GROUPS t = Some (free_pool [1]) \<and> LOCALSTORES t = Some (free_pool [Some \<lparr>tcb_fs = Some (Mut 0x200000)\<rparr>]) \<and>
    STACKS t = Some (free_pool [stack_at 0])"
proof -
  have "\<exists>t. drop_continuation m_debug m_paused m_pools = (Val (), t) \<and>
    GROUPS t = Some (free_pool ([] @ [1])) \<and> LOCALSTORES t = Some (free_pool ([] @ [Some \<lparr>tcb_fs = Some (Mut 0x200000)\<rparr>])) \<and>
    STACKS t = (case stack_of m_paused of None \<Rightarrow> STACKS m_pools | Some k \<Rightarrow> Some (free_pool ([] @ [k]))) \<and>
    closures t = (closures m_pools)(functional m_paused := Empty) \<and> ptls t = ptls m_pools \<and> ltls t = ltls m_pools \<and>
    world t = (if task_errno (stateful m_paused) = None then world m_pools
      else snd (group_renew m_debug 1 (world m_pools)))"
    by (rule drop_releases [OF m_docs(1) _ m_paused_holds]) (simp_all add: m_pools_def boot_def m_start_def)
  then show ?thesis by (auto simp: stack_of_def m_paused_def)
qed

end
