(* ===== verification/Ffi.thy ===== *)
theory Ffi
  imports Release
begin

text \<open>
  \<^verbatim>\<open>src/ffi.rs\<close> and \<^verbatim>\<open>src/force.rs\<close>: the interface for C.  A C function returns nothing, so its
  completion carries \<^verbatim>\<open>()\<close>; the structure adds a flag that C code can read.  A pointer from C is an
  option; a null pointer aborts.  A pointer that is not null leads to a structure, so the operations
  work on the pair of what the pointer leads to and the process.
\<close>

section \<open>AssertSend\<close>

datatype 't assert_send = AssertSend 't

definition assert_send_new :: "'t \<Rightarrow> 't assert_send" where
  "assert_send_new t = AssertSend t"

fun assert_send_deref :: "'t assert_send \<Rightarrow> 't" where
  "assert_send_deref (AssertSend this) = this"

fun assert_send_deref_mut :: "('t \<Rightarrow> 't) \<Rightarrow> 't assert_send \<Rightarrow> 't assert_send" where
  "assert_send_deref_mut f (AssertSend this) = AssertSend (f this)"

section \<open>The interface\<close>

record 'm ffi_linger =
  is_complete :: bool
  ffi_continuation :: "(unit, 'm) linger"

text \<open>
  \<open>c_call\<close> is what calling a C function with an argument starts: a state of the preemptible
  function's code.  \<^verbatim>\<open>std::process::abort\<close> prints nothing.
\<close>

definition process_abort :: "('s, 'x) comp" where
  "process_abort = failing (Aborted '''')"

definition ffi_launch :: "('w, 'f, 'z) platform_scheme \<Rightarrow> ('w, 'f, unit) user_code \<Rightarrow> event list \<Rightarrow>
    (handler \<Rightarrow> usize \<Rightarrow> 'f) \<Rightarrow> handler \<Rightarrow> u64 \<Rightarrow> usize \<Rightarrow>
    (('w, 'f mcontext, 'f, unit, 's) lingering_scheme, 'f mcontext ffi_linger) comp" where
  "ffi_launch E U es c_call fun us args =
     (let args = assert_send_new args in
      bind (launch E U es (c_call fun (assert_send_deref args)) us) (\<lambda>timed. case timed of
        Ok timed \<Rightarrow> ret \<lparr>is_complete = is_completion timed, ffi_continuation = erase timed\<rparr>
      | Err _ \<Rightarrow> process_abort))"

definition ffi_resume :: "('w, 'f, 'z) platform_scheme \<Rightarrow> ('w, 'f, unit) user_code \<Rightarrow> event list \<Rightarrow> u64 \<Rightarrow>
    ('f mcontext ffi_linger option \<times> ('w, 'f mcontext, 'f, unit, 's) lingering_scheme, unit) comp" where
  "ffi_resume E U es us =
     bind (gets fst) (\<lambda>timed. case timed of
       Some timed \<Rightarrow>
         bind (\<lambda>(_, s). case resume E U es us (ffi_continuation timed, s) of
             (r, (l, t)) \<Rightarrow> (r, (Some (timed\<lparr>ffi_continuation := l\<rparr>), t)))
         (\<lambda>r. if is_err r then process_abort
           else modify (\<lambda>(timed, s). (map_option (\<lambda>t. t\<lparr>is_complete := is_completion (ffi_continuation t)\<rparr>) timed, s)))
     | None \<Rightarrow> process_abort)"

definition ffi_cancel :: "('w, 'z) gotcha_scheme \<Rightarrow>
    ('m ffi_linger option \<times> ('w, 'm, 'f, unit, 's) lingering_scheme, unit) comp" where
  "ffi_cancel G =
     bind (gets fst) (\<lambda>timed. case timed of
       Some timed \<Rightarrow>
         only_if (is_continuation (ffi_continuation timed))
           (andthen (\<lambda>(_, s). case assign G (Completion ()) (ffi_continuation timed, s) of
               (r, (l, t)) \<Rightarrow> (r, (Some (timed\<lparr>ffi_continuation := l\<rparr>), t)))
           (modify (\<lambda>(timed, s). (map_option (\<lambda>t. t\<lparr>is_complete := True\<rparr>) timed, s))))
     | None \<Rightarrow> process_abort)"

definition ffi_pause :: "('w, 'z) gotcha_scheme \<Rightarrow> (('w, 'm, 'f, 'a, 's) lingering_scheme, unit) comp" where
  "ffi_pause G = pause G"

section \<open>The flag\<close>

text \<open>What the header promises of the structure: the flag says whether the function is done.\<close>

definition flag_ok :: "'m ffi_linger \<Rightarrow> bool" where
  "flag_ok l \<longleftrightarrow> is_complete l = is_completion (ffi_continuation l)"

lemma erase_id [simp]: "erase l = l"
  by (cases l) (simp_all add: erase_def)

lemma ffi_launch_Val:
  assumes "ffi_launch E U es c_call fun us args s = (Val l, t)"
  shows "launch E U es (c_call fun args) us s = (Val (Ok (ffi_continuation l)), t)" and "flag_ok l"
  using assms
  by (auto simp: ffi_launch_def assert_send_new_def comp_simps process_abort_def flag_ok_def
      split: prod.splits outcome.splits result.splits)

lemma ffi_resume_Val:
  assumes "ffi_resume E U es us (Some l, s) = (Val (), (l', t))"
  obtains c where "resume E U es us (ffi_continuation l, s) = (Val (Ok ()), (c, t))"
    and "l' = Some \<lparr>is_complete = is_completion c, ffi_continuation = c\<rparr>"
proof -
  obtain r c u where run: "resume E U es us (ffi_continuation l, s) = (r, (c, u))" by (metis prod.collapse)
  show ?thesis
  proof (cases r)
    case (Val x)
    with run assms show ?thesis
      by (cases x) (auto simp: ffi_resume_def comp_simps process_abort_def intro: that [of c])
  next
    case (Fail e)
    with run assms show ?thesis by (simp add: ffi_resume_def comp_simps)
  qed
qed

text \<open>
  C27.  The flag C code reads is right.  Whatever \<^verbatim>\<open>launch\<close>, \<^verbatim>\<open>resume\<close> and \<^verbatim>\<open>cancel\<close> return to C with,
  the flag says whether the function has completed: the first two establish this, and cancelling
  keeps it.
\<close>

theorem flag_right:
  "(\<forall>c_call fun us args s l t. ffi_launch E U es c_call fun us args s = (Val l, t) \<longrightarrow> flag_ok l) \<and>
   (\<forall>us l s l' t. ffi_resume E U es us (Some l, s) = (Val (), (l', t)) \<longrightarrow> (\<exists>l1. l' = Some l1 \<and> flag_ok l1)) \<and>
   (\<forall>l s l' t. flag_ok l \<longrightarrow> ffi_cancel E (Some l, s) = (Val (), (l', t)) \<longrightarrow> (\<exists>l1. l' = Some l1 \<and> flag_ok l1))"
proof (intro conjI allI impI)
  fix l s l' t assume "flag_ok l" and c: "ffi_cancel E (Some l, s) = (Val (), (l', t))"
  then show "\<exists>l1. l' = Some l1 \<and> flag_ok l1"
    by (auto simp: ffi_cancel_def comp_simps assign_def elsewhere_def flag_ok_def is_completion_def map_prod_def
        split: prod.splits outcome.splits if_splits)
qed (auto dest: ffi_launch_Val elim!: ffi_resume_Val simp: flag_ok_def)

section \<open>Cancelling\<close>

lemma ffi_cancel_run:
  assumes "ffi_continuation l = Continuation c" and "drop_continuation G c s = (Val (), t)"
  shows "ffi_cancel G (Some l, s) = (Val (), (Some \<lparr>is_complete = True, ffi_continuation = Completion ()\<rparr>, t))"
  using assms by (simp add: ffi_cancel_def comp_simps is_continuation_def assign_def elsewhere_def drop_linger_def)

text \<open>
  C26.  A cancelled function is gone.  Cancelling a function that has not completed gives its
  libset, its thread-control block and its stack back to their pools and reports it as complete; and
  resuming or cancelling it again changes nothing at all.
\<close>

theorem cancel_is_final:
  assumes "group_doc E" and "v_group (view E (world s)) = group_SHARED E"
    and "ffi_continuation l = Continuation c" and "holds_all c g b"
    and "GROUPS s = Some (free_pool gs)" and "LOCALSTORES s = Some (free_pool bs)" and "STACKS s = Some (free_pool ks)"
    and "\<And>w. fst (group_renew E g w)" and "\<And>w. view E (snd (group_renew E g w)) = view E w"
  shows "\<exists>l1 t. ffi_cancel E (Some l, s) = (Val (), (Some l1, t)) \<and> is_complete l1 \<and>
    GROUPS t = Some (free_pool (gs @ [g])) \<and> LOCALSTORES t = Some (free_pool (bs @ [b])) \<and>
    (\<forall>k. stack_of c = Some k \<longrightarrow> STACKS t = Some (free_pool (ks @ [k]))) \<and>
    ffi_resume E U es us (Some l1, t) = (Val (), (Some l1, t)) \<and>
    ffi_cancel E (Some l1, t) = (Val (), (Some l1, t))"
proof -
  let ?l = "\<lparr>is_complete = True, ffi_continuation = Completion ()\<rparr>"
  let ?t = "released c g b gs bs ks
    (if task_errno (stateful c) = None then s else s\<lparr>world := snd (group_renew E g (world s))\<rparr>)"
  have "ffi_cancel E (Some l, s) = (Val (), (Some ?l, ?t))"
    using drop_continuation_run [OF assms(1,2,4-7)] assms(3,8) by (intro ffi_cancel_run) auto
  moreover have "v_group (view E (world ?t)) = group_SHARED E"
    using assms(2,9) by (simp add: released_def)
  then have "ffi_resume E U es us (Some ?l, ?t) = (Val (), (Some ?l, ?t))"
    by (simp add: ffi_resume_def resume_def comp_simps elsewhere_def is_preemptible_run [OF assms(1)] is_completion_def)
  moreover have "ffi_cancel E (Some ?l, ?t) = (Val (), (Some ?l, ?t))"
    by (simp add: ffi_cancel_def comp_simps is_continuation_def)
  ultimately show ?thesis
    by (intro exI [of _ ?l] exI [of _ ?t]) (simp add: released_def)
qed

section \<open>On the machine\<close>

text \<open>The same programs, with the value they return forgotten.\<close>

fun c_op :: "('f, 'a) user_op \<Rightarrow> ('f, unit) user_op" where
  "c_op (Works f) = Works f"
| "c_op (Calls f) = Calls f"
| "c_op (Pauses f) = Pauses f"
| "c_op (Returns _) = Returns ()"
| "c_op (Panics msg) = Panics msg"

definition m_c_user :: "(machine, instruction list, unit) user_code" where
  "m_c_user f w = (case m_user f w of (op, w') \<Rightarrow> (c_op op, w'))"

definition m_c_pools :: "(machine, instruction list, unit) process_state" where
  "m_c_pools = (boot m_start)\<lparr>GROUPS := Some (free_pool []), LOCALSTORES := Some (free_pool []), STACKS := Some (free_pool []),
     GROUPS_INIT := Once_Done, LOCALSTORES_INIT := Once_Done, STACKS_INIT := Once_Done\<rparr>"

definition m_c_linger :: "instruction list mcontext ffi_linger" where
  "m_c_linger = \<lparr>is_complete = False, ffi_continuation = Continuation m_paused\<rparr>"

lemma m_c_cancel:
  "\<exists>t. ffi_cancel m_debug (Some m_c_linger, m_c_pools) = (Val (), (Some \<lparr>is_complete = True, ffi_continuation = Completion ()\<rparr>, t))"
proof -
  have "\<exists>t. drop_continuation m_debug m_paused m_c_pools = (Val (), t)"
    by (rule exI, rule drop_continuation_run [OF m_docs(1) _ m_paused_holds, where gs = "[]" and bs = "[]" and ks = "[]"])
      (simp_all add: m_c_pools_def boot_def m_start_def)
  then obtain t where "drop_continuation m_debug m_paused m_c_pools = (Val (), t)" ..
  from ffi_cancel_run [OF _ this, of m_c_linger] show ?thesis by (simp add: m_c_linger_def)
qed

theorem flag_right_witness:
  "\<exists>l t. ffi_cancel m_debug (Some m_c_linger, m_c_pools) = (Val (), (Some l, t)) \<and> flag_ok l"
proof -
  have "flag_ok m_c_linger" by (simp add: flag_ok_def m_c_linger_def is_completion_def)
  with m_c_cancel flag_right [where E = m_debug and U = m_c_user and es = "[]"] show ?thesis by blast
qed

theorem cancel_is_final_witness:
  "\<exists>l1 t. ffi_cancel m_debug (Some m_c_linger, m_c_pools) = (Val (), (Some l1, t)) \<and> is_complete l1 \<and>
    GROUPS t = Some (free_pool [1]) \<and> STACKS t = Some (free_pool [stack_at 0]) \<and>
    ffi_resume m_debug m_c_user [] 100 (Some l1, t) = (Val (), (Some l1, t))"
proof -
  have "\<exists>l1 t. ffi_cancel m_debug (Some m_c_linger, m_c_pools) = (Val (), (Some l1, t)) \<and> is_complete l1 \<and>
    GROUPS t = Some (free_pool ([] @ [1])) \<and> LOCALSTORES t = Some (free_pool ([] @ [Some \<lparr>tcb_fs = Some (Mut 0x200000)\<rparr>])) \<and>
    (\<forall>k. stack_of m_paused = Some k \<longrightarrow> STACKS t = Some (free_pool ([] @ [k]))) \<and>
    ffi_resume m_debug m_c_user [] 100 (Some l1, t) = (Val (), (Some l1, t)) \<and>
    ffi_cancel m_debug (Some l1, t) = (Val (), (Some l1, t))"
    by (rule cancel_is_final [OF m_docs(1) _ _ m_paused_holds]) (simp_all add: m_c_linger_def m_c_pools_def boot_def m_start_def)
  then show ?thesis by (auto simp: stack_of_def m_paused_def)
qed

end
