(* ===== verification/Profiler.thy ===== *)
theory Profiler
  imports Machine
begin

text \<open>
  \<^verbatim>\<open>src/profiler.rs\<close>: a stopwatch for each thread that remembers how long each lap took, and a
  handler that ends the process from any thread but the main one when it is interrupted.

  What the destructor prints is the average in floating point; the model gives the two integers
  it is computed from to a parameter.
\<close>

section \<open>Data\<close>

record profiler =
  past :: "u64 list"
  present :: u64

definition profiler_default :: profiler where
  "profiler_default = \<lparr>past = [], present = 0\<rparr>"

record 'w profiling = "'w process" +
  PROFILER :: "usize \<Rightarrow> profiler option refcell"
  PROFILER_ONCE :: once

text \<open>What the module uses besides the calls modelled elsewhere.\<close>

record 'w profiler_env =
  thread_name :: "'w \<Rightarrow> string option"
  addr_of_interrupt :: handler
  puts_average :: "u64 \<Rightarrow> nat \<Rightarrow> 'w \<Rightarrow> 'w"

definition profiler_place :: "usize \<Rightarrow> (('w, 's) profiling_scheme, profiler option refcell) place" where
  "profiler_place fs = \<lparr>place_get = (\<lambda>s. PROFILER s fs), place_put = (\<lambda>c s. s\<lparr>PROFILER := (PROFILER s)(fs := c)\<rparr>)\<rparr>"

definition profiler_once :: "(('w, 's) profiling_scheme, once) place" where
  "profiler_once = \<lparr>place_get = PROFILER_ONCE, place_put = (\<lambda>c s. s\<lparr>PROFILER_ONCE := c\<rparr>)\<rparr>"

section \<open>Operations\<close>

text \<open>
  \<^verbatim>\<open>with_profiler\<close>: the cell stays borrowed while \<open>fun\<close> works on the thread's profiler; borrowing
  it again meanwhile panics.
\<close>

definition with_profiler :: "('w, 'z) libc_scheme \<Rightarrow> (profiler \<times> ('w, 's) profiling_scheme, 'x) comp \<Rightarrow>
    (('w, 's) profiling_scheme, 'x) comp" where
  "with_profiler L fun =
     bind (gets (fs_of L)) (\<lambda>fs.
     bind (inner_of refcell_ops (profiler_place fs)) (\<lambda>r.
     bind (expect_ok ''already borrowed'' debug_borrow_mut_error r) (\<lambda>p. (\<lambda>s.
       case fun ((case p of Some p \<Rightarrow> p | None \<Rightarrow> profiler_default), s) of
         (Val x, (p', t)) \<Rightarrow> (Val x, place_put (profiler_place fs) (drop_guard refcell_ops False (Some p') (PROFILER t fs)) t)
       | (Fail (Panicked msg), (p', t)) \<Rightarrow>
           (Fail (Panicked msg), place_put (profiler_place fs) (drop_guard refcell_ops True (Some p') (PROFILER t fs)) t)
       | (Fail e, (p', t)) \<Rightarrow> (Fail e, t)))))"

definition profiler_begin :: "'w profiler_env \<Rightarrow> ('w, 'z) libc_scheme \<Rightarrow>
    (profiler \<times> ('w, 's) profiling_scheme, unit) comp" where
  "profiler_begin V L =
     andthen (elsewhere (call_once profiler_once
       (andthen (sigaction L Interrupt (Action (sigaction_new (addr_of_interrupt V) (sigset_empty L) 0))) (ret ()))))
     (bind (elsewhere (nsnow L)) (\<lambda>now. modify (\<lambda>(p, s). (p\<lparr>present := now\<rparr>, s))))"

definition profiler_end :: "('w, 'z) libc_scheme \<Rightarrow> (profiler \<times> ('w, 's) profiling_scheme, bool) comp" where
  "profiler_end L =
     bind (gets (\<lambda>(p, _). present p)) (\<lambda>present.
       if present \<noteq> 0 then
         bind (elsewhere (nsnow L)) (\<lambda>now.
         bind (sub_checked (debug_build L) now present) (\<lambda>elapsed.
         andthen (modify (\<lambda>(p, s). (p\<lparr>past := past p @ [elapsed], present := 0\<rparr>, s)))
         (ret True)))
       else ret False)"

text \<open>\<^verbatim>\<open>iter().sum()\<close> adds like \<open>+\<close> does.\<close>

fun sum_u64 :: "bool \<Rightarrow> u64 list \<Rightarrow> u64 \<Rightarrow> ('s, u64) comp" where
  "sum_u64 debug [] acc = ret acc"
| "sum_u64 debug (x # xs) acc = bind (add_checked debug acc x) (sum_u64 debug xs)"

definition drop_profiler :: "'w profiler_env \<Rightarrow> ('w, 'z) libc_scheme \<Rightarrow> profiler \<Rightarrow> (('w, 's) process_scheme, unit) comp" where
  "drop_profiler V L self =
     (let len = length (past self) in
      bind (sum_u64 (debug_build L) (past self) 0) (\<lambda>sum. primu (puts_average V sum len)))"

definition interrupt :: "'w profiler_env \<Rightarrow> ('w, 'z) libc_scheme \<Rightarrow> (('w, 's) process_scheme, unit) comp" where
  "interrupt V L =
     bind (asks (thread_name V)) (\<lambda>name.
     bind (case name of Some name \<Rightarrow> ret name | None \<Rightarrow> failing (Aborted '''')) (\<lambda>name.
       if name \<noteq> ''main'' then failing (Exited 100)
       else andthen (pthread_sigmask L Block (sigset_add L Interrupt (sigset_empty L))) (ret ())))"

section \<open>Laps\<close>

lemma nsnow_elsewhere: "time_is L (world s) now \<Longrightarrow> elsewhere (nsnow L) (p, s) = (Val now, (p, s))"
  by (simp add: elsewhere_def nsnow_run)

text \<open>The time a lap took, in a build that checks for overflow and in one that does not.\<close>

lemma profiler_end_run:
  assumes "time_is L (world s) now" and "present p \<noteq> 0" and "present p \<le> now"
  shows "profiler_end L (p, s) = (Val True, (p\<lparr>past := past p @ [now - present p], present := 0\<rparr>, s))"
  using assms by (simp add: profiler_end_def comp_simps nsnow_elsewhere sub_checked_def not_less)

text \<open>
  C40.  A lap is recorded once.  Beginning a lap and ending it appends to the laps exactly the
  nanoseconds in between, while the clock does not go backwards; ending again records nothing.
\<close>

theorem profiler_lap:
  assumes "time_is L (world s) start" and "time_is L w now" and "start \<noteq> 0" and "start \<le> now"
    and "PROFILER_ONCE s = Once_Done"
  shows "\<exists>p1 p2. profiler_begin V L (p, s) = (Val (), (p1, s)) \<and>
    profiler_end L (p1, s\<lparr>world := w\<rparr>) = (Val True, (p2, s\<lparr>world := w\<rparr>)) \<and>
    (\<exists>lap. past p2 = past p @ [lap] \<and> unat lap = unat now - unat start) \<and>
    profiler_end L (p2, s\<lparr>world := w\<rparr>) = (Val False, (p2, s\<lparr>world := w\<rparr>))"
proof -
  let ?p1 = "p\<lparr>present := start\<rparr>"
  let ?p2 = "?p1\<lparr>past := past ?p1 @ [now - present ?p1], present := 0\<rparr>"
  have "profiler_begin V L (p, s) = (Val (), (?p1, s))"
    using assms(5) by (simp add: profiler_begin_def comp_simps nsnow_elsewhere [OF assms(1)] elsewhere_def
        call_once_def profiler_once_def nsnow_run [OF assms(1)])
  moreover have "profiler_end L (?p1, s\<lparr>world := w\<rparr>) = (Val True, (?p2, s\<lparr>world := w\<rparr>))"
    using assms(2-4) by (intro profiler_end_run) simp_all
  moreover have "unat (now - start) = unat now - unat start"
    using assms(4) by (simp add: unat_sub)
  ultimately show ?thesis
    by (intro exI [of _ ?p1] exI [of _ ?p2]) (simp add: profiler_end_def comp_simps)
qed

text \<open>A thread named \<open>main\<close> on the machine.\<close>

definition m_profiler_env :: "machine profiler_env" where
  "m_profiler_env = \<lparr>thread_name = (\<lambda>_. Some ''main''), addr_of_interrupt = 0x402000, puts_average = (\<lambda>_ _ w. w)\<rparr>"

definition m_profiling :: "machine profiling" where
  "m_profiling = \<lparr>world = m_start, PROFILER = (\<lambda>_. \<lparr>rc_value = None, rc_borrowed = False\<rparr>), PROFILER_ONCE = Once_Done\<rparr>"

theorem profiler_lap_witness:
  "\<exists>p1 p2 lap. profiler_begin m_profiler_env (m_libc True) (profiler_default, m_profiling) = (Val (), (p1, m_profiling)) \<and>
    profiler_end (m_libc True) (p1, m_profiling\<lparr>world := m_start\<lparr>m_now := 1000000500\<rparr>\<rparr>) =
      (Val True, (p2, m_profiling\<lparr>world := m_start\<lparr>m_now := 1000000500\<rparr>\<rparr>)) \<and>
    past p2 = [lap] \<and> unat lap = 500"
proof -
  have t: "time_is (m_libc True) w (m_now w)" for w
    using m_time_is [where debug = True and w = w] by (simp add: time_is_def m_libc_def)
  have "\<exists>p1 p2. profiler_begin m_profiler_env (m_libc True) (profiler_default, m_profiling) = (Val (), (p1, m_profiling)) \<and>
    profiler_end (m_libc True) (p1, m_profiling\<lparr>world := m_start\<lparr>m_now := 1000000500\<rparr>\<rparr>) =
      (Val True, (p2, m_profiling\<lparr>world := m_start\<lparr>m_now := 1000000500\<rparr>\<rparr>)) \<and>
    (\<exists>lap. past p2 = past profiler_default @ [lap] \<and>
      unat lap = unat (m_now (m_start\<lparr>m_now := 1000000500\<rparr>)) - unat (m_now (world m_profiling))) \<and>
    profiler_end (m_libc True) (p2, m_profiling\<lparr>world := m_start\<lparr>m_now := 1000000500\<rparr>\<rparr>) =
      (Val False, (p2, m_profiling\<lparr>world := m_start\<lparr>m_now := 1000000500\<rparr>\<rparr>))"
    by (rule profiler_lap [OF t t]) (simp_all add: m_profiling_def m_start_def)
  then show ?thesis by (auto simp: profiler_default_def m_profiling_def m_start_def)
qed

text \<open>
  An interruption ends the process from any thread but the main one; the main thread only
  blocks further interruptions.  A thread without a name aborts.
\<close>

theorem interrupt_behaviour:
  assumes "sigset_doc L" and "sigmask_doc L"
  shows "case thread_name V (world s) of
      None \<Rightarrow> interrupt V L s = (Fail (Aborted ''''), s)
    | Some name \<Rightarrow> if name = ''main''
        then \<exists>w. interrupt V L s = (Val (), s\<lparr>world := w\<rparr>) \<and>
          view L w = (view L (world s))\<lparr>v_mask := insert (signal_as_c_int Interrupt) (v_mask (view L (world s)))\<rparr>
        else interrupt V L s = (Fail (Exited 100), s)"
  by (auto simp: interrupt_def comp_simps sigset_laws [OF assms(1)] sigmask_laws [OF assms(2)] split: option.split)

theorem interrupt_behaviour_witness:
  "\<exists>w. interrupt m_profiler_env (m_platform True :: (machine, nat) platform) m_profiling = (Val (), m_profiling\<lparr>world := w\<rparr>) \<and> v_mask (m_view w) = {2}"
proof -
  have "\<exists>w. interrupt m_profiler_env (m_platform True :: (machine, nat) platform) m_profiling = (Val (), m_profiling\<lparr>world := w\<rparr>) \<and>
      m_view w = (m_view (world m_profiling))\<lparr>v_mask := insert 2 (v_mask (m_view (world m_profiling)))\<rparr>"
    using interrupt_behaviour [OF m_docs(3,4) [where debug = True], where V = m_profiler_env and s = m_profiling]
    by (simp add: m_profiler_env_def)
  then show ?thesis by (auto simp: m_profiling_def m_start_def)
qed

text \<open>
  Profilers do not nest.  Asking for the thread's profiler while one is in use panics, and
  because the cell is released as the panic unwinds, the profiler can be used again afterwards.
\<close>

theorem with_profiler_nested:
  assumes "\<not> rc_borrowed (PROFILER s (fs_of L s))"
  shows "\<exists>t. with_profiler L (elsewhere (with_profiler L m)) s = (Fail (Panicked ''already borrowed: BorrowMutError''), t) \<and>
    \<not> rc_borrowed (PROFILER t (fs_of L t)) \<and> world t = world s"
  using assms
  by (simp add: with_profiler_def comp_simps inner_of_def profiler_place_def refcell_ops_def refcell_try_into_inner_def
      elsewhere_def)

theorem with_profiler_nested_witness:
  "\<exists>t. with_profiler (m_libc True) (elsewhere (with_profiler (m_libc True) (profiler_end (m_libc True)))) m_profiling =
      (Fail (Panicked ''already borrowed: BorrowMutError''), t) \<and>
    \<not> rc_borrowed (PROFILER t (fs_of (m_libc True) t)) \<and> world t = m_start"
  using with_profiler_nested [of m_profiling "m_libc True" "profiler_end (m_libc True)"]
  by (simp add: m_profiling_def)

end
