(* ===== verification/Future.thy ===== *)
theory Future
  imports Release
begin

text \<open>
  \<^verbatim>\<open>src/future.rs\<close>: a preemptible function as a future.  Each poll sends the function something to
  call through a channel that holds one value, and resumes it; the function receives it, calls it,
  and then runs the user's function, pausing whenever that is pending.

  The channel lives in the memory the poller shares with the function, a place in the world.
  The user's two closures are code, one step at a time, like every preemptible function.
\<close>

section \<open>The channel\<close>

text \<open>\<^verbatim>\<open>sync_channel(1)\<close>: what was sent and not yet received, and whether the receiver still exists.\<close>

record 'i channel =
  chan_queue :: "'i list"
  chan_receiver :: bool

definition sync_channel :: "'i channel" where
  "sync_channel = \<lparr>chan_queue = [], chan_receiver = True\<rparr>"

text \<open>
  Sending blocks while the channel is full, and it fails, and here panics, once the receiver is
  gone.
\<close>

definition chan_send :: "('w, 'i channel) place \<Rightarrow> 'i \<Rightarrow> (('w, 's) process_scheme, unit) comp" where
  "chan_send CH i =
     bind (asks (place_get CH)) (\<lambda>c.
       if \<not> chan_receiver c then unwrap_ok (\<lambda>_. ''SendError { .. }'') (Err ())
       else if chan_queue c \<noteq> [] then failing Blocked
       else primu (place_put CH (c\<lparr>chan_queue := [i]\<rparr>)))"

definition hang_up :: "('w, 'i channel) place \<Rightarrow> 'w \<Rightarrow> 'w" where
  "hang_up CH w = place_put CH ((place_get CH w)\<lparr>chan_receiver := False\<rparr>) w"

section \<open>The preemptible function\<close>

datatype 'a poll = Ready 'a | Pending

text \<open>Where the function is: waiting to receive, calling what it received, or in the user's function.\<close>

datatype ('i, 'g) polling = Receiving 'g | Preparing 'i 'g | Polling 'g

text \<open>
  One step of the closure \<^verbatim>\<open>poll_fns\<close> launches.  While the channel is empty, \<^verbatim>\<open>recv\<close> waits.  The
  sender outlives the function, so \<^verbatim>\<open>recv\<close> does not fail.  When the closure is done, by a value or by a
  panic, the receiver it owns is dropped.
\<close>

definition poll_user :: "('w, 'i channel) place \<Rightarrow> ('w, 'i, unit) user_code \<Rightarrow> ('w, 'g, 'a poll \<times> 'g) user_code \<Rightarrow>
    ('w, ('i, 'g) polling, 'a) user_code" where
  "poll_user CH prep fun st w = (case st of
      Receiving g \<Rightarrow> (let c = place_get CH w in case chan_queue c of
          [] \<Rightarrow> (Works (Receiving g), w)
        | i # q \<Rightarrow> (Works (Preparing i g), place_put CH (c\<lparr>chan_queue := q\<rparr>) w))
    | Preparing i g \<Rightarrow> (case prep i w of (op, w') \<Rightarrow> (case op of
          Works i' \<Rightarrow> (Works (Preparing i' g), w')
        | Calls i' \<Rightarrow> (Calls (Preparing i' g), w')
        | Pauses i' \<Rightarrow> (Pauses (Preparing i' g), w')
        | Returns _ \<Rightarrow> (Works (Polling g), w')
        | Panics msg \<Rightarrow> (Panics msg, hang_up CH w')))
    | Polling g \<Rightarrow> (case fun g w of (op, w') \<Rightarrow> (case op of
          Works g' \<Rightarrow> (Works (Polling g'), w')
        | Calls g' \<Rightarrow> (Calls (Polling g'), w')
        | Pauses g' \<Rightarrow> (Pauses (Polling g'), w')
        | Returns (res, g') \<Rightarrow> (case res of
            Pending \<Rightarrow> (Pauses (Receiving g'), w')
          | Ready res \<Rightarrow> (Returns res, hang_up CH w'))
        | Panics msg \<Rightarrow> (Panics msg, hang_up CH w'))))"

section \<open>The future\<close>

text \<open>The poller's closure \<^verbatim>\<open>poll\<close> makes what is sent; the sender \<^verbatim>\<open>pre\<close> is where the channel is.\<close>

record ('w, 'i, 'a, 'm) preemptive_future =
  pf_fun :: "('a, 'm) linger option"
  pf_us :: u64
  pf_poll :: "'w \<Rightarrow> 'i \<times> 'w"
  pf_pre :: "('w, 'i channel) place"

definition poll_fns :: "('w, ('i, 'g) polling, 'z) platform_scheme \<Rightarrow> ('w, 'i channel) place \<Rightarrow>
    ('w \<Rightarrow> 'i \<times> 'w) \<Rightarrow> ('w, 'i, unit) user_code \<Rightarrow> ('w, 'g, 'a poll \<times> 'g) user_code \<Rightarrow> 'g \<Rightarrow> u64 \<Rightarrow>
    (('w, ('i, 'g) polling mcontext, ('i, 'g) polling, 'a, 's) lingering_scheme,
     ('w, 'i, 'a, ('i, 'g) polling mcontext) preemptive_future io_result) comp" where
  "poll_fns E CH poll prep fun g us =
     andthen (primu (place_put CH sync_channel))
     (or_return (launch E (poll_user CH prep fun) [] (Receiving g) 0) (\<lambda>fun.
      ret (Ok \<lparr>pf_fun = Some fun, pf_us = us, pf_poll = poll, pf_pre = CH\<rparr>)))"

text \<open>\<^verbatim>\<open>poll_fn\<close>: every poll sends a function that does nothing.\<close>

definition nop :: "('w, unit, unit) user_code" where
  "nop i w = (Returns (), w)"

definition nope :: "'w \<Rightarrow> unit \<times> 'w" where
  "nope w = ((), w)"

definition poll_fn :: "('w, (unit, 'g) polling, 'z) platform_scheme \<Rightarrow> ('w, unit channel) place \<Rightarrow>
    ('w, 'g, 'a poll \<times> 'g) user_code \<Rightarrow> 'g \<Rightarrow> u64 \<Rightarrow>
    (('w, (unit, 'g) polling mcontext, (unit, 'g) polling, 'a, 's) lingering_scheme,
     ('w, unit, 'a, (unit, 'g) polling mcontext) preemptive_future io_result) comp" where
  "poll_fn E CH fun g us = poll_fns E CH nope nop fun g us"

text \<open>Sending and resuming, with the function taken out of the future.\<close>

definition future_resume :: "('w, 'f, 'z) platform_scheme \<Rightarrow> ('w, 'i channel) place \<Rightarrow> ('w, 'f, 'a) user_code \<Rightarrow>
    ('w \<Rightarrow> 'i \<times> 'w) \<Rightarrow> event list \<Rightarrow> u64 \<Rightarrow>
    (('a, 'f mcontext) linger \<times> ('w, 'f mcontext, 'f, 'a, 's) lingering_scheme, unit io_result) comp" where
  "future_resume E CH U mk es us =
     bind (elsewhere (prim mk)) (\<lambda>i.
     andthen (elsewhere (chan_send CH i)) (resume E U es us))"

definition future_poll :: "('w, 'f, 'z) platform_scheme \<Rightarrow> ('w, 'f, 'a) user_code \<Rightarrow> ('w \<Rightarrow> 'w) \<Rightarrow> event list \<Rightarrow>
    (('w, 'i, 'a, 'f mcontext) preemptive_future \<times> ('w, 'f mcontext, 'f, 'a, 's) lingering_scheme, 'a io_result poll) comp" where
  "future_poll E U wake es =
     bind (gets (\<lambda>(self, _). pf_fun self)) (\<lambda>fun.
     andthen (modify (\<lambda>(self, s). (self\<lparr>pf_fun := None\<rparr>, s)))
     (case fun of
       None \<Rightarrow> ret Pending
     | Some fun \<Rightarrow> (\<lambda>(self, s). case future_resume E (pf_pre self) U (pf_poll self) es (pf_us self) (fun, s) of
         (Fail e, (l, t)) \<Rightarrow> elsewhere (on_panic (failing e) (drop_linger E l)) (self, t)
       | (Val (Err e), (l, t)) \<Rightarrow> elsewhere (andthen (drop_linger E l) (ret (Ready (Err e)))) (self, t)
       | (Val (Ok _), (l, t)) \<Rightarrow> (case l of
           Completion ready \<Rightarrow> (Val (Ready (Ok ready)), (self, t))
         | _ \<Rightarrow> (let timeout = \<not> yielded l in
             elsewhere (andthen (only_if timeout (primu wake)) (ret Pending)) (self\<lparr>pf_fun := Some l\<rparr>, t))))))"

section \<open>What a future promises\<close>

text \<open>
  A promise about the user's function of a future: an invariant of its states, kept from one call to the
  next, and a condition on the value it is ready with.  It becomes a promise about the closure.
\<close>

definition poll_promise :: "('g \<Rightarrow> bool) \<Rightarrow> ('a \<Rightarrow> bool) \<Rightarrow> ('g, 'a poll \<times> 'g) promise" where
  "poll_promise I Q = (I, \<lambda>r. case r of
     Ok (Pending, g) \<Rightarrow> I g | Ok (Ready v, _) \<Rightarrow> Q v | Err _ \<Rightarrow> True)"

definition polling_promise :: "('g \<Rightarrow> bool) \<Rightarrow> ('a \<Rightarrow> bool) \<Rightarrow> (('i, 'g) polling, 'a) promise" where
  "polling_promise I Q = (\<lambda>st. case st of Receiving g \<Rightarrow> I g | Preparing i g \<Rightarrow> I g | Polling g \<Rightarrow> I g,
     \<lambda>r. case r of Ok v \<Rightarrow> Q v | Err _ \<Rightarrow> True)"

text \<open>Reaching the channel does not change what the kernel knows of the thread.\<close>

definition chan_doc :: "('w, 'z) libc_scheme \<Rightarrow> ('w, 'i channel) place \<Rightarrow> bool" where
  "chan_doc L CH \<longleftrightarrow> (\<forall>c w. view L (place_put CH c w) = view L w)"

lemma poll_user_keeps:
  fixes prep :: "('w, 'i, unit) user_code" and I :: "'b \<Rightarrow> bool"
  assumes "user_keeps fun (poll_promise I Q)"
  shows "user_keeps (poll_user CH prep fun) (polling_promise I Q)"
  unfolding user_keeps_def
proof (intro allI impI)
  fix st :: "('i, 'b) polling" and w assume inv: "fst (polling_promise I Q) st"
  have pre: "fst (poll_user CH prep fun (Preparing i g) w) = (case fst (prep i w) of Works i' \<Rightarrow> Works (Preparing i' g)
      | Calls i' \<Rightarrow> Calls (Preparing i' g) | Pauses i' \<Rightarrow> Pauses (Preparing i' g) | Returns _ \<Rightarrow> Works (Polling g)
      | Panics msg \<Rightarrow> Panics msg)" for i g
    by (simp add: poll_user_def split: prod.split user_op.split)
  have run: "fst (poll_user CH prep fun (Polling g) w) = (case fst (fun g w) of Works g' \<Rightarrow> Works (Polling g')
      | Calls g' \<Rightarrow> Calls (Polling g') | Pauses g' \<Rightarrow> Pauses (Polling g')
      | Returns (res, g') \<Rightarrow> (case res of Pending \<Rightarrow> Pauses (Receiving g') | Ready v \<Rightarrow> Returns v)
      | Panics msg \<Rightarrow> Panics msg)" for g
    by (simp add: poll_user_def split: prod.split user_op.split poll.split)
  show "case fst (poll_user CH prep fun st w) of
      Works f' \<Rightarrow> fst (polling_promise I Q) f' | Calls f' \<Rightarrow> fst (polling_promise I Q) f'
    | Pauses f' \<Rightarrow> fst (polling_promise I Q) f' | Returns v \<Rightarrow> snd (polling_promise I Q) (Ok v)
    | Panics msg \<Rightarrow> snd (polling_promise I Q) (Err msg)"
  proof (cases st)
    case (Receiving g)
    with inv show ?thesis by (simp add: poll_user_def polling_promise_def Let_def split: list.split)
  next
    case (Preparing i g)
    with inv show ?thesis unfolding Preparing pre by (simp add: polling_promise_def split: user_op.split)
  next
    case (Polling g)
    with inv assms [unfolded user_keeps_def, rule_format, of g w] show ?thesis
      unfolding Polling run by (auto simp: polling_promise_def poll_promise_def split: user_op.splits poll.splits prod.splits)
  qed
qed

lemma poll_user_doc:
  assumes "chan_doc L CH" and "user_doc L prep" and "user_doc L fun"
  shows "user_doc L (poll_user CH prep fun)"
  unfolding user_doc_def
proof (intro allI)
  fix st w
  have hang: "view L (hang_up CH w') = view L w'" for w'
    using assms(1) by (simp add: hang_up_def chan_doc_def)
  show "sets_errno L w (snd (poll_user CH prep fun st w))"
  proof (cases st)
    case (Receiving g)
    then show ?thesis
      using assms(1) by (auto simp: poll_user_def Let_def chan_doc_def intro!: sets_errno_none split: list.split)
  next
    case (Preparing i g)
    have "sets_errno L w (snd (prep i w))" using assms(2) by (simp add: user_doc_def)
    then show ?thesis
      unfolding Preparing by (auto simp: poll_user_def sets_errno_def hang split: prod.split user_op.split)
  next
    case (Polling g)
    have "sets_errno L w (snd (fun g w))" using assms(3) by (simp add: user_doc_def)
    then show ?thesis
      unfolding Polling by (auto simp: poll_user_def sets_errno_def hang split: prod.split user_op.split poll.split)
  qed
qed

section \<open>Polling\<close>

lemma caller_ok_world: "caller_ok G me s \<Longrightarrow> place_of G w = place_of G (world s) \<Longrightarrow> caller_ok G me (s\<lparr>world := w\<rparr>)"
  by (simp add: caller_ok_def place_of_def)

lemma sets_errno_place: "sets_errno L w w' \<Longrightarrow> place_of L w' = place_of L w"
  by (auto simp: sets_errno_def place_of_def)

lemma future_resume_wp:
  assumes doc: "run_doc E U J" "setup_doc E" "chan_doc E CH" "\<And>w. sets_errno E w (snd (mk w))"
    and call: "caller_ok E me s" and c: "cont_ok E J a g c s" "a \<noteq> me"
  shows "wp (future_resume E CH U mk es us) (\<lambda>r (l, t). r = Ok () \<longrightarrow> caller_ok E me t \<and>
     (case l of
        Completion v \<Rightarrow> snd J (Ok v)
      | Continuation c' \<Rightarrow> cont_ok E J a g c' t \<and> functional c' = functional c
      | Poison \<Rightarrow> False)) (Continuation c, s)"
proof -
  have go: "wp (resume E U es us) (\<lambda>r (l, t). r = Ok () \<longrightarrow> caller_ok E me t \<and>
     (case l of Completion v \<Rightarrow> snd J (Ok v) | Continuation c' \<Rightarrow> cont_ok E J a g c' t \<and> functional c' = functional c
      | Poison \<Rightarrow> False)) (Continuation c, s\<lparr>world := w\<rparr>)"
    if "place_of E w = place_of E (world s)" for w
    by (rule wp_mono [OF resume_wp [OF doc(1,2) caller_ok_world [OF call that] cont_ok_world [THEN iffD2, OF c(1)] c(2)]])
      (auto simp: resume_post_def split: linger.split)
  have p: "place_of E (snd (mk (world s))) = place_of E (world s)"
    by (rule sets_errno_place [OF doc(4)])
  have q: "place_of E (place_put CH x (snd (mk (world s)))) = place_of E (world s)" for x
    using p doc(3) by (simp add: place_of_def chan_doc_def)
  show ?thesis
    by (simp add: future_resume_def chan_send_def go [OF q])
qed

text \<open>
  C28.  Polling is safe, and a future is ready only with a value the user's function is ready with.  Let \<open>I\<close> be an
  invariant of the states of the user's function \<open>fun\<close> and \<open>Q\<close> hold of every value it is ready with; nothing is
  assumed of the closure around it.  Poll a
  future whose function is in a well-formed continuation, whatever happens while it runs: nothing
  undefined occurs; if the poll reports pending, the future again holds such a continuation of the
  same function; if it reports a value, \<open>Q\<close> holds of it, and the future
  holds nothing any more.
\<close>

theorem future_poll_contract:
  fixes prep :: "('w, 'i, unit) user_code" and "fun" :: "('w, 'g, 'a poll \<times> 'g) user_code"
  assumes "preempt_doc E" and "context_doc E" and "kernel_doc E" and "clock_doc E" and "setup_doc E" and "chan_doc E (pf_pre self)"
    and "user_doc E prep" and "user_doc E fun" and "user_keeps fun (poll_promise I Q)"
    and "\<And>w. sets_errno E w (snd (pf_poll self w))" and "\<And>w. sets_errno E w (wake w)"
    and "caller_ok E me s" and "cont_ok E (polling_promise I Q) a g c s" and "a \<noteq> me"
    and "pf_fun self = Some (Continuation c)"
    and "future_poll E (poll_user (pf_pre self) prep fun) wake es (self, s) = (r, (self', t))"
  shows "r \<noteq> Fail Undefined \<and>
    (r = Val Pending \<longrightarrow> caller_ok E me t \<and> (\<exists>c'. pf_fun self' = Some (Continuation c') \<and>
      cont_ok E (polling_promise I Q) a g c' t \<and> functional c' = functional c)) \<and>
    (\<forall>v. r = Val (Ready (Ok v)) \<longrightarrow> caller_ok E me t \<and> pf_fun self' = None \<and> Q v)"
proof -
  have doc: "run_doc E (poll_user (pf_pre self) prep fun) (polling_promise I Q)"
    using assms(1-4) poll_user_doc [OF assms(6-8)] poll_user_keeps [OF assms(9)] by (simp add: run_doc_def)
  obtain q l u where run: "future_resume E (pf_pre self) (poll_user (pf_pre self) prep fun) (pf_poll self) es (pf_us self) (Continuation c, s) = (q, (l, u))"
    by (metis prod.collapse)
  note w = future_resume_wp [OF doc assms(5,6,10,12-14), where es = es and us = "pf_us self", unfolded wp_def run]
  have d: "fst (drop_linger E l u) \<noteq> Fail Undefined"
    using defined_drop_continuation unfolding defined_def drop_linger_def by (auto split: linger.split)
  have k: "caller_ok E me (u\<lparr>world := wake (world u)\<rparr>)" if "caller_ok E me u"
    using caller_ok_world [OF that sets_errno_place [OF assms(11)]] .
  show ?thesis
  proof (cases q)
    case (Fail e)
    then show ?thesis
      using assms(15,16) run w d
      by (auto simp: future_poll_def comp_simps elsewhere_def on_panic_def
          split: prod.splits outcome.splits failure.splits)
  next
    case (Val x)
    show ?thesis
    proof (cases x)
      case (Err e)
      then show ?thesis
        using assms(15,16) run Val d
        by (auto simp: future_poll_def comp_simps elsewhere_def split: prod.splits outcome.splits)
    next
      case (Ok y)
      then show ?thesis
        using assms(15,16) run Val w k
        by (cases l) (auto simp: future_poll_def comp_simps elsewhere_def Let_def polling_promise_def
            split: if_splits)
    qed
  qed
qed

text \<open>On the machine, with its mailbox as the channel: a function pending a number of times.\<close>

definition m_mailbox :: "(machine, nat channel) place" where
  "m_mailbox = \<lparr>place_get = (\<lambda>w. \<lparr>chan_queue = m_mail w, chan_receiver = m_mail_open w\<rparr>),
     place_put = (\<lambda>c w. w\<lparr>m_mail := chan_queue c, m_mail_open := chan_receiver c\<rparr>)\<rparr>"

definition m_prep :: "(machine, nat, unit) user_code" where
  "m_prep i w = (Returns (), w)"

definition m_poll :: "(machine, nat, nat poll \<times> nat) user_code" where
  "m_poll g w = (Returns (if g = 0 then Ready 42 else Pending, g - 1), w)"

definition m_future :: "(machine, nat, nat, (nat, nat) polling mcontext) preemptive_future" where
  "m_future = \<lparr>pf_fun = Some (Continuation m_fresh), pf_us = 100, pf_poll = \<lambda>w. (0, w), pf_pre = m_mailbox\<rparr>"

definition m_pollable :: "nat list \<Rightarrow> (machine, (nat, nat) polling, nat) process_state" where
  "m_pollable mail = m_with (m_start\<lparr>m_mail := mail, m_mail_open := True\<rparr>) (Receiving 0)"

abbreviation m_poller :: "(machine, (nat, nat) polling) platform" where
  "m_poller \<equiv> m_platform True"

lemma m_chan_doc: "chan_doc m_poller m_mailbox"
  by (simp add: chan_doc_def m_mailbox_def)

lemma m_poll_keeps: "user_keeps m_poll (poll_promise (\<lambda>_. True) (\<lambda>v. v = 42))"
  by (simp add: user_keeps_def m_poll_def poll_promise_def)

lemma m_poll_doc: "user_doc m_poller m_prep" "user_doc m_poller m_poll"
  by (simp_all add: user_doc_def m_prep_def m_poll_def sets_errno_none)

theorem future_poll_contract_witness:
  "\<exists>r self t. future_poll m_poller (poll_user m_mailbox m_prep m_poll) id [Steps, Steps, Steps, Steps, Steps]
      (m_future, m_pollable []) = (r, (self, t)) \<and>
    r \<noteq> Fail Undefined \<and> (\<forall>v. r = Val (Ready (Ok v)) \<longrightarrow> pf_fun self = None \<and> v = 42)"
proof -
  obtain r self t where run: "future_poll m_poller (poll_user m_mailbox m_prep m_poll) id
      [Steps, Steps, Steps, Steps, Steps] (m_future, m_pollable []) = (r, (self, t))" by (metis prod.collapse)
  have call: "caller_ok m_poller 0x100000 (m_pollable [])"
    unfolding m_pollable_def by (rule m_with_caller) simp
  have c: "cont_ok m_poller (polling_promise (\<lambda>_. True) (\<lambda>v. v = 42)) 0x200000 1 m_fresh (m_pollable [])"
    unfolding m_pollable_def by (rule m_fresh_ok) (simp add: polling_promise_def)
  have f: "pf_pre m_future = m_mailbox" "pf_poll m_future = (\<lambda>w. (0, w))" "pf_fun m_future = Some (Continuation m_fresh)"
    by (simp_all add: m_future_def)
  from future_poll_contract [of m_poller m_future, unfolded f(1,2), OF m_preempt_doc m_docs(10,9) m_clock_doc m_setup_doc m_chan_doc
      m_poll_doc m_poll_keeps _ _ call c _ f(3) run] run
  show ?thesis by (simp add: sets_errno_none)
qed

text \<open>
  C29.  A poll can wait for itself.  When the function has not received what an earlier poll sent
  it, the channel is full, and the next poll blocks in \<^verbatim>\<open>send\<close> before it resumes the function: the
  only code that could empty the channel never runs.
\<close>

theorem poll_blocks:
  assumes "pf_fun self = Some fun" and "chan_receiver (place_get (pf_pre self) (snd (pf_poll self (world s))))"
    and "chan_queue (place_get (pf_pre self) (snd (pf_poll self (world s)))) \<noteq> []"
  shows "future_poll E U wake es (self, s) =
    (Fail Blocked, (self\<lparr>pf_fun := None\<rparr>, s\<lparr>world := snd (pf_poll self (world s))\<rparr>))"
  using assms
  by (simp add: future_poll_def future_resume_def chan_send_def comp_simps elsewhere_def on_panic_def)

theorem poll_blocks_witness:
  "future_poll m_poller (poll_user m_mailbox m_prep m_poll) id [] (m_future, m_pollable [0]) =
    (Fail Blocked, (m_future\<lparr>pf_fun := None\<rparr>, m_pollable [0]))"
  using poll_blocks [of m_future "Continuation m_fresh" "m_pollable [0]" m_poller]
  by (simp add: m_future_def m_mailbox_def m_pollable_def m_with_def boot_def)

end
