(* ===== verification/Footprint.thy ===== *)
theory Footprint
  imports Release
begin

text \<open>
  The footprint of \<^verbatim>\<open>resume\<close> on what functions own: until a function has completed, \<^verbatim>\<open>resume\<close> touches
  neither the pool of libsets nor the pool of thread-control blocks, and it asks for no new libset
  and no new block.
\<close>

section \<open>What the library has been given\<close>

text \<open>
  The two pools and their initialization, and an observation \<open>h\<close> of the world: below, which
  libsets and blocks libgotcha and the loader have handed out.  \<open>p\<close> observes the heap, of which only
  the allocation of a stack takes more.
\<close>

definition foot :: "('w \<Rightarrow> 'i) \<Rightarrow> (nat \<Rightarrow> 'p) \<Rightarrow> ('w, 's) statics_scheme \<Rightarrow>
    'i \<times> 'p \<times> group list mutex option \<times> once \<times> tcb option list mutex option \<times> once" where
  "foot h p s = (h (world s), p (heap_next s), GROUPS s, GROUPS_INIT s, LOCALSTORES s, LOCALSTORES_INIT s)"

abbreviation any :: "nat \<Rightarrow> unit" where
  "any \<equiv> (\<lambda>_. ())"

text \<open>
  \<open>h\<close> is left alone by every call of the platform, by the kernel, by code of shared libraries and
  by the functions themselves; nothing is said of \<^verbatim>\<open>Group::new\<close> and of \<^verbatim>\<open>_dl_allocate_tls\<close> and
  \<^verbatim>\<open>_dl_deallocate_tls\<close>.
\<close>

definition calls_keep :: "('w, 'z) gotcha_scheme \<Rightarrow> ('w \<Rightarrow> 'i) \<Rightarrow> bool" where
  "calls_keep G h \<longleftrightarrow>
     (\<forall>n a w. h (snd (c_sigaction G n a w)) = h w) \<and>
     (\<forall>n m w. h (snd (c_pthread_sigmask G n m w)) = h w) \<and>
     (\<forall>c e w. h (snd (c_timer_create G c e w)) = h w) \<and>
     (\<forall>t f i w. h (snd (c_timer_settime G t f i w)) = h w) \<and>
     (\<forall>n w. h (snd (c_arch_prctl G n w)) = h w) \<and>
     (\<forall>w. h (c_ctype_init G w) = h w) \<and>
     (\<forall>g w f v. group_lookup_ctype_init G g w = Some f \<longrightarrow> h (f v) = h v) \<and>
     (\<forall>g w. h (group_thread_set G g w) = h w) \<and>
     (\<forall>g w. h (snd (group_renew G g w)) = h w) \<and>
     (\<forall>f e w. h (errno_location_write G f e w) = h w) \<and>
     (\<forall>e w. h (tt_set_errno G e w) = h w) \<and>
     (\<forall>w. h (gotcha_shared_hook G w) = h w) \<and>
     (\<forall>t n w. h (snd (libgotcha_pthread_kill G t n w)) = h w) \<and>
     (\<forall>n a w. h (snd (libgotcha_arch_prctl G n a w)) = h w)"

definition untouched :: "('w, 'f, 'z) platform_scheme \<Rightarrow> ('w, 'f, 'a) user_code \<Rightarrow> ('w \<Rightarrow> 'i) \<Rightarrow> bool" where
  "untouched E U h \<longleftrightarrow> calls_keep E h \<and>
     (\<forall>k w. h (snd (tt_makecontext E k w)) = h w) \<and>
     (\<forall>c w. h (snd (tt_restorecontext E c w)) = h w) \<and>
     (\<forall>c w. h (snd (tt_sigsetcontext E c w)) = h w) \<and>
     (\<forall>n w. h (k_expire E n w) = h w) \<and> (\<forall>n w. h (k_deliver E n w) = h w) \<and>
     (\<forall>m w. h (k_sigreturn E m w) = h w) \<and> (\<forall>w. h (k_library E w) = h w) \<and> (\<forall>w. h (tt_return E w) = h w) \<and>
     (\<forall>f w. h (snd (U f w)) = h w)"

lemma untouchedD:
  assumes "untouched E U h"
  shows "calls_keep E h" "h (snd (tt_makecontext E k w)) = h w" "h (snd (tt_restorecontext E c w)) = h w"
    "h (snd (tt_sigsetcontext E c w)) = h w" "h (k_expire E n w) = h w" "h (k_deliver E n w) = h w"
    "h (k_sigreturn E m w) = h w" "h (k_library E w) = h w" "h (snd (U f w)) = h w" "h (tt_return E w) = h w"
  using assms by (simp_all add: untouched_def)

lemma foot_world: "h w = h (world s) \<Longrightarrow> foot h p (s\<lparr>world := w\<rparr>) = foot h p s"
  by (simp add: foot_def)

lemma foot_prim: "(\<And>w. h (snd (q w)) = h w) \<Longrightarrow> keeps (foot h p) (prim q)"
  "(\<And>w. h (u w) = h w) \<Longrightarrow> keeps (foot h p) (primu u)"
  by (auto intro!: keeps_prim foot_world)

lemma ignores_foot [keeps_rules]:
  "ignores (foot h p) stacks_place" "ignores (foot h p) signals_place" "ignores (foot h p) stacks_once"
  "ignores (foot h p) signals_once" "ignores (foot h p) hook_once"
  by (simp_all add: ignores_def place_defs stacks_once_def signals_once_def hook_once_def foot_def)

lemma foot_pools [keeps_rules]:
  "keeps (foot h any) (alloc_stack G)" "keeps (foot h p) assign_signal" "keeps (foot h p) (drop_stack k)"
  "keeps (foot h p) (drop_checkpoint c)"
proof -
  show *: "keeps (foot h p) (drop_stack k)" for k unfolding drop_stack_def by (intro keeps_rules)
  then show "keeps (foot h p) (drop_checkpoint c)" unfolding drop_checkpoint_def by (intro keeps_rules)
  show "keeps (foot h any) (alloc_stack G)" and "keeps (foot h p) assign_signal"
    unfolding alloc_stack_def assign_signal_def stack_builder_def signal_builder_def
    by (intro keeps_rules keeps_modify; simp add: foot_def)+
qed

lemma foot_variables [keeps_rules]:
  "keeps (foot h p) (set_tls_of a f)" "keeps (foot h p) (set_tls L f)" "keeps (foot h p) (set_ltls L f')"
  "keeps (foot h p) (set_closure b c)" "keeps (foot h p) (write_word a i v)" "keeps (foot h p) (thread_signal L)"
  "keeps (foot h p) (nsnow L)" "keeps (foot h p) (is_preemptible G)"
  unfolding set_tls_def set_tls_of_def set_ltls_def set_closure_def write_word_def thread_signal_def nsnow_def
    is_preemptible_def
  by (intro keeps_rules keeps_modify; simp add: foot_def)+

section \<open>System calls, blocks and threads\<close>

lemma foot_syscalls [keeps_rules]:
  assumes "calls_keep G h"
  shows "keeps (foot h p) (sigaction G sig new)" "keeps (foot h p) (pthread_sigmask G how m)"
    "keeps (foot h p) (mask_signal G how sig)" "keeps (foot h p) (pthread_kill G th sig)" "keeps (foot h p) (pthread_self G)"
    "keeps (foot h p) (timer_create G ck ev)" "keeps (foot h p) (timer_settime G ti ab it)"
    "keeps (foot h p) (arch_prctl_get G gop)" "keeps (foot h p) (arch_prctl_set G sop val)"
  unfolding syscall_defs by (intro keeps_rules foot_prim; use assms in \<open>simp add: calls_keep_def\<close>)+

lemma foot_install_unguarded [keeps_rules]:
  assumes "calls_keep G h"
  shows "keeps (foot h p) (tcb_current G)" "keeps (foot h p) (install_ctype G g)" "keeps (foot h p) (install_unguarded G g b)"
proof -
  show c: "keeps (foot h p) (tcb_current G)"
    unfolding tcb_current_def by (intro keeps_rules assms)
  show i: "keeps (foot h p) (install_ctype G g)" for g
    unfolding keeps_def using assms
    by (auto simp: install_ctype_def comp_simps foot_def calls_keep_def split: option.split)
  show "keeps (foot h p) (install_unguarded G g b)"
    unfolding install_unguarded_def
    by (intro keeps_rules) (auto split: maybe_mut.split intro!: keeps_rules c i assms)
qed

lemma foot_install:
  assumes "calls_keep G h" and "install G b g s = (Val (Ok gd), t)"
  shows "foot h p t = foot h p s"
proof -
  have k: "keeps (foot h p) (unguarded_parent G (install_unguarded G (Some g) b))"
    unfolding unguarded_parent_def by (intro keeps_rules assms(1))
  from assms(2) have "unguarded_parent G (install_unguarded G (Some g) b) s = (Val (Ok (guard_parent gd)), t)"
    by (auto simp: install_def comp_simps on_panic_def split: prod.splits outcome.splits result.splits failure.splits)
  from keepsD [OF k this] show ?thesis .
qed

lemma foot_uninstall:
  assumes "calls_keep G h"
  shows "keeps (foot h p) (uninstall G gd)"
  unfolding uninstall_def drop_tcb_guard_def Let_def
  by (simp add: only_if_def) (intro keeps_rules assms)

lemma foot_thread_setup [keeps_rules]:
  assumes "calls_keep G h"
  shows "keeps (foot h p) (thread_setup G me a q)"
proof -
  have n: "keeps (foot h p) (preemption_signal_new G a q)"
    unfolding preemption_signal_new_def preemption_signal_arm_def Let_def by (intro keeps_rules assms)
  show ?thesis
    unfolding thread_setup_def
    by (intro keeps_rules n foot_prim) (use assms in \<open>simp add: calls_keep_def\<close>)
qed

lemma foot_preemption [keeps_rules]:
  assumes "calls_keep G h"
  shows "keeps (foot h p) (errno_group G grp)" "keeps (foot h p) (enable_preemption G grp)" "keeps (foot h p) (resume_preemption G)"
    "keeps (foot h p) (disable_preemption G block)" "keeps (foot h p) (defer_preemption G signum)" "keeps (foot h p) (stamp G)"
proof -
  have g: "h (group_thread_set G x w) = h w" "h (errno_location_write G f e w) = h w" for x f e w
    using assms by (simp_all add: calls_keep_def)
  show e: "keeps (foot h p) (errno_group G grp)" for grp
    unfolding errno_group_def by (intro keeps_rules)
  show p: "keeps (foot h p) (enable_preemption G grp)" for grp
    unfolding enable_preemption_def Let_def by (intro keeps_rules e foot_prim g assms)
  show "keeps (foot h p) (resume_preemption G)"
    unfolding resume_preemption_def by (intro keeps_rules p)
  show "keeps (foot h p) (disable_preemption G block)" and "keeps (foot h p) (defer_preemption G signum)"
    unfolding disable_preemption_def defer_preemption_def by (intro keeps_rules foot_prim g assms)+
  show "keeps (foot h p) (stamp G)"
    unfolding stamp_def by (intro keeps_rules)
qed

section \<open>Executing a function\<close>

lemma keeps_unfurl [keeps_rules]: "keeps f (unfurl x)"
  by (cases x) (simp_all add: keeps_rules)

lemma foot_preempt [keeps_rules]:
  assumes "calls_keep E h"
  shows "keeps (foot h p) (preempt_pause E no uc d e)" "keeps (foot h p) (preempt E no uc')"
proof -
  have w: "h (tt_set_errno E e w) = h w" for e w using assms by (simp add: calls_keep_def)
  show p: "keeps (foot h p) (preempt_pause E no uc d e)" for uc d e
    unfolding preempt_pause_def by (intro keeps_rules assms)
  show "keeps (foot h p) (preempt E no uc')"
    unfolding preempt_def Let_def by (intro keeps_rules p foot_prim w assms)
qed

lemma foot_library [keeps_rules]:
  assumes "calls_keep G h"
  shows "keeps (foot h p) (library_returns G fr)" "keeps (foot h p) (pause G)" "keeps (foot h p) (schedule_exit G fr)"
    "keeps (foot h p) (schedule G)"
proof -
  have g: "h (group_thread_set G x w) = h w" for x w using assms by (simp add: calls_keep_def)
  show "keeps (foot h p) (library_returns G fr)" "keeps (foot h p) (pause G)" "keeps (foot h p) (schedule_exit G fr)"
    unfolding library_returns_def pause_def schedule_exit_def by (intro keeps_rules foot_prim g assms)+
  show "keeps (foot h p) (schedule G)"
    unfolding schedule_def abort_def by (intro keeps_rules assms)
qed

lemma foot_user_step [keeps_rules]:
  assumes "untouched E U h"
  shows "keeps (foot h p) (user_step E U fr f)"
proof -
  note k = untouchedD(1) [OF assms]
  have g: "h (group_thread_set E x w) = h w" for x w using k by (simp add: calls_keep_def)
  have "keeps (foot h p) (case op of
       Works f' \<Rightarrow> ret (At (Running fr f'))
     | Calls f' \<Rightarrow> andthen (primu (group_thread_set E (group_SHARED E))) (ret (At (In_library fr f')))
     | Pauses f' \<Rightarrow> andthen (primu (group_thread_set E (group_SHARED E)))
         (andthen (pause E) (andthen (library_returns E fr) (ret (At (Running fr f')))))
     | Returns v \<Rightarrow> function_done fr (Ok v)
     | Panics msg \<Rightarrow> function_done fr (Err msg))" for op
    by (cases op) (auto simp: function_done_def intro!: keeps_rules foot_prim g k)
  then show ?thesis
    unfolding user_step_def by (intro keeps_rules foot_prim untouchedD(9) [OF assms])
qed

lemma foot_goto [keeps_rules]: "keeps f (goto m)"
  by (cases m) (simp_all add: goto_def keeps_rules)

lemma foot_closure_call [keeps_rules]: "keeps (foot h p) (closure_call fr)"
proof -
  have "keeps (foot h p) (case taken of Function f \<Rightarrow> ret (At (Running fr f)) | Return _ \<Rightarrow> failing Undefined
      | Empty \<Rightarrow> ret (At (Leaving fr)))" for taken
    by (cases taken) (simp_all add: keeps_rules)
  then show ?thesis unfolding closure_call_def by (intro keeps_rules)
qed

lemma foot_deliver:
  assumes "untouched E U h"
  shows "keeps (foot h p) (deliver E no c)"
  unfolding deliver_def by (intro keeps_rules foot_prim untouchedD(1,6,7) [OF assms])

lemma foot_thread_event [keeps_rules]:
  assumes "untouched E U h"
  shows "keeps (foot h p) (thread_event E U e c)"
proof -
  note k = untouchedD(1) [OF assms] and w = untouchedD(5-8,10) [OF assms]
  show ?thesis
    by (cases e; cases c) (auto intro!: keeps_rules foot_deliver foot_prim w k assms)
qed

lemma keeps_unless: "keeps f m \<Longrightarrow> keeps f (\<lambda>s. if b s then m s else (Fail e, s))"
  by (simp add: keeps_def)

lemma foot_execute [keeps_rules]:
  assumes "untouched E U h"
  shows "keeps (foot h p) (execute E U es c)"
proof (induction es arbitrary: c)
  case (Cons e es)
  show ?case
    unfolding execute.simps
    by (intro keeps_unless keeps_rules assms) (auto split: progress.split intro!: keeps_rules Cons.IH)
qed (simp add: keeps_rules)

lemma keeps_no_unwind [keeps_rules]: "keeps f m \<Longrightarrow> keeps f (no_unwind m)"
  by (auto simp: keeps_def no_unwind_def split: prod.split outcome.split failure.split) (metis snd_conv)+

lemma foot_transfer [keeps_rules]:
  assumes "untouched E U h"
  shows "keeps (foot h p) (transfer E U es m)"
  unfolding transfer_def
  by (cases m) (auto split: progress.split intro!: keeps_rules assms untouchedD(1) [OF assms])

section \<open>Switching stacks\<close>

lemma foot_scope [keeps_rules]:
  assumes "untouched E U h"
  shows "keeps (foot h p) (switch_stack_prepare E ey g)" "keeps (foot h p) (switch_stack_jump E U es err)"
    "keeps (foot h p) (switch_stack_scope E U es eo g here)"
proof -
  note k = untouchedD(1) [OF assms] and w = untouchedD(4) [OF assms]
  have g: "h (group_thread_set E x w) = h w" "h (tt_set_errno E e w) = h w" for x e w
    using k by (simp_all add: calls_keep_def)
  show p: "keeps (foot h p) (switch_stack_prepare E ey g)" for ey
    unfolding switch_stack_prepare_def abort_def by (intro keeps_rules foot_prim g k)
  show j: "keeps (foot h p) (switch_stack_jump E U es err)" for err
    unfolding switch_stack_jump_def by (intro keeps_rules foot_prim w assms)
  show "keeps (foot h p) (switch_stack_scope E U es eo g here)"
    unfolding switch_stack_scope_def by (intro keeps_rules p j)
qed

lemma foot_setup_stack:
  assumes "untouched E U h"
  shows "keeps (foot h any) (setup_stack E)"
  unfolding setup_stack_def by (intro keeps_rules foot_prim untouchedD(2) [OF assms])

lemma foot_set_task [keeps_rules]: "keeps (\<lambda>(_, s). f s) (set_task g)"
  unfolding set_task_def by (rule keeps_modify) (simp add: split_beta)

lemma foot_switch_stack:
  assumes "untouched E U h"
  shows "keeps (\<lambda>(_, s). foot h p s) (switch_stack E U es g)" "keeps (\<lambda>(_, s). foot h any s) (resume_bootstrap E g)"
proof -
  have f: "keeps (\<lambda>(_, s). foot h p s) (switch_stack_finish E)"
    unfolding switch_stack_finish_def Let_def by (intro keeps_rules)
  show "keeps (\<lambda>(_, s). foot h p s) (switch_stack E U es g)"
    unfolding switch_stack_def by (intro keeps_rules f foot_prim untouchedD(3) [OF assms] assms)
  show "keeps (\<lambda>(_, s). foot h any s) (resume_bootstrap E g)"
    unfolding resume_bootstrap_def by (intro keeps_rules foot_setup_stack [OF assms])
qed

lemma foot_resume_installed:
  assumes "untouched E U h"
  shows "keeps (\<lambda>(_, s). foot h any s) (resume_installed E U es me g us)"
  unfolding resume_installed_def setup_thread_def abort_def
  by (intro keeps_rules foot_switch_stack [OF assms] untouchedD(1) [OF assms])

lemma guarded_Ok:
  "guarded G gd m s = (Val (Ok x), t) \<Longrightarrow> m s = (Val (Ok x), t)"
  by (auto simp: guarded_def comp_simps on_panic_def split: prod.splits outcome.splits result.splits failure.splits)

lemma foot_tls [keeps_rules]: "keeps (\<lambda>(_, s). f s) take_tls" "keeps (\<lambda>(_, s). f s) (replace_tls b)"
  unfolding take_tls_def replace_tls_def
  by (intro keeps_rules keeps_modify; simp add: split_beta)+

section \<open>The heap grows\<close>

definition grows :: "('s \<Rightarrow> nat) \<Rightarrow> ('s, 'x) comp \<Rightarrow> bool" where
  "grows f m \<longleftrightarrow> (\<forall>s. f s \<le> f (snd (m s)))"

lemma growsD: "grows f m \<Longrightarrow> m s = (r, t) \<Longrightarrow> f s \<le> f t"
  by (metis grows_def snd_conv)

lemma grows_keeps: "keeps f m \<Longrightarrow> grows f m"
  by (simp add: keeps_def grows_def)

lemma foot_heap:
  "keeps (foot h id) m \<Longrightarrow> grows heap_next m"
  "keeps (\<lambda>(_, s). foot h id s) m' \<Longrightarrow> grows (\<lambda>(_, s). heap_next s) m'"
  by (simp_all add: keeps_def grows_def foot_def split_beta)

lemma grows_bind: "grows f m \<Longrightarrow> (\<And>x. grows f (g x)) \<Longrightarrow> grows f (bind m g)"
  unfolding grows_def bind_def by (auto split: prod.split outcome.split) (metis le_trans snd_conv)+

lemma grows_andthen: "grows f m \<Longrightarrow> grows f n \<Longrightarrow> grows f (andthen m n)"
  by (simp add: andthen_def grows_bind)

lemma grows_or_return: "grows f m \<Longrightarrow> (\<And>x. grows f (g x)) \<Longrightarrow> grows f (or_return m g)"
  unfolding or_return_def by (rule grows_bind) (auto split: result.split intro: grows_keeps keeps_rules)

lemma grows_on_panic: "grows f m \<Longrightarrow> grows f d \<Longrightarrow> grows f (on_panic m d)"
proof -
  assume m: "grows f m" and d: "grows f d"
  have "f s \<le> f (snd (on_panic m d s))" for s
  proof -
    obtain r t where r: "m s = (r, t)" by fastforce
    obtain q u where q: "d t = (q, u)" by fastforce
    show ?thesis
      using growsD [OF m r] growsD [OF d q] r q by (auto simp: on_panic_def split: outcome.split failure.split)
  qed
  then show ?thesis by (simp add: grows_def)
qed

lemmas grows_rules = grows_bind grows_andthen grows_or_return grows_on_panic

lemma grows_holding: "ignores f pl \<Longrightarrow> grows f m \<Longrightarrow> grows f (holding sm pl vec m)"
  by (simp add: grows_def ignores_def holding_def split_beta split: outcome.split failure.split)

lemma grows_try_from: "ignores f pl \<Longrightarrow> grows f b \<Longrightarrow> grows f (try_from sm pl b)"
  unfolding try_from_def
  by (rule grows_bind, rule grows_keeps, rule keeps_inner_of)
    (auto split: result.split option.split prod.split intro!: grows_rules grows_holding intro: grows_keeps keeps_rules)

lemma grows_prealloc:
  assumes "ignores f pl" and "grows f b"
  shows "grows f (prealloc sm pl b n)"
proof -
  have "grows f (prealloc_collect sm pl b swap n)" for swap
    using assms
    by (induction n arbitrary: swap) (auto intro!: grows_rules grows_try_from intro: grows_keeps keeps_rules)
  moreover have "grows f (prealloc_consume sm pl rs)" for rs
    using assms(1)
    by (intro grows_keeps) (induction sm pl rs rule: prealloc_consume.induct, auto intro!: keeps_rules)
  ultimately show ?thesis unfolding prealloc_def by (intro grows_bind)
qed

lemma grows_call_once: "ignores f pl \<Longrightarrow> grows f m \<Longrightarrow> grows f (call_once pl m)"
  by (simp add: grows_def ignores_def call_once_def split_beta split: outcome.split failure.split once.split)

lemma grows_elsewhere: "grows f m \<Longrightarrow> grows (\<lambda>(_, s). f s) (elsewhere m)"
  by (auto simp: grows_def elsewhere_def)

lemma grows_with_local: "grows (\<lambda>(_, s). f s) m \<Longrightarrow> grows f (with_local c m)"
  by (auto simp: grows_def with_local_def split: prod.split outcome.split) (metis snd_conv case_prod_conv)+

lemma grows_stack_builder: "grows heap_next stack_builder"
  by (simp add: grows_def stack_builder_def comp_simps)

lemma ignores_heap:
  "ignores heap_next stacks_place" "ignores heap_next stacks_once" "ignores (\<lambda>(_, s). heap_next s) local_place"
  by (auto simp: ignores_def place_defs stacks_once_def local_place_def)

lemma grows_alloc_stack: "grows heap_next (alloc_stack G)"
proof -
  have k: "keeps heap_next (modify (\<lambda>s. s\<lparr>STACKS := x\<rparr>))" for x by (rule keeps_modify) simp
  show ?thesis
    unfolding alloc_stack_def
    by (intro grows_rules grows_call_once grows_with_local grows_prealloc grows_elsewhere grows_try_from ignores_heap
        grows_stack_builder)
      (auto intro!: grows_rules grows_keeps keeps_rules k)
qed

lemma grows_setup_stack:
  assumes "untouched E U h"
  shows "grows heap_next (setup_stack E)"
  unfolding setup_stack_def
  by (intro grows_rules grows_alloc_stack)
    (auto split: result.split intro!: foot_heap(1) [of h] keeps_rules foot_prim untouchedD(2) [OF assms])

lemma grows_resume_installed:
  assumes "untouched E U h"
  shows "grows (\<lambda>(_, s). heap_next s) (resume_installed E U es me g us)"
proof -
  have b: "grows (\<lambda>(_, s). heap_next s) (resume_bootstrap E g)"
    unfolding resume_bootstrap_def
    by (rule grows_or_return, rule grows_elsewhere, rule grows_setup_stack [OF assms])
      (intro foot_heap(2) [of h] keeps_rules)
  then have b': "grows (\<lambda>(_, s). heap_next s) (if x then resume_bootstrap E g else ret (Ok ()))" for x
    by (auto intro: grows_keeps keeps_rules)
  show ?thesis
    unfolding resume_installed_def setup_thread_def abort_def
    by (rule grows_bind, intro foot_heap(2) [of h] keeps_rules untouchedD(1) [OF assms], rule grows_andthen,
        intro foot_heap(2) [of h] keeps_rules, rule grows_bind, intro foot_heap(2) [of h] keeps_rules,
        rule grows_or_return, rule b') (intro foot_heap(2) [of h] keeps_rules foot_switch_stack(1) [OF assms])
qed

section \<open>Resuming\<close>

text \<open>Up to the point where a completed function is dropped.\<close>

lemma foot_resume_continuation:
  assumes "untouched E U h" and "resume_continuation E U es us (c, s) = (Val (Ok fin), (c', t))"
  shows "foot h any t = foot h any s" and "heap_next s \<le> heap_next t"
proof -
  note k = untouchedD(1) [OF assms(1)]
  from assms(2) obtain me g b c1 gd u v w c2 where
    r: "take_tls (c, s) = (Val b, (c1, u))" "install E b g u = (Val (Ok gd), v)"
      "guarded E gd (resume_installed E U es me g us) (c1, v) = (Val (Ok fin), (c2, w))"
    and z: "or_return (elsewhere (uninstall E gd)) (\<lambda>tls. andthen (replace_tls tls) (ret (Ok fin))) (c2, w) = (Val (Ok fin), (c', t))"
    by (auto simp: resume_continuation_def bind_Val_iff or_return_Ok_iff andthen_def elsewhere_iff deref_def
        real_thread_id_current_def expect_def split: option.splits)
  have "keeps (\<lambda>(_, s). foot h p s) (or_return (elsewhere (uninstall E gd)) (\<lambda>tls. andthen (replace_tls tls) (ret (Ok fin))))" for p
    by (intro keeps_rules foot_uninstall k)
  from keepsD [OF this z] foot_install [OF k r(2)] keepsD [OF foot_tls(1) r(1)]
  have *: "foot h p t = foot h p w" "foot h p v = foot h p u" "foot h p u = foot h p s" for p by simp_all
  note m = guarded_Ok [OF r(3)]
  show "foot h any t = foot h any s"
    using *[of any] keepsD [OF foot_resume_installed [OF assms(1)] m] by simp
  show "heap_next s \<le> heap_next t"
    using *[of id] growsD [OF grows_resume_installed [OF assms(1)] m] by (simp add: foot_def)
qed

text \<open>
  Where \<^verbatim>\<open>resume\<close> reports success, either the continuation is still there and the footprint has not
  changed, or it was dropped last.
\<close>

lemma resume_foot:
  assumes "untouched E U h" and "resume E U es us (Continuation c, s) = (Val (Ok ()), (l, t))"
  obtains (paused) c' where "l = Continuation c'" "resume_continuation E U es us (c, s) = (Val (Ok False), (c', t))" "foot h any t = foot h any s" "heap_next s \<le> heap_next t"
  | (dropped) v c' u where "l = Completion v" "resume_continuation E U es us (c, s) = (Val (Ok True), (c', u))"
      "foot h any u = foot h any s" "heap_next s \<le> heap_next u"
      "drop_continuation E c' (u\<lparr>closures := (closures u)(functional c := Empty)\<rparr>) = (Val (), t)"
proof -
  obtain fin c' u where rc: "resume_continuation E U es us (c, s) = (Val (Ok fin), (c', u))"
    and rest: "if fin then bind (elsewhere (closure_retrieve (functional c))) (\<lambda>retval.
        bind (expect ''resume(): return value was already retrieved'' retval) (\<lambda>retval. case retval of
          Ok v \<Rightarrow> andthen (assign E (Completion v)) (ret (Ok ()))
        | Err payload \<Rightarrow> andthen (assign E Poison) (panic payload))) (Continuation c', u) = (Val (Ok ()), (l, t))
      else l = Continuation c' \<and> u = t"
    using assms(2)
    by (auto simp: resume_def comp_simps elsewhere_def is_preemptible_def debug_assert_def
        split: if_splits prod.splits outcome.splits result.splits)
  note f = foot_resume_continuation [OF assms(1) rc]
  show ?thesis
  proof (cases fin)
    case False
    with rest rc f paused show ?thesis by simp
  next
    case True
    with rest obtain v where "l = Completion v"
      and "drop_continuation E c' (u\<lparr>closures := (closures u)(functional c := Empty)\<rparr>) = (Val (), t)"
      by (auto simp: bind_Val_iff closure_retrieve_def completion_take_def set_closure_def assign_def elsewhere_iff
          andthen_def drop_linger_def split: completion.splits result.splits)
    with True rc f dropped show ?thesis by simp
  qed
qed

end
