(* ===== verification/Scheduling.thy ===== *)
theory Scheduling
  imports Release
begin

text \<open>
  Preemption does not show.  The reference is a function that runs alone, from its first step to
  its last without interruption; in whatever order a program resumes however many functions, and on
  whichever threads, as long as none of its calls returns an error, each whose steps do not depend on the world completes only
  with the result it has alone.
\<close>

section \<open>Running alone\<close>

text \<open>The results a function can have from a state, in the worlds it may find on the way.\<close>

inductive runs_to :: "('w, 'f, 'a) user_code \<Rightarrow> 'f \<Rightarrow> ('a, string) result \<Rightarrow> bool" for U where
  returns: "fst (U f w) = Returns v \<Longrightarrow> runs_to U f (Ok v)"
| panics: "fst (U f w) = Panics msg \<Longrightarrow> runs_to U f (Err msg)"
| works: "fst (U f w) = Works f' \<Longrightarrow> runs_to U f' r \<Longrightarrow> runs_to U f r"
| calls: "fst (U f w) = Calls f' \<Longrightarrow> runs_to U f' r \<Longrightarrow> runs_to U f r"
| pauses: "fst (U f w) = Pauses f' \<Longrightarrow> runs_to U f' r \<Longrightarrow> runs_to U f r"

text \<open>Executed: at most \<open>n\<close> steps, one after the other.\<close>

fun run_alone :: "('w, 'f, 'a) user_code \<Rightarrow> nat \<Rightarrow> 'f \<Rightarrow> 'w \<Rightarrow> (('a, string) result \<times> 'w) option" where
  "run_alone U 0 f w = None"
| "run_alone U (Suc n) f w = (case U f w of (op, w') \<Rightarrow> (case op of
      Works f' \<Rightarrow> run_alone U n f' w'
    | Calls f' \<Rightarrow> run_alone U n f' w'
    | Pauses f' \<Rightarrow> run_alone U n f' w'
    | Returns v \<Rightarrow> Some (Ok v, w')
    | Panics msg \<Rightarrow> Some (Err msg, w')))"

lemma run_alone_runs_to: "run_alone U n f w = Some (r, w') \<Longrightarrow> runs_to U f r"
proof (induction n arbitrary: f w)
  case (Suc n)
  obtain op v where op: "U f w = (op, v)" by fastforce
  with Suc show ?case
    by (cases op) (auto intro: runs_to.intros [of U f w])
qed simp

text \<open>What a function does next may depend on its state, and not on the world around it.\<close>

definition world_free :: "('w, 'f, 'a) user_code \<Rightarrow> bool" where
  "world_free U \<longleftrightarrow> (\<forall>f w w'. fst (U f w) = fst (U f w'))"

lemma runs_to_step:
  assumes "world_free U"
  shows "runs_to U f r \<longleftrightarrow> (case fst (U f w) of
      Works f' \<Rightarrow> runs_to U f' r | Calls f' \<Rightarrow> runs_to U f' r | Pauses f' \<Rightarrow> runs_to U f' r
    | Returns v \<Rightarrow> r = Ok v | Panics msg \<Rightarrow> r = Err msg)" (is "_ \<longleftrightarrow> ?step w")
proof
  define op where "op = fst (U f w)"
  have all: "fst (U f w0) = op" for w0 using assms by (simp add: world_free_def op_def)
  assume "runs_to U f r"
  then show "?step w" by cases (simp_all add: all)
qed (auto split: user_op.splits intro: runs_to.intros [of U f w])

lemma runs_to_unique:
  assumes "world_free U" and "runs_to U f r" and "runs_to U f r'"
  shows "r = r'"
  using assms(2,3)
proof (induction arbitrary: r' rule: runs_to.induct)
  case (returns f w v)
  then show ?case by (simp add: runs_to_step [OF assms(1), where w = w])
next
  case (panics f w msg)
  then show ?case by (simp add: runs_to_step [OF assms(1), where w = w])
next
  case (works f w f' r)
  then show ?case by (simp add: runs_to_step [OF assms(1), of f r' w])
next
  case (calls f w f' r)
  then show ?case by (simp add: runs_to_step [OF assms(1), of f r' w])
next
  case (pauses f w f' r)
  then show ?case by (simp add: runs_to_step [OF assms(1), of f r' w])
qed

text \<open>What a function that started in \<open>f\<close> promises: only results it could have alone.\<close>

definition own_results :: "('w, 'f, 'a) user_code \<Rightarrow> 'f \<Rightarrow> ('f, 'a) promise" where
  "own_results U f = (\<lambda>f'. \<forall>r. runs_to U f' r \<longrightarrow> runs_to U f r, runs_to U f)"

lemma own_results_kept: "user_keeps U (own_results U f)"
  unfolding user_keeps_def own_results_def by (auto split: user_op.split intro: runs_to.intros)

section \<open>Many functions\<close>

text \<open>
  What identifies a function to the rest of the process: its promise, the address of its
  thread-control block, its libset and its closure.
\<close>

type_synonym ('f, 'a) identity = "('f, 'a) promise \<times> usize \<times> group \<times> nat"

text \<open>The value a caller holds for a function is well-formed.\<close>

fun linger_ok :: "('w, 'f, 'z) platform_scheme \<Rightarrow> ('f, 'a) identity \<Rightarrow> ('a, 'f mcontext) linger \<Rightarrow>
    ('w, 'f mcontext, 'f, 'a, 's) lingering_scheme \<Rightarrow> bool" where
  "linger_ok E (J, a, g, b) (Continuation c) s \<longleftrightarrow> cont_ok E J a g c s \<and> functional c = b"
| "linger_ok E (J, a, g, b) (Completion v) s \<longleftrightarrow> snd J (Ok v)"
| "linger_ok E (J, a, g, b) Poison s \<longleftrightarrow> True"

text \<open>A kernel thread whose thread pointer is in \<open>T\<close> is executing, outside the library.\<close>

definition on_thread :: "('w, 'z) gotcha_scheme \<Rightarrow> usize set \<Rightarrow> 'w \<Rightarrow> bool" where
  "on_thread G T w \<longleftrightarrow> v_fs (view G w) \<in> T \<and> v_group (view G w) = group_SHARED G"

lemma on_thread_caller:
  "on_thread G T (world s) \<Longrightarrow> signalers_wf (ptls s) \<Longrightarrow> caller_ok G (fs_of G s) s"
  by (simp add: on_thread_def caller_ok_def)

lemma caller_on_thread: "caller_ok G me s \<Longrightarrow> me \<in> T \<Longrightarrow> on_thread G T (world s) \<and> signalers_wf (ptls s)"
  by (auto simp: on_thread_def caller_ok_def)

text \<open>
  A program that holds several functions resumes any one of them, for any time, with any events; if the function
  panics, which poisons its \<^verbatim>\<open>Linger\<close>, the program catches the panic and goes on.  Between
  two calls its own code runs, or another of its threads \<open>T\<close> takes over, and finds the world as that thread
  sees it.  A call that returns an error, or panics otherwise, is not a step: what it leaves behind is less (\<open>Failures\<close>).
\<close>

inductive sched_step :: "('w, 'f, 'z) platform_scheme \<Rightarrow> ('w, 'f, 'a) user_code \<Rightarrow> usize set \<Rightarrow>
    ('a, 'f mcontext) linger list \<times> ('w, 'f mcontext, 'f, 'a, 's) lingering_scheme \<Rightarrow>
    ('a, 'f mcontext) linger list \<times> ('w, 'f mcontext, 'f, 'a, 's) lingering_scheme \<Rightarrow> bool" for E U T where
  sched_resume: "i < length ls \<Longrightarrow> resume E U es us (ls ! i, s) = (Val (Ok ()), (l, t)) \<Longrightarrow>
    sched_step E U T (ls, s) (ls[i := l], t)"
| sched_panic: "i < length ls \<Longrightarrow> ls ! i = Continuation c \<Longrightarrow> resume E U es us (Continuation c, s) = (Fail (Panicked msg), (Poison, t)) \<Longrightarrow>
    sched_step E U T (ls, s) (ls[i := Poison], t)"
| sched_switch: "on_thread E T w \<Longrightarrow> sched_step E U T (ls, s) (ls, s\<lparr>world := w\<rparr>)"

inductive_cases sched_stepE: "sched_step E U T (ls, s) (ls', t)"

text \<open>All are well-formed, and no two share a block or a closure.\<close>

definition all_ok :: "('w, 'f, 'z) platform_scheme \<Rightarrow> usize set \<Rightarrow> ('f, 'a) identity list \<Rightarrow> ('a, 'f mcontext) linger list \<Rightarrow>
    ('w, 'f mcontext, 'f, 'a, 's) lingering_scheme \<Rightarrow> bool" where
  "all_ok E T ids ls s \<longleftrightarrow> on_thread E T (world s) \<and> signalers_wf (ptls s) \<and> list_all2 (\<lambda>d l. linger_ok E d l s) ids ls \<and>
     distinct (map (\<lambda>(_, a, _, _). a) ids) \<and> distinct (map (\<lambda>(_, _, _, b). b) ids) \<and>
     T \<inter> (\<lambda>(_, a, _, _). a) ` set ids = {}"

lemma linger_ok_world [simp]: "linger_ok E d l (s\<lparr>world := w\<rparr>) = linger_ok E d l s"
  by (cases d; cases l) simp_all

lemma all_ok_switch: "all_ok E T ids ls s \<Longrightarrow> on_thread E T w \<Longrightarrow> all_ok E T ids ls (s\<lparr>world := w\<rparr>)"
  by (simp add: all_ok_def)

text \<open>The function with one index, and the thread that resumes it.\<close>

lemma all_ok_at:
  assumes "all_ok E T ids ls s" and "i < length ls" and "ids ! i = (J, a, g, b)"
  shows "(J, a, g, b) \<in> set ids" and "linger_ok E (J, a, g, b) (ls ! i) s" and "a \<noteq> fs_of E s"
    and "caller_ok E (fs_of E s) s" and "length ids = length ls"
proof -
  show len: "length ids = length ls" using assms(1) by (auto simp: all_ok_def list_all2_lengthD)
  then show at: "(J, a, g, b) \<in> set ids" using assms(2,3) by (metis nth_mem)
  show "linger_ok E (J, a, g, b) (ls ! i) s" using assms by (auto simp: all_ok_def list_all2_conv_all_nth)
  show "a \<noteq> fs_of E s" using assms(1) at by (force simp: all_ok_def on_thread_def)
  show "caller_ok E (fs_of E s) s" using assms(1) by (auto simp: all_ok_def intro: on_thread_caller)
qed

text \<open>Resuming one function leaves the others well-formed.\<close>

lemma linger_ok_frame:
  assumes "unchanged_besides a b s t" and "linger_ok E (J, a', g, b') l s" and "a' \<noteq> a" and "b' \<noteq> b"
  shows "linger_ok E (J, a', g, b') l t"
proof (cases l)
  case (Continuation c)
  have p: "ptls t a' = (ptls s a')\<lparr>tls_SIGNALER := tls_SIGNALER (ptls t a')\<rparr>"
    and l: "ltls t a' = ltls s a'" "closures t b' = closures s b'"
    using assms(1,3,4) by (simp_all add: unchanged_besides_def)
  have "tls_SIGNAL_torn (ptls t a') = tls_SIGNAL_torn (ptls s a')" "tls_DEFERRED (ptls t a') = tls_DEFERRED (ptls s a')"
    "tls_ERRNO_LOCATION (ptls t a') = tls_ERRNO_LOCATION (ptls s a')"
    using arg_cong [OF p, of tls_SIGNAL_torn] arg_cong [OF p, of tls_DEFERRED] arg_cong [OF p, of tls_ERRNO_LOCATION] by simp_all
  with l assms(2) Continuation show ?thesis
    by (auto simp: cont_ok_def idle_block_def cont_state_def)
qed (use assms(2) in simp_all)

text \<open>A function that has completed, or panicked, is left as it is.\<close>

lemma resume_over:
  assumes "group_doc E" and "caller_ok E me s" and "\<And>c. l \<noteq> Continuation c"
  shows "resume E U es us (l, s) = (Val (Ok ()), (l, s))"
proof (cases l)
  case (Continuation c)
  with assms(3) show ?thesis by blast
qed (use assms(2) in \<open>simp_all add: resume_def comp_simps elsewhere_def caller_ok_def is_preemptible_run [OF assms(1)]\<close>)

lemma resume_linger_ok:
  assumes doc: "run_doc E U J" "setup_doc E" and call: "caller_ok E me s" and l: "linger_ok E (J, a, g, b) l s" and "a \<noteq> me"
    and run: "resume E U es us (l, s) = (Val (Ok ()), (l', t))"
  shows "caller_ok E me t \<and> linger_ok E (J, a, g, b) l' t \<and> unchanged_besides a b s t"
proof (cases l)
  case (Continuation c)
  with l have c: "cont_ok E J a g c s" "functional c = b" by simp_all
  have "resume_post E J me a g s b l' t"
    using wp_Val [OF resume_wp [OF doc call c(1) assms(5)]] run Continuation c(2) by auto
  then show ?thesis by (cases l') (auto simp: resume_post_def)
qed (use resume_over [OF preempt_docD(1) [OF run_docD(1) [OF doc(1)]] call, of l] run l call in \<open>auto simp: unchanged_besides_def\<close>)

section \<open>The life of a function\<close>

text \<open>
  The abstract specification: a function is fresh, then perhaps paused a number of times, then
  complete or poisoned, and it stays so, with the value it has.  It never starts again.
\<close>

datatype 'a life = Fresh | Paused | Complete 'a | Poisoned

fun life_of :: "('a, 'm) linger \<Rightarrow> 'a life" where
  "life_of (Continuation c) = (if task_errno (stateful c) = None then Fresh else Paused)"
| "life_of (Completion v) = Complete v"
| "life_of Poison = Poisoned"

inductive life_step :: "'a life \<Rightarrow> 'a life \<Rightarrow> bool" where
  stays: "life_step Paused Paused"
| starts: "life_step Fresh Paused"
| ends_early: "life_step Fresh (Complete v)"
| ends_late: "life_step Paused (Complete v)"
| breaks_early: "life_step Fresh Poisoned"
| breaks_late: "life_step Paused Poisoned"
| over: "life_step (Complete v) (Complete v)"
| broken: "life_step Poisoned Poisoned"

lemma resume_life:
  assumes doc: "run_doc E U J" "setup_doc E" and call: "caller_ok E me s" and l: "linger_ok E (J, a, g, b) l s" and "a \<noteq> me"
    and run: "resume E U es us (l, s) = (Val (Ok ()), (l', t))"
  shows "life_step (life_of l) (life_of l')"
proof (cases l)
  case (Continuation c)
  with l have c: "cont_ok E J a g c s" by simp
  have "resume_post E J me a g s (functional c) l' t"
    using wp_Val [OF resume_wp [OF doc call c assms(5)]] run Continuation by auto
  then show ?thesis using Continuation by (cases l') (auto simp: resume_post_def intro: life_step.intros)
qed (use resume_over [OF preempt_docD(1) [OF run_docD(1) [OF doc(1)]] call, of l] run in \<open>auto intro: life_step.intros\<close>)

section \<open>Any number of steps\<close>

text \<open>One function has changed, and nothing else has.\<close>

lemma all_ok_update:
  assumes ok: "all_ok E T ids ls s" and i: "i < length ls" and d: "ids ! i = (J, a, g, b)"
    and r: "caller_ok E (fs_of E s) t" "linger_ok E (J, a, g, b) l t" "unchanged_besides a b s t"
  shows "all_ok E T ids (ls[i := l]) t"
proof -
  note at = all_ok_at [OF ok i d]
  have "linger_ok E (ids ! j) (ls[i := l] ! j) t" if j: "j < length ls" for j
  proof (cases "j = i")
    case True
    with r(2) d i show ?thesis by simp
  next
    case False
    obtain J' a' g' b' where d': "ids ! j = (J', a', g', b')" by (metis prod.collapse)
    have "a' \<noteq> a" "b' \<noteq> b"
      using ok False d d' j i at(5) nth_eq_iff_index_eq [of "map (\<lambda>(_, a, _, _). a) ids" i j]
        nth_eq_iff_index_eq [of "map (\<lambda>(_, _, _, b). b) ids" i j]
      by (auto simp: all_ok_def)
    with linger_ok_frame [OF r(3) all_ok_at(2) [OF ok j d']] False d' show ?thesis by simp
  qed
  moreover have "fs_of E s \<in> T" using ok by (simp add: all_ok_def on_thread_def)
  ultimately show ?thesis
    using caller_on_thread [OF r(1)] ok at(5) by (auto simp: all_ok_def list_all2_conv_all_nth)
qed

lemma all_ok_step:
  assumes doc: "\<And>d. d \<in> set ids \<Longrightarrow> run_doc E U (fst d)" "setup_doc E"
    and ok: "all_ok E T ids ls s" and step: "sched_step E U T (ls, s) (ls', t)"
  shows "all_ok E T ids ls' t"
  using step
proof (rule sched_stepE)
  fix i es us l
  assume i: "i < length ls" "resume E U es us (ls ! i, s) = (Val (Ok ()), (l, t))" "ls' = ls[i := l]"
  obtain J a g b where d: "ids ! i = (J, a, g, b)" by (metis prod.collapse)
  note at = all_ok_at [OF ok i(1) d]
  show ?thesis
    using resume_linger_ok [OF doc(1) [OF at(1), simplified] doc(2) at(4,2,3) i(2)] i(3)
    by (auto intro: all_ok_update [OF ok i(1) d])
next
  fix i c es us msg
  assume i: "i < length ls" "ls ! i = Continuation c" "resume E U es us (Continuation c, s) = (Fail (Panicked msg), (Poison, t))"
    "ls' = ls[i := Poison]"
  obtain J a g b where d: "ids ! i = (J, a, g, b)" by (metis prod.collapse)
  note at = all_ok_at [OF ok i(1) d]
  show ?thesis
    using resume_poison_post [OF doc(1) [OF at(1), simplified] doc(2) at(4) _ at(3) i(3)] at(2) i(2,4)
    by (auto intro: all_ok_update [OF ok i(1) d])
qed (use all_ok_switch [OF ok] in auto)

lemma all_ok_steps:
  assumes "\<And>d. d \<in> set ids \<Longrightarrow> run_doc E U (fst d)" and "setup_doc E"
    and "(sched_step E U T)\<^sup>*\<^sup>* (ls, s) (ls', t)" and "all_ok E T ids ls s"
  shows "all_ok E T ids ls' t"
  using assms(3,4)
proof (induction "(ls', t)" arbitrary: ls' t rule: rtranclp_induct)
  case (step y)
  then show ?case by (cases y) (auto intro: all_ok_step [OF assms(1,2)])
qed simp

lemma life_sched:
  assumes doc: "\<And>d. d \<in> set ids \<Longrightarrow> run_doc E U (fst d)" "setup_doc E"
    and ok: "all_ok E T ids ls s" and step: "sched_step E U T (ls, s) (ls', t)"
  shows "life_step\<^sup>*\<^sup>* (life_of (ls ! j)) (life_of (ls' ! j))"
  using step
proof (rule sched_stepE)
  fix i es us l
  assume i: "i < length ls" "resume E U es us (ls ! i, s) = (Val (Ok ()), (l, t))" "ls' = ls[i := l]"
  obtain J a g b where d: "ids ! i = (J, a, g, b)" by (metis prod.collapse)
  note at = all_ok_at [OF ok i(1) d]
  have "life_step (life_of (ls ! i)) (life_of l)"
    using resume_life [OF doc(1) [OF at(1), simplified] doc(2) at(4,2,3) i(2)] .
  with i show ?thesis by (cases "j = i") (auto intro: r_into_rtranclp)
next
  fix i c
  assume i: "i < length ls" "ls ! i = Continuation c" "ls' = ls[i := Poison]"
  have "life_step (life_of (Continuation c)) Poisoned" by (simp add: life_step.intros)
  with i show ?thesis by (cases "j = i") (auto simp del: life_of.simps(1) intro: r_into_rtranclp)
qed simp

lemma life_scheds:
  assumes doc: "\<And>d. d \<in> set ids \<Longrightarrow> run_doc E U (fst d)" "setup_doc E"
    and "(sched_step E U T)\<^sup>*\<^sup>* (ls, s) (ls', t)" and ok: "all_ok E T ids ls s"
  shows "life_step\<^sup>*\<^sup>* (life_of (ls ! j)) (life_of (ls' ! j))"
  using assms(3)
proof (induction "(ls', t)" arbitrary: ls' t rule: rtranclp_induct)
  case (step y)
  obtain ls1 s1 where y: "y = (ls1, s1)" by fastforce
  have "all_ok E T ids ls1 s1" using all_ok_steps [OF doc step.hyps(1) [unfolded y] ok] .
  from rtranclp_trans [OF step.hyps(3) [OF y] life_sched [OF doc this step.hyps(2) [unfolded y]]] show ?case .
qed simp

end
