(* ===== verification/Progress.thy ===== *)
theory Progress
  imports Thread_Guarantees Scheduling
begin

text \<open>
  Total correctness of \<^verbatim>\<open>resume\<close>.  The contract says what holds where it returns; here, on a
  platform whose calls succeed and with usable pools, it does return: nothing but the end of the
  events, or a panic of the function itself, keeps it from reporting success.
\<close>

section \<open>Computations that end well\<close>

text \<open>\<open>ends A m P s\<close>: from \<open>s\<close>, \<open>m\<close> returns with \<open>P\<close>, or fails in a way \<open>A\<close> allows.\<close>

definition ends :: "(failure \<Rightarrow> bool) \<Rightarrow> ('s, 'x) comp \<Rightarrow> ('x \<Rightarrow> 's \<Rightarrow> bool) \<Rightarrow> 's \<Rightarrow> bool" where
  "ends A m P s \<longleftrightarrow> (case m s of (Val x, t) \<Rightarrow> P x t | (Fail e, t) \<Rightarrow> A e)"

lemma ends_mono: "ends A m P s \<Longrightarrow> (\<And>x t. P x t \<Longrightarrow> Q x t) \<Longrightarrow> ends A m Q s"
  by (auto simp: ends_def split: prod.split outcome.split)

lemma ends_wp: "ends A m P s \<Longrightarrow> wp m Q s \<Longrightarrow> ends A m (\<lambda>x t. P x t \<and> Q x t) s"
  by (auto simp: ends_def wp_def split: prod.split outcome.split)

lemma ends_keeps: "ends A m P s \<Longrightarrow> keeps f m \<Longrightarrow> ends A m (\<lambda>x t. P x t \<and> f t = f s) s"
  by (auto simp: ends_def keeps_def split: prod.split outcome.split) (metis snd_conv)+

lemma ends_run: "m s = (Val x, t) \<Longrightarrow> ends A m P s = P x t"
  by (simp add: ends_def)

lemma ends_simps [simp]:
  "ends A (ret x) P s \<longleftrightarrow> P x s"
  "ends A (gets g) P s \<longleftrightarrow> P (g s) s"
  "ends A (failing e) P s \<longleftrightarrow> A e"
  "ends A (bind m f) P s \<longleftrightarrow> ends A m (\<lambda>x. ends A (f x) P) s"
  "ends A (andthen m n) P s \<longleftrightarrow> ends A m (\<lambda>_. ends A n P) s"
  by (auto simp: ends_def comp_simps split: prod.split outcome.split)

lemma ends_modify [simp]: "ends A (modify h) P s \<longleftrightarrow> P () (h s)"
  by (simp add: ends_def)

lemma ends_ret [simp]: "ends A (ret x) P = P x"
  by (rule ext) simp

lemma ends_Pair [simp]: "ends A (Pair (Val x)) P = P x" "ends A (Pair (Fail e)) P = (\<lambda>_. A e)"
  by (auto simp: ends_def fun_eq_iff)

lemma ends_or_return [simp]:
  "ends A (or_return m f) P s \<longleftrightarrow> ends A m (\<lambda>r. case r of Ok x \<Rightarrow> ends A (f x) P | Err e \<Rightarrow> P (Err e)) s"
  unfolding or_return_def ends_simps(4)
  by (rule arg_cong [where f = "\<lambda>Q. ends A m Q s"]) (auto simp: fun_eq_iff split: result.split)

lemma ends_prim [simp]:
  "ends A (asks k) P s \<longleftrightarrow> P (k (world s)) s"
  "ends A (prim q) P s \<longleftrightarrow> P (fst (q (world s))) (s\<lparr>world := snd (q (world s))\<rparr>)"
  by (simp_all add: ends_def comp_simps)

lemma ends_primu [simp]: "ends A (primu u) P s \<longleftrightarrow> P () (s\<lparr>world := u (world s)\<rparr>)"
  by (simp add: ends_def comp_simps)

lemma ends_elsewhere [simp]: "ends A (elsewhere m) P (c, s) \<longleftrightarrow> ends A m (\<lambda>x t. P x (c, t)) s"
  by (auto simp: ends_def elsewhere_def split: prod.split outcome.split)

lemma ends_set_ltls [simp]:
  "ends A (set_ltls L f) P s = P () (s\<lparr>ltls := (ltls s)(fs_of L s := f (ltls s (fs_of L s)))\<rparr>)"
  by (rule ends_run) (rule set_ltls_run)

section \<open>A platform on which calls succeed\<close>

definition platform_succeeds :: "('w, 'f mcontext, 'z) timetravel_scheme \<Rightarrow> bool" where
  "platform_succeeds E \<longleftrightarrow> setup_succeeds E \<and>
     (\<forall>op w. fst (fst (c_arch_prctl E op w)) = 0) \<and> (\<forall>op a w. fst (libgotcha_arch_prctl E op a w) = 0) \<and>
     (\<forall>g w. group_lookup_ctype_init E g w \<noteq> None) \<and>
     (\<forall>k w. \<not> is_err (fst (tt_makecontext E k w))) \<and> (\<forall>c w. \<not> is_err (fst (tt_restorecontext E c w))) \<and>
     (\<forall>c w. \<not> is_err (fst (tt_sigsetcontext E c w)))"

lemma not_is_err: "\<not> is_err r \<longleftrightarrow> (\<exists>x. r = Ok x)"
  by (cases r) simp_all

lemma install_succeeds:
  assumes "platform_succeeds G" and "prctl_doc G"
  obtains w words where "install G \<lparr>tcb_fs = Some (Mut a)\<rparr> g s =
    (Val (Ok \<lparr>guard_this = \<lparr>tcb_fs = Some (Mut a)\<rparr>, guard_parent = \<lparr>tcb_fs = Some (Ref (fs_of G s))\<rparr>\<rparr>),
     s\<lparr>world := w, tcb_words := words\<rparr>)"
proof -
  have z: "fst (fst (c_arch_prctl G op w)) = 0" "fst (libgotcha_arch_prctl G op b w) = 0"
    "group_lookup_ctype_init G g w \<noteq> None" for op b w
    using assms(1) by (simp_all add: platform_succeeds_def)
  have cur: "snd (fst (c_arch_prctl G (get_op_as_c_int Get_Fs) (world s))) = fs_of G s"
    using assms(2) z(1) by (auto simp: prctl_doc_def split_beta)
  have "\<exists>w words. install G \<lparr>tcb_fs = Some (Mut a)\<rparr> g s =
    (Val (Ok \<lparr>guard_this = \<lparr>tcb_fs = Some (Mut a)\<rparr>, guard_parent = \<lparr>tcb_fs = Some (Ref (fs_of G s))\<rparr>\<rparr>),
     s\<lparr>world := w, tcb_words := words\<rparr>)"
  proof -
    let ?w = "snd (libgotcha_arch_prctl G (set_op_as_c_int Set_Fs) a (snd (c_arch_prctl G (get_op_as_c_int Get_Fs) (world s))))"
    obtain f where f: "group_lookup_ctype_init G g (c_ctype_init G ?w) = Some f" using z(3) by blast
    show ?thesis
      using f cur z(1,2)
      by (simp add: install_def install_unguarded_def unguarded_parent_def on_panic_def comp_simps tcb_current_def
          arch_prctl_get_def arch_prctl_set_def install_ctype_def write_word_def split_beta world_before_words) blast
  qed
  with that show ?thesis by blast
qed

lemma uninstall_succeeds:
  assumes "platform_succeeds G" and "guard_parent gd = \<lparr>tcb_fs = Some (Ref p)\<rparr>"
  obtains w where "uninstall G gd s = (Val (Ok (guard_this gd)), s\<lparr>world := w\<rparr>)"
  using assms
  by (simp add: platform_succeeds_def uninstall_def drop_tcb_guard_def comp_simps install_unguarded_def arch_prctl_set_def)

section \<open>Usable pools\<close>

text \<open>The pools a continuation's resources come from and go back to.\<close>

definition pool_view :: "('w, 's) statics_scheme \<Rightarrow> group list mutex option \<times> tcb option list mutex option \<times> stack list mutex option \<times> once" where
  "pool_view s = (GROUPS s, LOCALSTORES s, STACKS s, STACKS_INIT s)"

definition stacks_usable :: "('w, 's) statics_scheme \<Rightarrow> bool" where
  "stacks_usable s \<longleftrightarrow> STACKS_INIT s = Once_Done \<and> (\<exists>ks. STACKS s = Some (free_pool ks))"

definition pools_usable :: "('w, 's) statics_scheme \<Rightarrow> bool" where
  "pools_usable s \<longleftrightarrow> (\<exists>gs. GROUPS s = Some (free_pool gs)) \<and> (\<exists>bs. LOCALSTORES s = Some (free_pool bs)) \<and>
     (STACKS_INIT s = Once_New \<or> stacks_usable s)"

lemma pool_view_cong:
  "pool_view t = pool_view s \<Longrightarrow> pools_usable t = pools_usable s"
  "pool_view t = pool_view s \<Longrightarrow> stacks_usable t = stacks_usable s"
  by (simp_all add: pool_view_def pools_usable_def stacks_usable_def)

lemma pool_view_more:
  "tcbs.more t = tcbs.more s \<Longrightarrow> pool_view t = pool_view s" for s t :: "('w, 's) statics_scheme"
  by (cases s; cases t) (simp add: pool_view_def)

text \<open>A wrapper around a stack that has not been dropped, and a task all of whose stacks are.\<close>

definition full :: "stack reusable deref_adapter \<Rightarrow> bool" where
  "full k \<longleftrightarrow> reusable_value (adapted k) \<noteq> None"

definition task_full :: "'m task \<Rightarrow> bool" where
  "task_full t \<longleftrightarrow> (\<forall>cp. task_checkpoint t = Some cp \<longrightarrow> full (ctx_stack cp))"

lemma stacks_try_from:
  assumes "STACKS s = Some (free_pool ks)"
  obtains k ks' n where "try_from mutex_ops stacks_place stack_builder s =
    (Val (Ok \<lparr>reusable_value = Some k\<rparr>), s\<lparr>STACKS := Some (free_pool ks'), heap_next := n\<rparr>)"
proof (cases ks rule: rev_cases)
  case Nil
  with assms show ?thesis
    by (intro that [of "\<lparr>stack_addr = heap_next s, stack_len = STACK_SIZE_BYTES\<rparr>" "Suc (heap_next s)" "[]"])
      (cases s, simp add: try_from_def comp_simps inner_of_def place_fields holding_def mutex_fields mutex_ready_def stack_builder_def)
next
  case (snoc ks' k)
  with assms show ?thesis
    by (intro that [of k "heap_next s" ks'])
      (cases s, simp add: try_from_def comp_simps inner_of_def place_fields holding_def mutex_fields mutex_ready_def)
qed

lemma alloc_stack_ends:
  fixes s :: "('w, 's) statics_scheme"
  assumes "pools_usable s"
  shows "ends A (alloc_stack G) (\<lambda>k t. reusable_value k \<noteq> None \<and> stacks_usable t \<and> pools_usable t) s"
proof -
  have pop: "ends A (bind (try_from mutex_ops stacks_place stack_builder) (expect_ok msg dbg))
      (\<lambda>k t. reusable_value k \<noteq> None \<and> stacks_usable t \<and> pools_usable t) u"
    if u: "stacks_usable u" "pools_usable u" for u :: "('w, 's) statics_scheme" and msg dbg
  proof -
    obtain ks where "STACKS u = Some (free_pool ks)" using u(1) by (auto simp: stacks_usable_def)
    then obtain k ks' n where "try_from mutex_ops stacks_place stack_builder u =
        (Val (Ok \<lparr>reusable_value = Some k\<rparr>), u\<lparr>STACKS := Some (free_pool ks'), heap_next := n\<rparr>)"
      by (rule stacks_try_from)
    with u show ?thesis
      by (simp add: ends_run pools_usable_def stacks_usable_def)
  qed
  show ?thesis
  proof (cases "STACKS_INIT s = Once_New")
    case True
    let ?u = "s\<lparr>heap_next := heap_next s + group_limit G,
      STACKS := Some (free_pool (map stack_at [heap_next s..<heap_next s + group_limit G])), STACKS_INIT := Once_Done\<rparr>"
    have "call_once stacks_once (bind (with_local mutex_default (prealloc mutex_ops local_place (elsewhere stack_builder) (group_limit G)))
         (\<lambda>(r, stacks). andthen (expect_ok msg dbg r) (modify (\<lambda>s. s\<lparr>STACKS := Some stacks\<rparr>)))) s = (Val (), ?u)" for msg dbg
      using True by (simp add: call_once_def stacks_once_def comp_simps with_local_def stack_prealloc)
    moreover have "stacks_usable ?u" "pools_usable ?u"
      using assms by (simp_all add: stacks_usable_def pools_usable_def)
    ultimately show ?thesis
      using pop [of ?u] by (simp add: alloc_stack_def ends_run)
  next
    case False
    with assms have "stacks_usable s" by (simp add: pools_usable_def)
    moreover from this have "call_once stacks_once m s = (Val (), s)" for m
      by (simp add: call_once_def stacks_once_def stacks_usable_def)
    ultimately show ?thesis
      using pop [of s] assms by (auto simp: alloc_stack_def ends_run stacks_usable_def)
  qed
qed

lemma setup_stack_ends:
  assumes "platform_succeeds E" and "context_doc E" and "pools_usable s"
  shows "ends A (setup_stack E) (\<lambda>r t. \<exists>cp. r = Ok (Some cp) \<and> full (ctx_stack cp) \<and> stacks_usable t \<and> pools_usable t) s"
proof -
  have mk: "\<exists>cp. fst (tt_makecontext E k w) = Ok cp \<and> ctx_stack cp = k" for k w
  proof -
    obtain cp where "fst (tt_makecontext E k w) = Ok cp"
      using assms(1) unfolding platform_succeeds_def not_is_err by blast
    with context_laws(2) [OF assms(2) this] show ?thesis by blast
  qed
  show ?thesis
    unfolding setup_stack_def ends_simps
    apply (rule ends_mono [OF alloc_stack_ends [OF assms(3)]])
    subgoal for k t
      using mk [of "adapter_from k" "world t"]
      by (auto simp: adapter_from_def full_def stacks_usable_def pools_usable_def)
    done
qed

lemma drop_checkpoint_ends:
  assumes "stacks_usable s" and "\<And>c. cp = Some c \<Longrightarrow> full (ctx_stack c)"
    and "\<And>t ks. t = s\<lparr>STACKS := Some (free_pool ks)\<rparr> \<Longrightarrow> P () t"
  shows "ends A (drop_checkpoint cp) P s"
proof -
  obtain ks where ks: "STACKS s = Some (free_pool ks)" using assms(1) by (auto simp: stacks_usable_def)
  show ?thesis
  proof (cases cp)
    case None
    have "s = s\<lparr>STACKS := Some (free_pool ks)\<rparr>" using ks by simp
    from assms(3) [OF this] None show ?thesis by (simp add: drop_checkpoint_def)
  next
    case (Some c)
    with assms(2) obtain k where "reusable_value (adapted (ctx_stack c)) = Some k" by (auto simp: full_def)
    moreover have "ctx_stack c = \<lparr>adapted = \<lparr>reusable_value = reusable_value (adapted (ctx_stack c))\<rparr>\<rparr>" by simp
    ultimately have "ctx_stack c = \<lparr>adapted = \<lparr>reusable_value = Some k\<rparr>\<rparr>" by metis
    with Some ks assms(3) show ?thesis by (simp add: drop_checkpoint_def drop_reusable_run ends_run)
  qed
qed

section \<open>Setting up the thread\<close>

text \<open>The thread has a preemption signal, or can be assigned one.\<close>

definition signals_left :: "('w, 's) statics_scheme \<Rightarrow> bool" where
  "signals_left s \<longleftrightarrow> SIGNALS_INIT s = Once_New \<or>
     SIGNALS_INIT s = Once_Done \<and> (\<exists>vec. SIGNALS s = Some (free_pool vec) \<and> (vec \<noteq> [] \<or> SIGNALS_free s < 16))"

lemma signals_try_from:
  assumes "SIGNALS s = Some (free_pool vec)" and "vec \<noteq> [] \<or> SIGNALS_free s < 16"
  shows "\<exists>no t. try_from mutex_ops signals_place signal_builder s = (Val (Ok \<lparr>reusable_value = Some no\<rparr>), t)"
proof (cases vec rule: rev_cases)
  case Nil
  with assms have "unat (SIGNALS_free s) < length NOTIFICATION_SIGNALS"
    by (simp add: NOTIFICATION_SIGNALS_def word_less_nat_alt)
  with Nil assms(1) show ?thesis
    by (simp add: try_from_def comp_simps inner_of_def place_fields holding_def mutex_fields mutex_ready_def signal_builder_run)
next
  case (snoc vec' no)
  with assms(1) show ?thesis
    by (simp add: try_from_def comp_simps inner_of_def place_fields holding_def mutex_fields mutex_ready_def)
qed

lemma assign_signal_succeeds:
  fixes s :: "('w, 's) statics_scheme"
  assumes "signals_left s"
  obtains no t where "assign_signal s = (Val (Ok \<lparr>reusable_value = Some no\<rparr>), t)"
proof -
  let ?u = "s\<lparr>SIGNALS_free := 0, SIGNALS := Some (free_pool []), SIGNALS_INIT := Once_Done\<rparr>"
  have "\<exists>u vec. call_once signals_once (modify (\<lambda>s. s\<lparr>SIGNALS_free := 0, SIGNALS := Some mutex_default\<rparr>)) s = (Val (), u) \<and>
      SIGNALS u = Some (free_pool vec) \<and> (vec \<noteq> [] \<or> SIGNALS_free u < 16)"
    using assms by (auto simp: signals_left_def call_once_def signals_once_def mutex_default_def)
  then obtain u vec where u: "call_once signals_once (modify (\<lambda>s. s\<lparr>SIGNALS_free := 0, SIGNALS := Some mutex_default\<rparr>)) s = (Val (), u)"
    "SIGNALS u = Some (free_pool vec)" "vec \<noteq> [] \<or> SIGNALS_free u < 16" by blast
  from signals_try_from [OF u(2,3)] u(1,2) that show ?thesis
    by (auto simp: assign_signal_def comp_simps)
qed

lemma keeps_pool_view:
  "keeps pool_view (thread_setup G me h q)"
proof -
  have sig: "keeps pool_view assign_signal" "keeps pool_view (drop_signal r)" for r
    unfolding assign_signal_def signal_builder_def
    by (intro keeps_rules keeps_modify; simp add: pool_view_def ignores_def place_fields signals_once_def)+
  show ?thesis
    unfolding thread_setup_def preemption_signal_new_def preemption_signal_arm_def Let_def set_tls_def set_tls_of_def
    by (intro keeps_rules sig keeps_modify keeps_prim keeps_syscalls;
        simp add: pool_view_def ignores_def hook_once_def)
qed

lemma thread_setup_finish:
  assumes "\<not> tls_SIGNAL_torn (ptls u (fs_of G u))" and "HOOK_INIT u \<noteq> Once_Poisoned"
  shows "ends A (bind (gets (\<lambda>s. tls_SIGNAL_torn (tls_at G s))) (\<lambda>torn.
      andthen (if torn then panic ''cannot access a Thread Local Storage value during or after destruction: AccessError''
        else set_tls G (\<lambda>t. t\<lparr>tls_SIGNAL := Some me\<rparr>))
      (andthen (call_once hook_once (primu (gotcha_shared_hook G)))
      (ret (Ok ()))))) (\<lambda>r t. r = Ok () \<and> HOOK_INIT t = Once_Done) u"
  using assms
  by (cases "HOOK_INIT u") (simp_all add: tls_at_def set_tls_def set_tls_of_def ends_def comp_simps call_once_def hook_once_def)

lemma thread_setup_ends:
  fixes s :: "('w, 's) preemption_scheme"
  assumes doc: "setup_doc G" and ok: "setup_succeeds G"
    and "tls_SIGNALER (ptls s me) \<noteq> None \<or> signals_left s" and "HOOK_INIT s \<noteq> Once_Poisoned"
    and "\<not> tls_SIGNAL_torn (ptls s (fs_of G s))" and "fs_of G s \<noteq> me"
  shows "ends A (thread_setup G me h QUANTUM_MICROSECS) (\<lambda>r t. r = Ok () \<and> HOOK_INIT t = Once_Done) s"
proof (cases "tls_SIGNALER (ptls s me)")
  case (Some ps)
  then show ?thesis using thread_setup_finish [OF assms(5,4), of A me] by (simp add: thread_setup_def)
next
  case None
  with assms(3) have "signals_left s" by simp
  then obtain no u where u: "assign_signal s = (Val (Ok \<lparr>reusable_value = Some no\<rparr>), u)"
    by (rule assign_signal_succeeds)
  obtain timer w where arm: "preemption_signal_arm G h QUANTUM_MICROSECS \<lparr>reusable_value = Some no\<rparr> u =
      (Val (Ok \<lparr>ps_signal = \<lparr>reusable_value = Some no\<rparr>, ps_timer = timer\<rparr>), u\<lparr>world := w\<rparr>)"
    "view G w = (view G (world u))\<lparr>v_handler := (v_handler (view G (world u)))(signal_as_c_int no \<mapsto> h),
      v_mask := insert (signal_as_c_int no) (v_mask (view G (world u)))\<rparr>"
    using preemption_signal_arm_run [OF doc ok] .
  let ?ps = "\<lparr>ps_signal = \<lparr>reusable_value = Some no\<rparr>, ps_timer = timer\<rparr>"
  have "preemption_signal_new G h QUANTUM_MICROSECS s = (Val (Ok ?ps), u\<lparr>world := w\<rparr>)"
    using u arm(1) by (simp add: preemption_signal_new_def bind_run comp_simps on_panic_def)
  then have new: "ends A (preemption_signal_new G h QUANTUM_MICROSECS) P s = P (Ok ?ps) (u\<lparr>world := w\<rparr>)" for P
    by (rule ends_run)
  have m: "statics.more u = statics.more s" "world u = world s"
    using keepsD [OF keeps_pools(2) u] keepsD [OF keeps_pools_world(2) [where g = id] u] by simp_all
  then have "ptls u = ptls s" "HOOK_INIT u = HOOK_INIT s" by (cases s; cases u; simp)+
  with thread_setup_finish [of "u\<lparr>world := w, ptls := (ptls u)(me := (ptls u me)\<lparr>tls_SIGNALER := Some ?ps\<rparr>)\<rparr>" G A me]
  show ?thesis
    using None arm(2) m(2) assms(4-6) by (simp add: thread_setup_def new set_tls_of_def)
qed

section \<open>The budget\<close>

text \<open>The budget is unlimited or, at whatever time, ends before the clock does.  Release builds do not care.\<close>

definition budget_fits :: "('w, 'z) libc_scheme \<Rightarrow> u64 \<Rightarrow> bool" where
  "budget_fits L us \<longleftrightarrow> \<not> debug_build L \<or> 2 ^ 64 \<le> unat us * 1000 \<or>
     (\<forall>w now. time_is L w now \<longrightarrow> unat now + unat us * 1000 < 2 ^ 64)"

lemma stamp_ends:
  assumes "clock_doc L" and "fs_of L s = a" and "budget_fits L (tls_DEADLINE (ltls s a))"
    and "\<And>d. P () (s\<lparr>ltls := (ltls s)(a := (ltls s a)\<lparr>tls_DEADLINE := d\<rparr>)\<rparr>)"
  shows "ends A (stamp L) P s"
proof -
  obtain now where now: "time_is L (world s) now" using assms(1) by (auto simp: clock_doc_def)
  let ?us = "tls_DEADLINE (ltls s a)"
  have "\<not> debug_build L \<or> 2 ^ 64 \<le> unat ?us * 1000 \<or> unat now + unat ?us * 1000 < 2 ^ 64"
    using assms(3) now by (auto simp: budget_fits_def)
  with stamp_run [OF now, of ?us] assms(2,4) show ?thesis
    by (auto simp: ltls_at_def ends_def)
qed

end
