(* ===== verification/Success.thy ===== *)
theory Success
  imports Progress
begin

text \<open>
  \<^verbatim>\<open>resume\<close> succeeds.  On a platform whose calls succeed, with usable pools and a budget that fits the
  clock, nothing but the end of the events keeps \<^verbatim>\<open>resume\<close> from returning, except that it passes on
  a panic of the function.
\<close>

section \<open>Into the function and back\<close>

abbreviation pending :: "('w, 'z) libc_scheme \<Rightarrow> ('w, 's) process_scheme \<Rightarrow> sigset_t" where
  "pending L s \<equiv> v_pending (view L (world s))"

text \<open>
  The one way not to return: the events ended while the thread was inside the function, entered outside every
  library with the same signals pending as in \<open>s\<close>.
\<close>

definition starved :: "('w, 'f, 'z) platform_scheme \<Rightarrow> ('w, 'f, 'a) user_code \<Rightarrow> ('f, 'a) promise \<Rightarrow> event list \<Rightarrow>
    usize \<Rightarrow> ('w, 'f mcontext, 'f, 'a, 's) lingering_scheme \<Rightarrow> failure \<Rightarrow> bool" where
  "starved E U J es a s e \<longleftrightarrow> e = Unfinished \<and> (\<exists>no k c (t :: ('w, 'f mcontext, 'f, 'a, 's) lingering_scheme).
     in_function E J no a k c t \<and> \<not> in_library c \<and>
     pending E t = pending E s \<and> fst (execute E U es c t) = Fail Unfinished)"

lemma starved_unfinished: "starved E U J es a s0 e \<Longrightarrow> e = Unfinished"
  by (simp add: starved_def)

text \<open>Events among which no signal reaches the thread.\<close>

definition undisturbed :: "event list \<Rightarrow> bool" where
  "undisturbed es \<longleftrightarrow> (\<forall>no. Delivers no \<notin> set es)"

lemma schedule_ends:
  assumes doc: "preempt_doc E" "clock_doc E" and fs: "fs_of E s = a" and sig: "signal_in (ptls s) a = Some no"
    and nd: "\<not> tls_DEFERRED (ptls s a)" and g: "g \<noteq> group_SHARED E"
    and loc: "\<And>w. group_lookup_errno_location E g w \<noteq> None"
    and boot: "tls_BOOTSTRAP (ltls s a) = Some (fun, g)"
    and task: "task_errno (tls_TASK (ltls s a)) = None" "task_checkpoint (tls_TASK (ltls s a)) = Some cp"
      "ctx_mcontext cp = Call_site" "ctx_stack cp = k"
    and clo: "closures s fun = Function f" "fst J f" and us: "budget_fits E (tls_DEADLINE (ltls s a))"
  shows "ends A (schedule E) (\<lambda>p t. let fr = \<lparr>fr_fun = fun, fr_group = g, fr_signal = Some no\<rparr> in
    p = At (Entering fr) \<and> in_function E J no a k (Entering fr) t \<and> touches a fun s t \<and> pending E t = pending E s) s"
proof -
  let ?s = "\<lambda>d. s\<lparr>ltls := (ltls s)(a := (ltls s a)\<lparr>tls_BOOTSTRAP := None, tls_DEADLINE := d\<rparr>)\<rparr>"
  obtain l where l: "group_lookup_errno_location E g (world s) = Some l" using loc by blast
  have "ends A (enable_preemption E (Some g)) P (?s d) = P (Ok (Some no))
      ((?s d)\<lparr>world := entered_world E g False no (world s),
        ptls := (ptls s)(a := (ptls s a)\<lparr>tls_ERRNO_LOCATION := Some l, tls_DEFERRED := False\<rparr>)\<rparr>)" for d P
    using enable_preemption_group [OF doc(1), of g "?s d" l no] l sig nd fs by (intro ends_run) (simp add: tls_at_def)
  then have "ends A (schedule E) (\<lambda>_ t. pending E t = pending E s) s"
    using fs boot us
    by (auto simp: schedule_def ltls_at_def entered_world_view [OF doc(1)] intro!: stamp_ends [OF doc(2)])
  from ends_wp [OF this schedule_wp [OF doc(1) fs sig nd g loc boot task clo]] show ?thesis
    by (rule ends_mono) (simp add: Let_def)
qed

text \<open>Control is back, and \<^verbatim>\<open>TASK\<close> holds a context on the stack \<open>k\<close>; undisturbed, the function has finished.\<close>

definition back_with :: "event list \<Rightarrow> stack reusable deref_adapter \<Rightarrow> usize \<Rightarrow> nat \<Rightarrow> ('w, 'm, 'f, 'a, 's) lingering_scheme \<Rightarrow>
    ('w, 'm, 'f, 'a, 's) lingering_scheme \<Rightarrow> bool" where
  "back_with es k a fun s t \<longleftrightarrow> touches a fun s t \<and>
     (\<exists>cp. task_checkpoint (tls_TASK (ltls t a)) = Some cp \<and> ctx_stack cp = k) \<and>
     (undisturbed es \<longrightarrow> task_errno (tls_TASK (ltls t a)) = None)"

lemma back_with_after: "touches a fun s t \<Longrightarrow> back_with es k a fun t u \<Longrightarrow> back_with es k a fun s u"
  by (auto simp: back_with_def intro: touches_trans)

lemma schedule_exit_ltls: "schedule_exit G fr s = (r, t) \<Longrightarrow> ltls t = ltls s"
proof -
  have "keeps ltls (schedule_exit G fr)"
    unfolding schedule_exit_def disable_preemption_def mask_signal_def set_tls_def set_tls_of_def
    by (intro keeps_rules keeps_modify keeps_syscalls keeps_prim; simp)
  then show "schedule_exit G fr s = (r, t) \<Longrightarrow> ltls t = ltls s" by (rule keepsD)
qed

lemma thread_event_finishes:
  assumes "in_function E J no a k c s" and "thread_event E U e c s = (Val Back, t)" and "\<And>no. e \<noteq> Delivers no"
  shows "task_errno (tls_TASK (ltls t a)) = None"
proof -
  have "task_errno (tls_TASK (ltls s a)) = None" using assms(1) by (simp add: in_function_def)
  moreover have "ltls t = ltls s"
    using assms(2,3)
    by (cases "(E, U, e, c)" rule: thread_event.cases)
      (auto simp: comp_simps closure_call_def user_step_def function_done_def completion_take_def split: prod.splits
        outcome.splits completion.splits user_op.splits dest!: schedule_exit_ltls)
  ultimately show ?thesis by simp
qed

lemma execute_finishes:
  assumes "run_doc E U J" and "undisturbed es" and "in_function E J no a k c s" and "execute E U es c s = (Val (), t)"
  shows "task_errno (tls_TASK (ltls t a)) = None"
  using assms(2-4)
proof (induction es arbitrary: c s)
  case (Cons e es)
  have en: "enabled E e c (world s)" using Cons.prems(3) by (auto split: if_splits)
  obtain p u where ev: "thread_event E U e c s = (p, u)" by fastforce
  note go = thread_event_goes_on [OF assms(1) Cons.prems(2) en, unfolded ev goes_on_def fst_conv snd_conv]
  show ?case
  proof (cases p)
    case (Val pr)
    show ?thesis
    proof (cases pr)
      case (At c')
      then show ?thesis
        using Cons.IH [of c' u] go Val Cons.prems ev en by (auto simp: comp_simps undisturbed_def)
    next
      case Back
      then have "t = u" using Cons.prems(3) ev en Val by (simp add: comp_simps)
      with thread_event_finishes [OF Cons.prems(2)] ev Val Back Cons.prems(1) show ?thesis
        by (auto simp: undisturbed_def)
    qed
  qed (use go in simp)
qed simp

lemma execute_ends:
  fixes s s0 :: "('w, 'f mcontext, 'f, 'a, 's) lingering_scheme"
  assumes "run_doc E U J" and "in_function E J no a k c s" and "\<not> in_library c" and "pending E s = pending E s0"
  shows "ends (starved E U J es a s0) (execute E U es c) (\<lambda>_. back_with es k a (fr_fun (frame_of c)) s) s"
proof -
  have "came_back E J no a k fr t \<Longrightarrow> \<exists>cp. task_checkpoint (tls_TASK (ltls t a)) = Some cp \<and> ctx_stack cp = k" for fr t
    by (auto simp: came_back_def paused_at_def)
  moreover have "starved E U J es a s0 e" if "execute E U es c s = (Fail e, t)" "e = Unfinished" for e t
    using that assms(2-4) unfolding starved_def by (metis fst_conv)
  ultimately show ?thesis
    using execute_comes_back [OF assms(1,2), of es] execute_finishes [OF assms(1) _ assms(2)]
    by (auto simp: ends_def back_with_def split: prod.split outcome.split)
qed

lemma ends_no_unwind: "ends A m P s \<Longrightarrow> (\<And>msg. \<not> A (Panicked msg)) \<Longrightarrow> ends A (no_unwind m) P s"
  by (auto simp: ends_def no_unwind_def split: prod.splits outcome.splits failure.splits)

lemma transfer_Entry_ends:
  fixes s s0 :: "('w, 'f mcontext, 'f, 'a, 's) lingering_scheme"
  assumes doc: "run_doc E U J" and fs: "fs_of E s = a" and sig: "signal_in (ptls s) a = Some no"
    and nd: "\<not> tls_DEFERRED (ptls s a)" and g: "g \<noteq> group_SHARED E"
    and loc: "\<And>w. group_lookup_errno_location E g w \<noteq> None"
    and boot: "tls_BOOTSTRAP (ltls s a) = Some (fun, g)"
    and task: "task_errno (tls_TASK (ltls s a)) = None" "task_checkpoint (tls_TASK (ltls s a)) = Some cp"
      "ctx_mcontext cp = Call_site" "ctx_stack cp = k"
    and clo: "closures s fun = Function f" "fst J f" and us: "budget_fits E (tls_DEADLINE (ltls s a))"
    and V: "pending E s = pending E s0"
  shows "ends (starved E U J es a s0) (transfer E U es Entry) (\<lambda>_. back_with es k a fun s) s"
proof -
  let ?fr = "\<lparr>fr_fun = fun, fr_group = g, fr_signal = Some no\<rparr>"
  have "ends (starved E U J es a s0) (execute E U es (Entering ?fr)) (\<lambda>_. back_with es k a fun s) t"
    if "in_function E J no a k (Entering ?fr) t" "touches a fun s t" "pending E t = pending E s" for t
  proof -
    have "ends (starved E U J es a s0) (execute E U es (Entering ?fr)) (\<lambda>_. back_with es k a fun t) t"
      using execute_ends [OF doc that(1), of s0 es] that(3) V by simp
    then show ?thesis by (rule ends_mono) (rule back_with_after [OF that(2)])
  qed
  then show ?thesis
    unfolding transfer_def
    by (auto simp: Let_def dest: starved_unfinished intro!: ends_no_unwind
        ends_mono [OF schedule_ends [OF run_docD(1,4) [OF doc] fs sig nd g loc boot task clo us]])
qed

lemma transfer_Interrupted_ends:
  fixes s s0 :: "('w, 'f mcontext, 'f, 'a, 's) lingering_scheme"
  assumes "run_doc E U J" and "in_function E J no a k c s" and "\<not> in_library c"
    and V: "pending E s = pending E s0"
  shows "ends (starved E U J es a s0) (transfer E U es (Interrupted c)) (\<lambda>_. back_with es k a (fr_fun (frame_of c)) s) s"
  unfolding transfer_def mcontext.case by (rule ends_no_unwind [OF execute_ends [OF assms]]) (simp add: starved_def)

section \<open>Switching stacks\<close>

lemma switch_stack_jump_ends:
  assumes "context_doc E" and "platform_succeeds E"
    and "fs_of E s = a" and "task_checkpoint (tls_TASK (ltls s a)) = Some here"
    and "\<And>target cp w. target = ctx_mcontext here \<Longrightarrow> ctx_mcontext cp = Call_site \<Longrightarrow> ctx_stack cp = ctx_stack here \<Longrightarrow>
      view E w = (view E (world s))\<lparr>v_mask := ctx_mask here\<rparr> \<Longrightarrow>
      ends A (transfer E U es target) (\<lambda>_. P error) (s\<lparr>world := w, ltls := (ltls s)(a := (ltls s a)\<lparr>tls_TASK :=
        (tls_TASK (ltls s a))\<lparr>task_checkpoint := Some cp\<rparr>\<rparr>)\<rparr>)"
  shows "ends A (switch_stack_jump E U es error) P s"
proof -
  obtain target cp where x: "fst (tt_sigsetcontext E here (world s)) = Ok (target, cp)"
    using assms(2) unfolding platform_succeeds_def not_is_err by (metis prod.collapse)
  then have l: "target = ctx_mcontext here" "ctx_mcontext cp = Call_site" "ctx_stack cp = ctx_stack here"
      "view E (snd (tt_sigsetcontext E here (world s))) = (view E (world s))\<lparr>v_mask := ctx_mask here\<rparr>"
    using assms(1) by (auto simp: context_doc_def split_beta dest!: spec [of _ here] spec [of _ "world s"])
  show ?thesis
    using assms(3,4) x l(4) assms(5) [OF l] by (auto simp: switch_stack_jump_def ltls_at_def)
qed

lemma switch_stack_scope_first_ends:
  fixes s s0 :: "('w, 'f mcontext, 'f, 'a, 's) lingering_scheme"
  assumes doc: "run_doc E U J" "platform_succeeds E" and fs: "fs_of E s = a" and sig: "signal_in (ptls s) a = Some no"
    and nd: "\<not> tls_DEFERRED (ptls s a)" and g: "g \<noteq> group_SHARED E"
    and loc: "\<And>w. group_lookup_errno_location E g w \<noteq> None"
    and boot: "tls_BOOTSTRAP (ltls s a) = Some (fun, g)"
    and task: "tls_TASK (ltls s a) = task_default"
    and clo: "closures s fun = Function f" "fst J f" and here: "ctx_mcontext here = Entry" "ctx_stack here = k"
    and us: "budget_fits E (tls_DEADLINE (ltls s a))"
    and V: "pending E s = pending E s0"
  shows "ends (starved E U J es a s0) (switch_stack_scope E U es None g here) (\<lambda>error t. error = None \<and> back_with es k a fun s t) s"
proof -
  let ?at = "\<lambda>w cp. s\<lparr>world := w, ltls := (ltls s)(a := (ltls s a)\<lparr>tls_TASK := task_default\<lparr>task_checkpoint := Some cp\<rparr>\<rparr>)\<rparr>"
  have t: "ends (starved E U J es a s0) (transfer E U es Entry) (\<lambda>_. back_with es k a fun s) (?at w cp)"
    if l: "ctx_mcontext cp = Call_site" "ctx_stack cp = k" "view E w = (view E (world s))\<lparr>v_mask := ctx_mask here\<rparr>" for cp w
  proof -
    have "ends (starved E U J es a s0) (transfer E U es Entry) (\<lambda>_. back_with es k a fun (?at w cp)) (?at w cp)"
      using l fs sig nd g boot clo us loc V
      by (intro transfer_Entry_ends [OF doc(1), where cp = cp and f = f]) (simp_all add: task_default_def)
    then show ?thesis
      using l by (auto elim!: ends_mono intro: back_with_after [rotated] simp: touches_def)
  qed
  have "ends (starved E U J es a s0) (switch_stack_jump E U es None) (\<lambda>error t. error = None \<and> back_with es k a fun s t)
      (?at (world s) here)"
    using fs here t
    by (intro switch_stack_jump_ends [OF run_docD(2) [OF doc(1)] doc(2), where a = a and here = here])
      (auto simp: world_before_ltls)
  then show ?thesis
    using fs task by (simp add: switch_stack_scope_def ltls_at_def task_default_def)
qed

lemma switch_stack_prepare_ends:
  assumes "preempt_doc E" and "clock_doc E" and "fs_of E s = a" and "signal_in (ptls s) a = Some no"
    and "budget_fits E (tls_DEADLINE (ltls s a))"
    and "\<And>d. P None (s\<lparr>world := prepared_world E no g erryes (world s),
      ltls := (ltls s)(a := (ltls s a)\<lparr>tls_TASK := (tls_TASK (ltls s a))\<lparr>task_checkpoint :=
        map_option (\<lambda>c. c\<lparr>ctx_mask := v_mask (view E (world s)) - {signal_as_c_int no}\<rparr>)
          (task_checkpoint (tls_TASK (ltls s a)))\<rparr>, tls_DEADLINE := d\<rparr>)\<rparr>)"
  shows "ends A (switch_stack_prepare E erryes g) P s"
proof -
  have "ends A (thread_signal E) Q s = Q (Ok no) s" for Q
    using assms(3,4) by (intro ends_run thread_signal_Some) simp
  moreover have "ends A (pthread_sigmask E Block {signal_as_c_int no}) Q s =
      Q (Ok (v_mask (view E (world s)))) (s\<lparr>world := masked E Block {signal_as_c_int no} (world s)\<rparr>)" for Q
    by (intro ends_run) (simp add: preempt_laws [OF assms(1)])
  ultimately show ?thesis
    using assms(3,5,6)
    by (auto simp: switch_stack_prepare_def preempt_laws [OF assms(1)] prepared_world_def world_before_ltls
        intro!: stamp_ends [OF assms(2), where a = a])
qed

lemma switch_stack_scope_again_ends:
  fixes s s0 :: "('w, 'f mcontext, 'f, 'a, 's) lingering_scheme"
  assumes doc: "run_doc E U J" "platform_succeeds E" and fs: "fs_of E s = a" and sig: "signal_in (ptls s) a = Some no"
    and nd: "\<not> tls_DEFERRED (ptls s a)" and g: "g \<noteq> group_SHARED E"
    and loc: "locates E g (tls_ERRNO_LOCATION (ptls s a))"
    and boot: "tls_BOOTSTRAP (ltls s a) = None"
    and task: "tls_TASK (ltls s a) = task_default"
    and ctl: "fr_fun (frame_of ctl) = fun" "fr_group (frame_of ctl) = g" "\<not> in_library ctl"
    and clo: "closure_ok J ctl (closures s fun)" and here: "ctx_mcontext here = Interrupted ctl" "ctx_stack here = k"
    and us: "budget_fits E (tls_DEADLINE (ltls s a))"
    and V: "pending E s = pending E s0"
  shows "ends (starved E U J es a s0) (switch_stack_scope E U es (Some erryes) g here) (\<lambda>error t. error = None \<and> back_with es k a fun s t) s"
proof -
  note d = run_docD(1) [OF doc(1)]
  let ?here = "here\<lparr>ctx_mask := v_mask (view E (world s)) - {signal_as_c_int no}\<rparr>"
  let ?w = "prepared_world E no g erryes (world s)"
  let ?at = "\<lambda>w cp x. s\<lparr>world := w, ltls := (ltls s)(a := (ltls s a)\<lparr>tls_TASK := task_default\<lparr>
      task_checkpoint := Some cp\<rparr>, tls_DEADLINE := x\<rparr>)\<rparr>"
  have t: "ends (starved E U J es a s0) (transfer E U es (Interrupted ctl)) (\<lambda>_. back_with es k a fun s) (?at w cp x)"
    if l: "ctx_mcontext cp = Call_site" "ctx_stack cp = k" "view E w = (view E ?w)\<lparr>v_mask := ctx_mask ?here\<rparr>" for cp w x
  proof -
    have "in_function E J no a k ctl (?at w cp x)"
      using l fs sig nd g loc boot ctl clo
      by (simp add: in_function_def prepared_world_view [OF d] task_default_def)
    from transfer_Interrupted_ends [OF doc(1) this ctl(3), of s0 es] show ?thesis
      using ctl l V prepared_world_view [OF d] by (auto elim!: ends_mono intro: back_with_after [rotated] simp: touches_def)
  qed
  have "ends (starved E U J es a s0) (switch_stack_jump E U es None) (\<lambda>error t. error = None \<and> back_with es k a fun s t)
      (?at ?w ?here x)" for x
    using fs here t [where x = x]
    by (intro switch_stack_jump_ends [OF run_docD(2) [OF doc(1)] doc(2), where a = a and here = ?here])
      (auto simp: world_before_ltls deadline_before_task prepared_world_view [OF d])
  then show ?thesis
    using fs task sig us
    by (auto simp: switch_stack_scope_def ltls_at_def task_default_def world_before_ltls
        intro!: switch_stack_prepare_ends [OF d run_docD(4) [OF doc(1)], where a = a and no = no])
qed

lemma switch_stack_scope_ends:
  fixes s s0 :: "('w, 'f mcontext, 'f, 'a, 's) lingering_scheme"
  assumes "run_doc E U J" and "platform_succeeds E" and "enterable E J no a g c s"
    and "task_checkpoint (stateful c) = Some cp"
    and "ctx_mcontext here = ctx_mcontext cp" and "ctx_stack here = k" and "view E w = view E (world s)"
    and "budget_fits E (tls_DEADLINE (ltls s a))"
    and V: "pending E s = pending E s0"
  shows "ends (starved E U J es a s0) (switch_stack_scope E U es (task_errno (stateful c)) g here)
    (\<lambda>error t. error = None \<and> back_with es k a (functional c) s t) (s\<lparr>world := w\<rparr>)"
proof (cases "task_errno (stateful c)")
  case None
  with assms obtain f where "closures s (functional c) = Function f" "fst J f"
    by (auto simp: enterable_def cont_state_def)
  with None assms show ?thesis
    by (auto simp: enterable_def
        intro!: ends_mono [OF switch_stack_scope_first_ends [OF assms(1,2), where f = f]]
        intro: back_with_after [OF touches_world])
next
  case (Some e)
  with assms obtain ctl k' where "paused_at ctl k' (stateful c)" "fr_fun (frame_of ctl) = functional c"
      "fr_group (frame_of ctl) = g" "closure_ok J ctl (closures s (functional c))"
      "locates E g (tls_ERRNO_LOCATION (ptls s a))"
    by (auto simp: enterable_def cont_state_def)
  with Some assms show ?thesis
    by (auto simp: enterable_def paused_at_def
        intro!: ends_mono [OF switch_stack_scope_again_ends [OF assms(1,2), where ctl = ctl]]
        intro: back_with_after [OF touches_world])
qed

section \<open>Around the switch\<close>

text \<open>What a call of \<^verbatim>\<open>resume\<close> leaves of the pools: only stacks come and go.\<close>

definition pools_kept :: "('w, 's) preemption_scheme \<Rightarrow> ('w, 's) preemption_scheme \<Rightarrow> bool" where
  "pools_kept s t \<longleftrightarrow> stacks_usable t \<and> pools_usable t \<and> HOOK_INIT t = HOOK_INIT s"

lemma touches_pools:
  assumes "touches a fun s t"
  shows "pool_view t = pool_view s" and "HOOK_INIT t = HOOK_INIT s"
  using assms unfolding touches_def pool_view_def by (cases s; cases t; simp)+

lemma pools_kept_touches: "touches a fun s t \<Longrightarrow> stacks_usable s \<Longrightarrow> pools_usable s \<Longrightarrow> pools_kept s t"
  using pool_view_cong [OF touches_pools(1)] touches_pools(2) by (simp add: pools_kept_def) blast

lemma pools_kept_stacks: "pools_kept s t \<Longrightarrow> pools_kept s (t\<lparr>STACKS := Some (free_pool ks)\<rparr>)"
  by (auto simp: pools_kept_def stacks_usable_def pools_usable_def)

lemma pools_kept_trans: "pools_kept s t \<Longrightarrow> pools_kept t u \<Longrightarrow> pools_kept s u"
  by (simp add: pools_kept_def)

lemma pools_kept_ltls [simp]:
  "pools_kept (s\<lparr>ltls := l\<rparr>) t = pools_kept s t" "pools_kept s (t\<lparr>ltls := l\<rparr>) = pools_kept s t"
  by (simp_all add: pools_kept_def stacks_usable_def pools_usable_def)

text \<open>It returned without an error, with a continuation whose stack is still there.\<close>

definition returned :: "('w, 's) preemption_scheme \<Rightarrow> ('x, 'e) result \<Rightarrow> 'm continuation \<times> ('w, 's) preemption_scheme \<Rightarrow> bool" where
  "returned s r ct \<longleftrightarrow> (\<exists>x. r = Ok x) \<and> task_full (stateful (fst ct)) \<and> pools_kept s (snd ct)"

text \<open>So did a function that was entered; undisturbed, it has finished.\<close>

definition switched_back :: "event list \<Rightarrow> ('w, 's) preemption_scheme \<Rightarrow> bool io_result \<Rightarrow>
    'm continuation \<times> ('w, 's) preemption_scheme \<Rightarrow> bool" where
  "switched_back es s r ct \<longleftrightarrow> returned s r ct \<and> (undisturbed es \<longrightarrow> r = Ok True)"

lemma switch_stack_finish_ends:
  assumes "back_with es k a (functional c) s0 s" and "fs_of E s = a" and "full k"
    and "stacks_usable s0" and "pools_usable s0" and "task_checkpoint (stateful c) = None"
  shows "ends A (switch_stack_finish E) (switched_back es s0) (c, s)"
proof -
  obtain cp where cp: "task_checkpoint (tls_TASK (ltls s a)) = Some cp" "ctx_stack cp = k"
    using assms(1) by (auto simp: back_with_def)
  have kept: "pools_kept s0 s"
    using assms(1,4,5) by (auto simp: back_with_def intro: pools_kept_touches)
  then have usable: "stacks_usable (s\<lparr>ltls := l\<rparr>)" for l
    by (simp add: pools_kept_def stacks_usable_def)
  show ?thesis
    using assms(1-3,6) cp kept usable
    by (auto simp: switch_stack_finish_def ltls_at_def set_task_def task_full_def Let_def returned_def switched_back_def back_with_def
        intro!: drop_checkpoint_ends pools_kept_stacks)
qed

lemma switch_stack_ends:
  fixes s s0 :: "('w, 'f mcontext, 'f, 'a, 's) lingering_scheme"
  assumes doc: "run_doc E U J" "platform_succeeds E" and e: "enterable E J no a g c s"
    and us: "budget_fits E (tls_DEADLINE (ltls s a))" and k: "task_full (stateful c)"
    and pools: "stacks_usable s" "pools_usable s"
    and V: "pending E s = pending E s0"
  shows "ends (starved E U J es a s0) (switch_stack E U es g)
    (switched_back es s) (c, s)"
proof -
  obtain cp where cp: "task_checkpoint (stateful c) = Some cp"
    using e by (auto simp: enterable_def cont_state_def paused_at_def split: if_splits)
  obtain here where here: "fst (tt_restorecontext E cp (world s)) = Ok here"
    using doc(2) unfolding platform_succeeds_def not_is_err by blast
  let ?w = "snd (tt_restorecontext E cp (world s))"
  let ?c = "c\<lparr>stateful := (stateful c)\<lparr>task_checkpoint := None\<rparr>\<rparr>"
  have v: "view E ?w = view E (world s)" "ctx_mcontext here = ctx_mcontext cp" "ctx_stack here = ctx_stack cp"
    using run_docD(2) [OF doc(1)] here by (auto simp: context_doc_def split_beta dest!: spec [of _ cp] spec [of _ "world s"])
  have "ends (starved E U J es a s0) (switch_stack_scope E U es (task_errno (stateful c)) g here)
      (\<lambda>error t. (error = None \<and> back_with es (ctx_stack cp) a (functional c) s t) \<and>
        (error = None \<longrightarrow> back_from E J no a (ctx_stack cp) (functional c) g s t)) (s\<lparr>world := ?w\<rparr>)"
    by (rule ends_wp [OF switch_stack_scope_ends [OF doc e cp v(2,3,1) us V] switch_stack_scope_wp [OF doc(1) e cp v(2,3,1)]])
  then have "ends (starved E U J es a s0) (switch_stack_scope E U es (task_errno (stateful c)) g here)
      (\<lambda>error t. case error of Some er \<Rightarrow> False | None \<Rightarrow> ends (starved E U J es a s0) (switch_stack_finish E)
        (switched_back es s) (?c, t)) (s\<lparr>world := ?w\<rparr>)"
    by (rule ends_mono)
      (use k cp pools in \<open>force simp: back_from_def came_back_def task_full_def intro!: switch_stack_finish_ends\<close>)
  then have "ends (starved E U J es a s0) (bind (elsewhere (switch_stack_scope E U es (task_errno (stateful c)) g here)) (\<lambda>error. case error of
          Some e \<Rightarrow> ret (Err e) | None \<Rightarrow> switch_stack_finish E))
      (switched_back es s) (?c, s\<lparr>world := ?w\<rparr>)"
    unfolding ends_simps ends_elsewhere by (rule ends_mono) (simp split: option.splits)
  then show ?thesis
    using cp here by (simp add: switch_stack_def set_task_def)
qed

section \<open>Resuming a continuation\<close>

lemma hook_statics: "statics.more t = statics.more s \<Longrightarrow> HOOK_INIT t = HOOK_INIT s" for s t :: "('w, 's) preemption_scheme"
  by (cases s; cases t) simp

lemma resume_bootstrap_ends:
  assumes doc: "context_doc E" "platform_succeeds E" and fs: "fs_of E s = a"
    and idle: "idle_block a s" and pools: "pools_usable s" and k: "task_full (stateful c)"
  shows "ends A (resume_bootstrap E g) (returned s) (c, s)"
proof -
  have stack: "ends A (setup_stack E) (\<lambda>r t. (\<exists>cp. r = Ok (Some cp) \<and> full (ctx_stack cp) \<and> stacks_usable t \<and> pools_usable t) \<and>
      HOOK_INIT t = HOOK_INIT s \<and> ltls t = ltls s \<and> view E (world t) = view E (world s)) s"
    using ends_keeps [OF ends_keeps [OF setup_stack_ends [OF doc(2,1) pools] keeps_setup_stack] keeps_setup_stack_view [OF doc(1)]]
    by (rule ends_mono) (auto dest: hook_statics lingering_eqI)
  show ?thesis
    unfolding resume_bootstrap_def ends_or_return ends_elsewhere
    apply (rule ends_mono [OF stack])
    subgoal for r t
      using fs idle k
      by (auto simp: set_task_def idle_block_def ltls_at_def task_full_def returned_def pools_kept_def
          stacks_usable_def pools_usable_def intro!: drop_checkpoint_ends)
    done
qed

lemma returned_OkD:
  "returned s r (c, t) \<Longrightarrow> (\<exists>x. r = Ok x) \<and> task_full (stateful c) \<and> pools_kept s t"
  by (simp add: returned_def)

lemma returned_ltls [simp]:
  "returned (s\<lparr>ltls := l\<rparr>) = returned s" "switched_back es (s\<lparr>ltls := l\<rparr>) = switched_back es s"
  by (simp_all add: returned_def switched_back_def fun_eq_iff)

lemma keeps_bootstrap_view:
  assumes "context_doc E"
  shows "keeps (\<lambda>(_, s). view E (world s)) (resume_bootstrap E g)"
  unfolding resume_bootstrap_def set_task_def set_ltls_def
  by (intro keeps_rules keeps_modify keeps_setup_stack_view [OF assms] keeps_drop_checkpoint_world) auto

lemma enter_ends:
  fixes s s0 :: "('w, 'f mcontext, 'f, 'a, 's) lingering_scheme"
  assumes doc: "run_doc E U J" "platform_succeeds E" and e: "enterable E J no a g c s"
    and us: "budget_fits E us" and k: "task_full (stateful c)" and pools: "stacks_usable s" "pools_usable s"
    and V: "pending E s = pending E s0"
  shows "ends (starved E U J es a s0) (andthen (elsewhere (set_ltls E (\<lambda>t. t\<lparr>tls_DEADLINE := us\<rparr>))) (switch_stack E U es g)) (switched_back es s) (c, s)"
proof -
  let ?s = "s\<lparr>ltls := (ltls s)(a := (ltls s a)\<lparr>tls_DEADLINE := us\<rparr>)\<rparr>"
  have "ends (starved E U J es a s0) (switch_stack E U es g) (switched_back es ?s) (c, ?s)"
    using us k pools V
    by (intro switch_stack_ends [OF doc enterable_deadline [OF e]]) (simp_all add: stacks_usable_def pools_usable_def)
  moreover have "fs_of E s = a" using e by (simp add: enterable_def)
  ultimately show ?thesis by simp
qed

lemma resume_prepared_ends:
  fixes s s0 :: "('w, 'f mcontext, 'f, 'a, 's) lingering_scheme"
  assumes doc: "run_doc E U J" "platform_succeeds E" and fs: "fs_of E s = a" and sig: "signal_in (ptls s) a = Some no"
    and idle: "idle_block a s" and g: "g \<noteq> group_SHARED E" "\<And>w. group_lookup_errno_location E g w \<noteq> None"
    and cs: "cont_state E J a g c s" and us: "budget_fits E us" and k: "task_full (stateful c)"
    and pools: "pools_usable s" "task_errno (stateful c) \<noteq> None \<Longrightarrow> stacks_usable s"
    and V: "pending E s = pending E s0"
  shows "ends (starved E U J es a s0) (or_return (if task_errno (stateful c) = None then resume_bootstrap E g else ret (Ok ())) (\<lambda>_.
      andthen (elsewhere (set_ltls E (\<lambda>t. t\<lparr>tls_DEADLINE := us\<rparr>))) (switch_stack E U es g))) (switched_back es s) (c, s)"
proof (cases "task_errno (stateful c) = None")
  case True
  note b = ends_wp [OF resume_bootstrap_ends [OF run_docD(2) [OF doc(1)] doc(2) fs idle pools(1) k]
      resume_bootstrap_wp [OF doc(1) fs sig idle g cs True], THEN ends_keeps, OF keeps_bootstrap_view [OF run_docD(2) [OF doc(1)]]]
  have go: "ends (starved E U J es a s0) (andthen (elsewhere (set_ltls E (\<lambda>t. t\<lparr>tls_DEADLINE := us\<rparr>))) (switch_stack E U es g)) (switched_back es s) (c', t)"
    if "enterable E J no a g c' t" "task_full (stateful c')" "pools_kept s t" "view E (world t) = view E (world s)" for c' t
    using that us V by (intro ends_mono [OF enter_ends [OF doc that(1)]])
      (auto simp: switched_back_def returned_def pools_kept_def)
  show ?thesis
    unfolding ends_or_return using True
    by (simp del: ends_simps)
      (rule ends_mono [OF b], auto dest: returned_OkD simp del: ends_simps intro!: go)
next
  case False
  then have "enterable E J no a g c s"
    using fs sig idle g cs by (simp add: enterable_def idle_block_def)
  from enter_ends [OF doc this us k pools(2) pools(1) V] False show ?thesis by auto
qed

text \<open>The thread can be given a preemption signal if it has none.\<close>

definition thread_ready :: "usize \<Rightarrow> ('w, 's) preemption_scheme \<Rightarrow> bool" where
  "thread_ready me s \<longleftrightarrow> HOOK_INIT s \<noteq> Once_Poisoned \<and> (tls_SIGNALER (ptls s me) \<noteq> None \<or> signals_left s)"

text \<open>The pools have room, and the continuation still has its stack if it had one.\<close>

definition resumable :: "'m continuation \<Rightarrow> ('w, 's) preemption_scheme \<Rightarrow> bool" where
  "resumable c s \<longleftrightarrow> task_full (stateful c) \<and> pools_usable s \<and> (task_errno (stateful c) \<noteq> None \<longrightarrow> stacks_usable s)"

lemma resume_installed_ends:
  fixes s s0 :: "('w, 'f mcontext, 'f, 'a, 's) lingering_scheme"
  assumes doc: "run_doc E U J" "setup_doc E" "platform_succeeds E" and fs: "fs_of E s = a" "a \<noteq> me"
    and wf: "signalers_wf (ptls s)" and idle: "idle_block a s"
    and g: "g \<noteq> group_SHARED E" "\<And>w. group_lookup_errno_location E g w \<noteq> None"
    and cs: "cont_state E J a g c s" and us: "budget_fits E us" and rd: "resumable c s" "thread_ready me s"
    and V: "pending E s = pending E s0"
  shows "ends (starved E U J es a s0) (resume_installed E U es me g us) (switched_back es (s\<lparr>HOOK_INIT := Once_Done\<rparr>)) (c, s)"
proof -
  have "ends (starved E U J es a s0) (thread_setup E me (addr_of_preempt E) QUANTUM_MICROSECS) (\<lambda>r t. r = Ok () \<and> HOOK_INIT t = Once_Done) s"
    using rd fs idle doc(3)
    by (intro thread_setup_ends [OF doc(2)]) (auto simp: thread_ready_def idle_block_def platform_succeeds_def)
  note ready = ends_wp [OF ends_keeps [OF this keeps_pool_view] thread_setup_wp [OF doc(2) fs wf]]
  have after: "ends (starved E U J es a s0) (or_return (if task_errno (stateful c) = None then resume_bootstrap E g else ret (Ok ())) (\<lambda>_.
      andthen (elsewhere (set_ltls E (\<lambda>t. t\<lparr>tls_DEADLINE := us\<rparr>))) (switch_stack E U es g)))
      (switched_back es (s\<lparr>HOOK_INIT := Once_Done\<rparr>)) (c, s1)"
    if p: "ptls s1 = (ptls s)(me := (ptls s me)\<lparr>tls_SIGNALER := Some ps\<rparr>, a := (ptls s a)\<lparr>tls_SIGNAL := Some me\<rparr>)"
        "reusable_value (ps_signal ps) = Some no" "preemption.more s1 = preemption.more s"
        "place_of E (world s1) = place_of E (world s)" "pool_view s1 = pool_view s" "HOOK_INIT s1 = Once_Done"
    for no ps s1
  proof -
    note l = lingering_more [OF p(3)]
    have f: "fs_of E s1 = a" "signal_in (ptls s1) a = Some no" "idle_block a s1" "cont_state E J a g c s1"
      using p l fs idle cs cont_state_cong [of s1 c s a E J g]
      by (simp_all add: place_of_def signal_in_def idle_block_def)
    have "ends (starved E U J es a s0) (or_return (if task_errno (stateful c) = None then resume_bootstrap E g else ret (Ok ())) (\<lambda>_.
      andthen (elsewhere (set_ltls E (\<lambda>t. t\<lparr>tls_DEADLINE := us\<rparr>))) (switch_stack E U es g))) (switched_back es s1) (c, s1)"
      using rd(1) pool_view_cong [OF p(5)]
      by (intro resume_prepared_ends [OF doc(1,3) f(1-3) g f(4) us]) (use p(4) V in \<open>auto simp: resumable_def place_of_def\<close>)
    moreover have "switched_back es s1 r ct \<Longrightarrow> switched_back es (s\<lparr>HOOK_INIT := Once_Done\<rparr>) r ct" for r :: "bool io_result" and ct
      using p(6) by (simp add: switched_back_def returned_def pools_kept_def)
    ultimately show ?thesis by (rule ends_mono)
  qed
  show ?thesis
    unfolding resume_installed_def setup_thread_def ends_simps ends_elsewhere
    by (rule ends_mono [OF ready]) (auto simp del: ends_or_return split del: if_split intro!: after)
qed

lemma endsI: "m s = (Val x, t) \<Longrightarrow> P x t \<Longrightarrow> ends A m P s"
  by (simp add: ends_def)

lemma ends_guarded:
  assumes "ends A m P s" and "\<And>r t. P r t \<Longrightarrow> \<exists>x. r = Ok x" and "\<And>msg. \<not> A (Panicked msg)"
  shows "ends A (guarded G gd m) P s"
proof -
  obtain q t where run: "m s = (q, t)" by (cases "m s")
  show ?thesis
  proof (cases q)
    case (Val r)
    with assms(1) run have p: "P r t" by (simp add: ends_def)
    moreover obtain x where "r = Ok x" using assms(2) [OF p] by blast
    ultimately show ?thesis using run Val by (simp add: ends_def guarded_def on_panic_def comp_simps)
  next
    case (Fail e)
    with assms(1,3) run show ?thesis
      by (cases e) (simp_all add: ends_def guarded_def on_panic_def comp_simps)
  qed
qed

text \<open>Uninstalling the block and putting it back.\<close>

lemma give_back_ends:
  assumes "platform_succeeds E" and "switched_back es s0 (Ok fin) (c, t)" and "cont_tls c = \<lparr>reusable_value = Some None\<rparr>"
    and "gd = \<lparr>guard_this = \<lparr>tcb_fs = Some (Mut a)\<rparr>, guard_parent = \<lparr>tcb_fs = Some (Ref me)\<rparr>\<rparr>"
  shows "ends A (or_return (elsewhere (uninstall E gd)) (\<lambda>tls. andthen (replace_tls tls) (ret (Ok fin)))) (switched_back es s0) (c, t)"
proof -
  obtain w where "uninstall E gd t = (Val (Ok \<lparr>tcb_fs = Some (Mut a)\<rparr>), t\<lparr>world := w\<rparr>)"
    using uninstall_succeeds [OF assms(1), of gd me t] assms(4) by auto
  then show ?thesis
    using assms(2,3) by (simp add: ends_run replace_tls_def deref_mut_def switched_back_def returned_def pools_kept_def
        stacks_usable_def pools_usable_def)
qed

lemma resume_continuation_ends:
  fixes s s0 :: "('w, 'f mcontext, 'f, 'a, 's) lingering_scheme"
  assumes doc: "run_doc E U J" "setup_doc E" "platform_succeeds E" and call: "caller_ok E me s"
    and c: "cont_ok E J a g c s" "a \<noteq> me" and us: "budget_fits E us" and rd: "resumable c s" "thread_ready me s"
    and V: "pending E s = pending E s0"
  shows "ends (starved E U J es a s0) (resume_continuation E U es us) (switched_back es (s\<lparr>HOOK_INIT := Once_Done\<rparr>)) (c, s)"
proof -
  let ?b = "\<lparr>tcb_fs = Some (Mut a)\<rparr>" and ?c = "c\<lparr>cont_tls := \<lparr>reusable_value = Some None\<rparr>\<rparr>"
  let ?gd = "\<lparr>guard_this = ?b, guard_parent = \<lparr>tcb_fs = Some (Ref me)\<rparr>\<rparr>"
  have grp: "cont_group c = \<lparr>reusable_value = Some g\<rparr>" "cont_tls c = \<lparr>reusable_value = Some (Some ?b)\<rparr>" "fs_of E s = me"
    using c call by (simp_all add: cont_ok_def caller_ok_def)
  obtain w words where inst: "install E ?b g s = (Val (Ok ?gd), s\<lparr>world := w, tcb_words := words\<rparr>)"
    using install_succeeds [OF doc(3) setup_docD(4) [OF doc(2)], of a g s] grp(3) by metis
  let ?s = "s\<lparr>world := w, tcb_words := words\<rparr>"
  have v: "view E w = (view E (world s))\<lparr>v_fs := a\<rparr>"
    using install_Ok(1,2) [OF setup_docD(4) [OF doc(2)] inst] by simp
  have "ends (starved E U J es a s0) (resume_installed E U es me g us) (\<lambda>r ct. switched_back es (?s\<lparr>HOOK_INIT := Once_Done\<rparr>) r ct \<and>
      (case ct of (c', t) \<Rightarrow> \<forall>fin. r = Ok fin \<longrightarrow> resumed E J me a g ?c ?s fin c' t \<and> fs_of E t = a \<and> cont_tls c' = cont_tls ?c)) (?c, ?s)"
    using v call c us rd V
    by (intro ends_wp resume_installed_ends [OF doc] resume_installed_wp [OF doc(1,2)])
      (auto simp: caller_ok_def cont_ok_def idle_block_def cont_state_def resumable_def thread_ready_def
        pools_usable_def stacks_usable_def signals_left_def split: if_splits)
  then have "ends (starved E U J es a s0) (guarded E ?gd (resume_installed E U es me g us)) (\<lambda>r ct. \<exists>fin. r = Ok fin \<and>
      switched_back es (s\<lparr>HOOK_INIT := Once_Done\<rparr>) r ct \<and> cont_tls (fst ct) = cont_tls ?c) (?c, ?s)"
    apply (intro ends_guarded)
      apply (erule ends_mono)
      apply (clarsimp simp: switched_back_def returned_def pools_kept_def)
     apply blast
    apply (simp add: starved_def)
    done
  then have "ends (starved E U J es a s0) (or_return (guarded E ?gd (resume_installed E U es me g us)) (\<lambda>finished.
      or_return (elsewhere (uninstall E ?gd)) (\<lambda>tls. andthen (replace_tls tls) (ret (Ok finished)))))
      (switched_back es (s\<lparr>HOOK_INIT := Once_Done\<rparr>)) (?c, ?s)"
    unfolding ends_or_return [of _ "guarded _ _ _"]
    by (rule ends_mono) (auto simp del: ends_or_return intro!: give_back_ends [OF doc(3)])
  then have "ends (starved E U J es a s0) (or_return (elsewhere (install E ?b g)) (\<lambda>gd. or_return (guarded E gd (resume_installed E U es me g us)) (\<lambda>finished.
      or_return (elsewhere (uninstall E gd)) (\<lambda>tls. andthen (replace_tls tls) (ret (Ok finished))))))
      (switched_back es (s\<lparr>HOOK_INIT := Once_Done\<rparr>)) (?c, s)"
    unfolding ends_or_return [of _ "elsewhere (install _ _ _)"] ends_elsewhere
    by - (rule endsI, rule inst, simp del: ends_or_return)
  then show ?thesis
    using grp by (simp add: resume_continuation_def take_tls_def deref_def deref_mut_def real_thread_id_current_def
        del: ends_or_return)
qed

section \<open>Resuming\<close>

lemma drop_finished_ends:
  assumes "group_doc G" and "v_group (view G (world s)) = group_SHARED G"
    and "holds_all c g b" and "task_errno (stateful c) = None" and "pools_kept s0 s"
  shows "ends A (drop_continuation G c) (\<lambda>_. pools_kept s0) s"
proof -
  obtain gs bs ks where p: "GROUPS s = Some (free_pool gs)" "LOCALSTORES s = Some (free_pool bs)" "STACKS s = Some (free_pool ks)"
    using assms(5) by (auto simp: pools_kept_def pools_usable_def stacks_usable_def)
  have "drop_continuation G c s = (Val (), released c g b gs bs ks s)"
    using drop_continuation_run [OF assms(1-3) p] assms(4) by simp
  moreover have "pools_kept s0 (released c g b gs bs ks s)"
    using assms(5) p by (auto simp: released_def pools_kept_def pools_usable_def stacks_usable_def split: option.split)
  ultimately show ?thesis by (rule endsI)
qed

text \<open>The only panic \<^verbatim>\<open>resume\<close> passes on is one the function promised.\<close>

definition own_failure :: "('f, 'a) promise \<Rightarrow> (failure \<Rightarrow> bool) \<Rightarrow> failure \<Rightarrow> bool" where
  "own_failure J A e \<longleftrightarrow> A e \<or> (\<exists>msg. e = Panicked msg \<and> snd J (Err msg))"

definition resume_done :: "event list \<Rightarrow> ('w, 's) preemption_scheme \<Rightarrow> unit io_result \<Rightarrow>
    ('a, 'm) linger \<times> ('w, 's) preemption_scheme \<Rightarrow> bool" where
  "resume_done es s r lt \<longleftrightarrow> r = Ok () \<and> pools_kept s (snd lt) \<and>
     (\<forall>c. fst lt = Continuation c \<longrightarrow> task_full (stateful c) \<and> \<not> undisturbed es)"

lemma resume_finished_ends:
  fixes J :: "('f, 'a) promise"
  assumes doc: "group_doc E" and r: "resumed E J me a g c s True c' t" "cont_tls c' = cont_tls c" "cont_ok E J a g c s"
    and k: "task_full (stateful c')" "pools_kept s0 t"
  shows "ends (own_failure J A) (bind (elsewhere (closure_retrieve (functional c))) (\<lambda>retval.
      bind (expect msg retval) (\<lambda>retval. case retval of
        Ok v \<Rightarrow> andthen (assign E (Completion v)) (ret (Ok ()))
      | Err payload \<Rightarrow> andthen (assign E Poison) (panic payload)))) (resume_done es s0) (Continuation c', t)"
proof -
  obtain q where q: "closures t (functional c) = Return q" "snd J q" "task_errno (stateful c') = None"
      "functional c' = functional c" "v_group (view E (world t)) = group_SHARED E"
    using r(1) by (auto simp: resumed_def)
  let ?t = "t\<lparr>closures := (closures t)(functional c := Empty)\<rparr>"
  have h: "holds_all c' g (Some \<lparr>tcb_fs = Some (Mut a)\<rparr>)"
    using r k(1) by (auto simp: holds_all_def resumed_def cont_ok_def task_full_def full_def)
  have "pools_kept s0 ?t"
    using k(2) by (simp add: pools_kept_def pools_usable_def stacks_usable_def)
  then have drop: "ends A (drop_continuation E c') (\<lambda>_. pools_kept s0) ?t" for A
    using q by (intro drop_finished_ends [OF doc _ h]) simp_all
  show ?thesis
  proof (cases q)
    case (Ok v)
    have "ends (own_failure J A) (drop_continuation E c') (\<lambda>_ u. resume_done es s0 (Ok ()) (Completion v :: ('a, 'f mcontext) linger, u)) ?t"
      by (rule ends_mono [OF drop]) (simp add: resume_done_def)
    with q Ok show ?thesis
      by (simp add: closure_retrieve_def completion_take_def set_closure_def assign_def drop_linger_def)
  next
    case (Err payload)
    have "ends (own_failure J A) (drop_continuation E c') (\<lambda>_ u. own_failure J A (Panicked payload)) ?t"
      using q(2) Err by (intro ends_mono [OF drop]) (simp add: own_failure_def)
    with q Err show ?thesis
      by (simp add: closure_retrieve_def completion_take_def set_closure_def assign_def drop_linger_def)
  qed
qed

lemma ends_weaken: "ends A m P s \<Longrightarrow> (\<And>e. A e \<Longrightarrow> B e) \<Longrightarrow> ends B m P s"
  by (auto simp: ends_def split: prod.split outcome.split)

lemma resume_ends:
  assumes doc: "run_doc E U J" "setup_doc E" "platform_succeeds E" and call: "caller_ok E me s"
    and c: "cont_ok E J a g c s" "a \<noteq> me" and us: "budget_fits E us" and rd: "resumable c s" "thread_ready me s"
  shows "ends (own_failure J (starved E U J es a s)) (resume E U es us) (resume_done es (s\<lparr>HOOK_INIT := Once_Done\<rparr>)) (Continuation c, s)"
proof -
  let ?s = "s\<lparr>HOOK_INIT := Once_Done\<rparr>"
  let ?go = "\<lambda>finished. if \<not> finished then ret (Ok ()) else
     bind (elsewhere (closure_retrieve (functional c))) (\<lambda>retval.
     bind (expect ''resume(): return value was already retrieved'' retval) (\<lambda>retval. case retval of
       Ok v \<Rightarrow> andthen (assign E (Completion v)) (ret (Ok ()))
     | Err payload \<Rightarrow> andthen (assign E Poison) (panic payload)))"
  note g = preempt_docD(1) [OF run_docD(1) [OF doc(1)]]
  have go: "ends (own_failure J (starved E U J es a s)) (?go fin) (resume_done es ?s) (Continuation c', t)"
    if r: "resumed E J me a g c s fin c' t" "cont_tls c' = cont_tls c" "task_full (stateful c')" "pools_kept ?s t" "undisturbed es \<longrightarrow> fin" for fin c' t
  proof (cases fin)
    case True
    with r resume_finished_ends [OF g _ r(2) c(1) r(3,4)] show ?thesis by (simp del: ends_simps)
  next
    case False
    with r show ?thesis by (simp add: resume_done_def)
  qed
  have w: "ends A (\<lambda>(_, s). case resume_continuation E U es us (c, s) of (r, (c', t)) \<Rightarrow> (r, (Continuation c', t))) Q (l, s) \<longleftrightarrow>
      ends A (resume_continuation E U es us) (\<lambda>r (c', t). Q r (Continuation c', t)) (c, s)" for A Q l
    by (simp add: ends_def split: prod.split outcome.split)
  have "ends (own_failure J (starved E U J es a s)) (resume_continuation E U es us) (switched_back es ?s) (c, s)"
    by (rule ends_weaken [OF resume_continuation_ends [OF doc call c us rd refl]]) (simp add: own_failure_def)
  note both = ends_wp [OF this resume_continuation_wp [OF doc(1,2) call c]]
  have "ends (own_failure J (starved E U J es a s)) (or_return (\<lambda>(_, s). case resume_continuation E U es us (c, s) of
      (r, (c', t)) \<Rightarrow> (r, (Continuation c', t))) ?go) (resume_done es ?s) (l, s)" for l
    unfolding ends_or_return w
    apply (rule ends_mono [OF both])
    subgoal for r ct
      by (cases ct; cases r; (simp only: prod.case result.case, rule go)?) (auto simp: switched_back_def dest: returned_OkD)
    done
  moreover have "ends A (is_preemptible E) Q s = Q False s" for A Q
    by (intro ends_run caller_not_preemptible [OF g call])
  ultimately show ?thesis
    by (simp add: resume_def del: ends_or_return)
qed

end
