(* ===== verification/Liveness.thy ===== *)
theory Liveness
  imports Success
begin

text \<open>
  Total correctness of \<^verbatim>\<open>resume\<close>, and its liveness: a function that needs a bounded number of steps
  and is left alone for as long completes.
\<close>

section \<open>A function left alone\<close>

text \<open>In at most \<open>n\<close> steps the function is done, whatever world it finds, without pausing itself.\<close>

primrec finishes :: "('w, 'f, 'a) user_code \<Rightarrow> nat \<Rightarrow> 'f \<Rightarrow> bool" where
  "finishes U 0 f \<longleftrightarrow> False"
| "finishes U (Suc n) f \<longleftrightarrow> (\<forall>w. case fst (U f w) of
      Works f' \<Rightarrow> finishes U n f'
    | Calls f' \<Rightarrow> finishes U n f'
    | Pauses f' \<Rightarrow> False
    | Returns v \<Rightarrow> True
    | Panics msg \<Rightarrow> True)"

lemma finishes_Suc: "finishes U n f \<Longrightarrow> finishes U (Suc n) f"
proof (induction n arbitrary: f)
  case (Suc n)
  have "case fst (U f w) of Works f' \<Rightarrow> finishes U (Suc n) f' | Calls f' \<Rightarrow> finishes U (Suc n) f'
      | Pauses f' \<Rightarrow> False | Returns v \<Rightarrow> True | Panics msg \<Rightarrow> True" for w
    using Suc.prems [unfolded finishes.simps, rule_format, of w] Suc.IH by (cases "fst (U f w)") auto
  then show ?case unfolding finishes.simps(2) [of U "Suc n"] by blast
qed simp

text \<open>A promise to be done in \<open>n\<close> steps, on top of another.\<close>

definition in_time :: "('w, 'f, 'a) user_code \<Rightarrow> nat \<Rightarrow> ('f, 'a) promise \<Rightarrow> ('f, 'a) promise" where
  "in_time U n J = (\<lambda>f. fst J f \<and> finishes U n f, snd J)"

lemma in_time_kept:
  assumes "user_keeps U J"
  shows "user_keeps U (in_time U n J)"
  unfolding user_keeps_def
proof (intro allI impI)
  fix f w assume f: "fst (in_time U n J) f"
  then obtain m where m: "n = Suc m" "finishes U (Suc m) f" by (cases n) (auto simp: in_time_def)
  from m(2) have "case fst (U f w) of Works f' \<Rightarrow> finishes U m f' | Calls f' \<Rightarrow> finishes U m f'
      | Pauses f' \<Rightarrow> False | Returns v \<Rightarrow> True | Panics msg \<Rightarrow> True" by simp
  moreover have "fst J f" using f by (simp add: in_time_def)
  ultimately show "case fst (U f w) of Works f' \<Rightarrow> fst (in_time U n J) f' | Calls f' \<Rightarrow> fst (in_time U n J) f'
    | Pauses f' \<Rightarrow> fst (in_time U n J) f' | Returns v \<Rightarrow> snd (in_time U n J) (Ok v)
    | Panics msg \<Rightarrow> snd (in_time U n J) (Err msg)"
    using assms [unfolded user_keeps_def, rule_format, of f w] m(1)
    by (cases "fst (U f w)") (auto simp: in_time_def finishes_Suc simp del: finishes.simps)
qed

section \<open>Without signals it gets to the end\<close>

lemma quiet_enabled: "pending E s = {} \<Longrightarrow> enabled E Steps c (world s)"
  by (simp add: interrupted_def)

lemma quiet_leaving:
  assumes "run_doc E U J" and "in_function E J no a k (Leaving fr) s" and "pending E s = {}"
  shows "fst (execute E U (Steps # es) (Leaving fr) s) = Val ()"
proof -
  have en: "enabled E Steps (Leaving fr) (world s)" using assms(3) by (rule quiet_enabled)
  obtain r t where run: "schedule_exit E fr s = (r, t)" by fastforce
  have "goes_on E J no a k (Leaving fr) s (thread_event E U Steps (Leaving fr) s)"
    by (rule thread_event_goes_on [OF assms(1,2) en])
  with run have "r = Val ()" by (cases r) (auto simp: comp_simps goes_on_def)
  with run en show ?thesis by (simp add: comp_simps)
qed

lemma quiet_step:
  assumes "run_doc E U J" and "in_function E J no a k c s" and "pending E s = {}"
    and "thread_event E U Steps c s = (Val (At c'), t)"
  shows "in_function E J no a k c' t" and "execute E U (Steps # es) c s = execute E U es c' t"
  using thread_event_goes_on [OF assms(1,2) quiet_enabled [OF assms(3)]] assms(3,4)
  by (auto simp: goes_on_def comp_simps interrupted_def)

lemma quiet_done:
  assumes "run_doc E U J" and "in_function E J no a k (Running fr f) s" and "pending E s = {}"
    and "U f (world s) = (op, w)" and "op = Returns v \<and> r = Ok v \<or> op = Panics msg \<and> r = Err msg"
  shows "fst (execute E U (Steps # Steps # es) (Running fr f) s) = Val ()"
proof -
  let ?t = "s\<lparr>world := w, closures := (closures s)(fr_fun fr := Return r)\<rparr>"
  have ev: "thread_event E U Steps (Running fr f) s = (Val (At (Leaving fr)), ?t)"
    using assms(4,5) by (auto simp: user_step_def comp_simps function_done_def set_closure_def)
  have "sets_errno E (world s) (snd (U f (world s)))" using run_docD(5) [OF assms(1)] by (simp add: user_doc_def)
  then have "pending E ?t = {}" using assms(3,4) by (auto simp: sets_errno_def)
  from quiet_leaving [OF assms(1) quiet_step(1) [OF assms(1-3) ev] this] quiet_step(2) [OF assms(1-3) ev]
  show ?thesis by simp
qed

lemma quiet_works:
  assumes "run_doc E U J" and "in_function E J no a k (Running fr f) s" and "pending E s = {}"
    and "U f (world s) = (Works f', w)"
  obtains t where "in_function E J no a k (Running fr f') t" and "pending E t = {}"
    and "\<And>es. execute E U (Steps # es) (Running fr f) s = execute E U es (Running fr f') t"
proof -
  have ev: "thread_event E U Steps (Running fr f) s = (Val (At (Running fr f')), s\<lparr>world := w\<rparr>)"
    using assms(4) by (simp add: user_step_def comp_simps)
  have "sets_errno E (world s) (snd (U f (world s)))" using run_docD(5) [OF assms(1)] by (simp add: user_doc_def)
  then have "pending E (s\<lparr>world := w\<rparr>) = {}" using assms(3,4) by (auto simp: sets_errno_def)
  then show ?thesis by (rule that [OF quiet_step(1) [OF assms(1-3) ev] _ quiet_step(2) [OF assms(1-3) ev]])
qed

lemma quiet_calls:
  assumes doc: "run_doc E U J" and inv: "in_function E J no a k (Running fr f) s" and "pending E s = {}"
    and "U f (world s) = (Calls f', w)"
  obtains t where "in_function E J no a k (Running fr f') t" and "pending E t = {}"
    and "\<And>es. execute E U (Steps # Steps # es) (Running fr f) s = execute E U es (Running fr f') t"
proof -
  note laws = preempt_laws [OF run_docD(1) [OF doc]]
  let ?s = "s\<lparr>world := group_thread_set E (group_SHARED E) w\<rparr>"
  have ev: "thread_event E U Steps (Running fr f) s = (Val (At (In_library fr f')), ?s)"
    using assms(4) by (simp add: user_step_def comp_simps)
  note i = quiet_step(1) [OF doc inv assms(3) ev]
  have "sets_errno E (world s) (snd (U f (world s)))" using run_docD(5) [OF doc] by (simp add: user_doc_def)
  then have p: "pending E ?s = {}" using assms(3,4) by (auto simp: sets_errno_def laws)
  have nd: "\<not> tls_DEFERRED (ptls ?s a)" using inv by (simp add: in_function_def)
  obtain w' e where r: "library_returns E fr ?s =
      (Val (), ?s\<lparr>world := w', ptls := (ptls ?s)(a := (ptls ?s a)\<lparr>tls_DEFERRED := False\<rparr>)\<rparr>)"
    and v: "view E w' = (view E (world ?s))\<lparr>v_group := fr_group fr, v_mask := v_mask (view E (world ?s)) - raised (ptls ?s a) no,
      v_pending := v_pending (view E (world ?s)) \<union> raised (ptls ?s a) no, v_errno := e\<rparr>"
    by (rule library_returns_run [OF run_docD(1) [OF doc], of ?s a no fr]) (use i in \<open>simp_all add: in_function_def\<close>)
  let ?t = "?s\<lparr>world := w', ptls := (ptls ?s)(a := (ptls ?s a)\<lparr>tls_DEFERRED := False\<rparr>)\<rparr>"
  have ev2: "thread_event E U Steps (In_library fr f') ?s = (Val (At (Running fr f')), ?t)"
    using r by (simp add: comp_simps)
  have "pending E ?t = {}" using p nd by (simp add: v raised_def)
  then show ?thesis
    using quiet_step(2) [OF doc inv assms(3) ev] quiet_step(2) [OF doc i p ev2]
    by (intro that [OF quiet_step(1) [OF doc i p ev2]]) auto
qed

lemma quiet_running:
  assumes doc: "run_doc E U J"
  shows "finishes U n f \<Longrightarrow> in_function E J no a k (Running fr f) s \<Longrightarrow> pending E s = {} \<Longrightarrow> 2 * n \<le> m \<Longrightarrow>
    fst (execute E U (replicate m Steps) (Running fr f) s) = Val ()"
proof (induction n arbitrary: f s m)
  case (Suc n)
  obtain m' where m: "m = Suc (Suc m')" "2 * n \<le> m'" using Suc.prems(4) by (cases m; cases "m - 1") auto
  obtain op w where op: "U f (world s) = (op, w)" by fastforce
  have fin: "case op of Works f' \<Rightarrow> finishes U n f' | Calls f' \<Rightarrow> finishes U n f' | Pauses f' \<Rightarrow> False
      | Returns v \<Rightarrow> True | Panics msg \<Rightarrow> True"
    using Suc.prems(1) [unfolded finishes.simps, rule_format, of "world s"] op by simp
  show ?case
  proof (cases op)
    case (Works f')
    obtain t where t: "in_function E J no a k (Running fr f') t" "pending E t = {}"
      "\<And>es. execute E U (Steps # es) (Running fr f) s = execute E U es (Running fr f') t"
      using quiet_works [OF doc Suc.prems(2,3)] op Works by blast
    have "fst (execute E U (replicate (Suc m') Steps) (Running fr f') t) = Val ()"
      using fin Works m by (intro Suc.IH t) simp_all
    then show ?thesis using m t(3) [of "replicate (Suc m') Steps"] by simp
  next
    case (Calls f')
    obtain t where t: "in_function E J no a k (Running fr f') t" "pending E t = {}"
      "\<And>es. execute E U (Steps # Steps # es) (Running fr f) s = execute E U es (Running fr f') t"
      using quiet_calls [OF doc Suc.prems(2,3)] op Calls by blast
    have "fst (execute E U (replicate m' Steps) (Running fr f') t) = Val ()"
      using fin Calls m by (intro Suc.IH t) simp_all
    then show ?thesis using m t(3) [of "replicate m' Steps"] by simp
  qed (use fin op m quiet_done [OF doc Suc.prems(2,3)] in \<open>auto simp del: execute.simps\<close>)
qed simp

text \<open>Wherever \<^verbatim>\<open>resume\<close> enters the function, \<open>2 n + 1\<close> steps take it to its end.\<close>

lemma quiet_execution:
  assumes doc: "run_doc E U J" and inv: "in_function E J no a k c s" and "\<not> in_library c" and "pending E s = {}"
    and fin: "\<And>f. fst J f \<Longrightarrow> finishes U n f" and m: "2 * n < m"
  shows "fst (execute E U (replicate m Steps) c s) = Val ()"
proof -
  obtain m' where m': "m = Suc m'" "2 * n \<le> m'" using m by (cases m) auto
  show ?thesis
  proof (cases c)
    case (Entering fr)
    with inv obtain f where f: "closures s (fr_fun fr) = Function f" "fst J f" by (auto simp: in_function_def)
    let ?t = "s\<lparr>closures := (closures s)(fr_fun fr := Empty)\<rparr>"
    have ev: "thread_event E U Steps c s = (Val (At (Running fr f)), ?t)"
      using f Entering by (simp add: closure_call_def completion_take_def set_closure_def comp_simps)
    have "fst (execute E U (replicate m' Steps) (Running fr f) ?t) = Val ()"
      using assms(4) m' by (intro quiet_running [OF doc fin [OF f(2)] quiet_step(1) [OF doc inv assms(4) ev]]) simp_all
    then show ?thesis using m' quiet_step(2) [OF doc inv assms(4) ev] by simp
  next
    case (Running fr f)
    with inv have "finishes U n f" by (auto simp: in_function_def intro: fin)
    then show ?thesis
      unfolding Running using m by (intro quiet_running [OF doc _ inv [unfolded Running] assms(4)]) auto
  next
    case (Leaving fr)
    with quiet_leaving [OF doc _ assms(4)] inv m' show ?thesis by (simp del: execute.simps)
  qed (use assms(3) in simp)
qed

section \<open>Two functions on the machine\<close>

definition m_program :: "instruction list" where
  "m_program = [Compute 500, Give 42]"

definition m_other :: "instruction list" where
  "m_other = [Call, Yield, Give 7]"

definition m_promise :: "(instruction list, nat) promise" where
  "m_promise = (\<lambda>is. is = m_program \<or> is = [Give 42], \<lambda>r. r = Ok 42)"

definition m_second :: "'f mcontext continuation" where
  "m_second = \<lparr>functional = 1, stateful = task_default, cont_group = \<lparr>reusable_value = Some 2\<rparr>,
     cont_tls = \<lparr>reusable_value = Some (Some \<lparr>tcb_fs = Some (Mut 0x201000)\<rparr>)\<rparr>\<rparr>"

definition m_process :: "(machine, instruction list, nat) process_state" where
  "m_process = (boot m_start)\<lparr>GROUPS := Some (free_pool []), LOCALSTORES := Some (free_pool []),
     closures := (\<lambda>_. Empty)(0 := Function m_program, 1 := Function m_other)\<rparr>"

lemma m_run_doc: "user_keeps m_user J \<Longrightarrow> run_doc (m_platform debug) m_user J"
  by (simp add: run_doc_def m_preempt_doc m_docs m_clock_doc m_user_doc)

lemma m_promise_kept: "user_keeps m_user m_promise"
  by (auto simp: user_keeps_def m_promise_def m_program_def)

lemma m_caller_ok: "caller_ok (m_platform debug) 0x100000 m_process"
  by (simp add: caller_ok_def m_process_def boot_def m_start_def signalers_wf_def preempt_tls_default_def)

lemma m_conts_ok:
  "fst J m_program \<Longrightarrow> cont_ok (m_platform debug) J 0x200000 1 m_fresh m_process"
  "fst J m_other \<Longrightarrow> cont_ok (m_platform debug) J 0x201000 2 m_second m_process"
  by (simp_all add: cont_ok_def m_fresh_def m_second_def m_process_def boot_def idle_block_def preempt_tls_default_def
      linger_tls_default_def cont_state_def task_default_def m_group_limit_def)

lemma m_succeeds: "platform_succeeds (m_platform debug)"
  by (simp add: platform_succeeds_def setup_succeeds_def m_sigaction_def)

lemma m_unlimited: "budget_fits L u64_MAX"
  by (simp add: budget_fits_def unat_u64_MAX)

lemma m_pools_ready: "resumable m_fresh m_process" "thread_ready me m_process" "v_pending (view (m_platform debug) (world m_process)) = {}"
  by (simp_all add: resumable_def thread_ready_def m_process_def boot_def m_fresh_def task_full_def task_default_def
      pools_usable_def signals_left_def m_start_def)

lemma m_program_finishes: "finishes m_user 2 m_program"
  by (simp add: numeral_2_eq_2 m_program_def)

section \<open>Resuming\<close>

lemma resume_total:
  assumes doc: "run_doc E U J" "setup_doc E" "platform_succeeds E" and call: "caller_ok E me s"
    and c: "cont_ok E J a g c s" "a \<noteq> me" and us: "budget_fits E us" and rd: "resumable c s" "thread_ready me s"
    and run: "resume E U es us (Continuation c, s) = (r, (l, t))"
  shows "r = Val (Ok ()) \<and> resume_post E J me a g s (functional c) l t \<and> thread_ready me t \<and>
      (\<forall>c'. l = Continuation c' \<longrightarrow> resumable c' t \<and> \<not> undisturbed es) \<or>
    (\<exists>e. r = Fail e \<and> own_failure J (starved E U J es a s) e)"
proof (cases r)
  case (Val x)
  have d: "x = Ok ()" "pools_kept (s\<lparr>HOOK_INIT := Once_Done\<rparr>) t" "\<And>c'. l = Continuation c' \<Longrightarrow> task_full (stateful c') \<and> \<not> undisturbed es"
    using resume_ends [OF doc call c us rd, of es] run Val by (auto simp: ends_def resume_done_def)
  have p: "resume_post E J me a g s (functional c) l t"
    using wp_Val [OF resume_wp [OF doc(1,2) call c]] run Val d(1) by auto
  then have "thread_ready me t" using d(2) by (simp add: thread_ready_def resume_post_def pools_kept_def)
  with d p Val show ?thesis by (auto simp: resumable_def pools_kept_def)
next
  case (Fail e)
  then show ?thesis using resume_ends [OF doc call c us rd, of es] run by (simp add: ends_def)
qed

text \<open>
  C3.  \<^verbatim>\<open>resume\<close> succeeds.  On a platform whose calls succeed, with usable pools, a signal for the thread
  and a budget that fits the clock, \<^verbatim>\<open>resume\<close> reports success, fulfils its contract, and leaves behind
  everything the next call needs; the only other outcomes are that the events have ended while the
  function was running, or that the function itself panicked.
\<close>

theorem resume_succeeds:
  assumes "run_doc E U J" and "setup_doc E" and "platform_succeeds E" and "caller_ok E me s"
    and "cont_ok E J a g c s" and "a \<noteq> me" and "budget_fits E us" and "resumable c s" and "thread_ready me s"
    and "resume E U es us (Continuation c, s) = (r, (l, t))"
  shows "r = Val (Ok ()) \<and> resume_post E J me a g s (functional c) l t \<and> thread_ready me t \<and>
      (\<forall>c'. l = Continuation c' \<longrightarrow> resumable c' t) \<or>
    r = Fail Unfinished \<or> (\<exists>msg. r = Fail (Panicked msg) \<and> snd J (Err msg))"
  using resume_total [OF assms] by (auto simp: own_failure_def starved_def)

theorem resume_succeeds_witness:
  "\<exists>r l t. resume m_debug m_user [Steps, Steps, Expires User1, Steps] u64_MAX (Continuation m_fresh, m_process) = (r, (l, t)) \<and>
    (r = Val (Ok ()) \<and> resume_post m_debug m_promise 0x100000 0x200000 1 m_process 0 l t \<or> r = Fail Unfinished)"
proof -
  obtain r l t where run: "resume m_debug m_user [Steps, Steps, Expires User1, Steps] u64_MAX (Continuation m_fresh, m_process) = (r, (l, t))"
    by (metis prod.collapse)
  have "fst m_promise m_program" by (simp add: m_promise_def)
  from resume_succeeds [OF m_run_doc [OF m_promise_kept] m_setup_doc m_succeeds m_caller_ok m_conts_ok(1) [OF this] _
      m_unlimited m_pools_ready(1,2) run]
  show ?thesis using run by (auto simp: m_promise_def m_fresh_def)
qed

text \<open>Left alone, a function that is in time comes to its end.\<close>

lemma resume_quiet:
  assumes doc: "run_doc E U J" "setup_doc E" "platform_succeeds E" "caller_ok E me s"
    and c: "cont_ok E J a g c s" "a \<noteq> me" "budget_fits E us" "resumable c s" "thread_ready me s"
    and quiet: "v_pending (view E (world s)) = {}" "2 * n < m" and fin: "\<And>f. fst J f \<Longrightarrow> finishes U n f"
    and run: "resume E U (replicate m Steps) us (Continuation c, s) = (r, (l, t))"
  shows "r = Val (Ok ()) \<and> (\<exists>v. l = Completion v \<and> snd J (Ok v)) \<or> (\<exists>msg. r = Fail (Panicked msg) \<and> snd J (Err msg))"
proof -
  have "\<not> starved E U J (replicate m Steps) a s e" for e
    using quiet_execution [OF doc(1) _ _ _ fin quiet(2)] quiet(1) by (fastforce simp: starved_def)
  moreover have "undisturbed (replicate m Steps)" by (simp add: undisturbed_def)
  ultimately show ?thesis
    using resume_total [OF doc c run] by (cases l) (auto simp: own_failure_def resume_post_def)
qed

text \<open>
  C4.  A function left alone completes.  If it needs at most \<open>n\<close> steps, counting a call of a library as
  one, and no signal is pending or becomes pending, then \<open>2 n + 1\<close> steps of the thread bring
  \<^verbatim>\<open>resume\<close> to its end, and the function has completed with a value it promised, or it has panicked and
  \<^verbatim>\<open>resume\<close> panics alike.
\<close>

theorem resume_completes:
  assumes "run_doc E U J" and "setup_doc E" and "platform_succeeds E" and "caller_ok E me s"
    and "cont_ok E (in_time U n J) a g c s" and "a \<noteq> me" and "budget_fits E us" and "resumable c s" and "thread_ready me s"
    and "v_pending (view E (world s)) = {}" and "2 * n < m"
    and "resume E U (replicate m Steps) us (Continuation c, s) = (r, (l, t))"
  shows "r = Val (Ok ()) \<and> (\<exists>v. l = Completion v \<and> snd J (Ok v)) \<or> (\<exists>msg. r = Fail (Panicked msg) \<and> snd J (Err msg))"
proof -
  have doc: "run_doc E U (in_time U n J)" using assms(1) by (simp add: run_doc_def in_time_kept)
  have "fst (in_time U n J) f \<Longrightarrow> finishes U n f" for f by (simp add: in_time_def)
  from resume_quiet [OF doc assms(2-11) this assms(12)] show ?thesis by (simp add: in_time_def)
qed

theorem resume_completes_witness:
  "\<exists>t. resume m_debug m_user (replicate 5 Steps) u64_MAX (Continuation m_fresh, m_process) = (Val (Ok ()), (Completion 42, t))"
proof -
  obtain r l t where run: "resume m_debug m_user (replicate 5 Steps) u64_MAX (Continuation m_fresh, m_process) = (r, (l, t))"
    by (metis prod.collapse)
  have "fst (in_time m_user 2 m_promise) m_program"
    using m_program_finishes by (simp add: in_time_def m_promise_def)
  from resume_completes [OF m_run_doc [OF m_promise_kept] m_setup_doc m_succeeds m_caller_ok m_conts_ok(1) [OF this] _
      m_unlimited m_pools_ready _ run]
  show ?thesis using run by (auto simp: m_promise_def)
qed

text \<open>What is left of a function that has finished: its value or its panic, and everything it held in the pools.\<close>

lemma resume_finished_run:
  assumes doc: "group_doc E" and call: "caller_ok E me s" and c: "cont_ok E J a g c s"
    and rc: "resume_continuation E U es us (c, s) = (Val (Ok True), (c', u))"
    and res: "resumed E J me a g c s True c' u" "cont_tls c' = cont_tls c" and q: "closures u (functional c) = Return q"
    and p: "GROUPS u = Some (free_pool gs)" "LOCALSTORES u = Some (free_pool bs)"
  shows "resume E U es us (Continuation c, s) = (case q of Ok v \<Rightarrow> Val (Ok ()) | Err msg \<Rightarrow> Fail (Panicked msg),
    (case q of Ok v \<Rightarrow> Completion v | Err _ \<Rightarrow> Poison,
     released c' g (Some \<lparr>tcb_fs = Some (Mut a)\<rparr>) gs bs ks (u\<lparr>closures := (closures u)(functional c := Empty)\<rparr>)))"
proof -
  let ?u = "u\<lparr>closures := (closures u)(functional c := Empty)\<rparr>"
  have "holds_all c' g (Some \<lparr>tcb_fs = Some (Mut a)\<rparr>)" using res c by (simp add: holds_all_def resumed_def cont_ok_def)
  from drop_continuation_run [OF doc _ this, of ?u gs bs ks] p res(1)
  have "drop_continuation E c' ?u = (Val (), released c' g (Some \<lparr>tcb_fs = Some (Mut a)\<rparr>) gs bs ks ?u)"
    by (simp add: resumed_def)
  with caller_not_preemptible [OF doc call] show ?thesis
    using rc q by (simp add: resume_def comp_simps elsewhere_def closure_retrieve_def completion_take_def set_closure_def
        assign_def drop_linger_def split: result.split)
qed

text \<open>
  C9.  A panic is passed on and leaves nothing behind.  In the situation of \<open>resume_succeeds\<close>, let \<^verbatim>\<open>resume\<close> panic.  Then
  the function panicked, and with that payload; its \<^verbatim>\<open>Linger\<close> is poisoned; the thread is back in the shared libset with
  its own thread pointer; nothing of any other function has changed; the closure is gone, the libset and the
  thread-control block are back in their pools, and the block is idle.
\<close>

theorem panic_poisons:
  assumes "run_doc E U J" and "setup_doc E" and "platform_succeeds E" and "caller_ok E me s"
    and "cont_ok E J a g c s" and "a \<noteq> me" and "budget_fits E us" and "resumable c s" and "thread_ready me s"
    and "resume E U es us (Continuation c, s) = (Fail (Panicked msg), (l, t))"
  shows "snd J (Err msg) \<and> l = Poison \<and> caller_ok E me t \<and> unchanged_besides a (functional c) s t \<and> idle_block a t \<and>
    closures t (functional c) = Empty \<and> (\<exists>gs. GROUPS t = Some (free_pool (gs @ [g]))) \<and>
    (\<exists>bs. LOCALSTORES t = Some (free_pool (bs @ [Some \<lparr>tcb_fs = Some (Mut a)\<rparr>])))"
proof -
  note doc = preempt_docD(1) [OF run_docD(1) [OF assms(1)]]
  note p = caller_not_preemptible [OF doc assms(4)]
  obtain q c' u where rc: "resume_continuation E U es us (c, s) = (q, (c', u))" by (metis prod.collapse)
  note ends = resume_continuation_ends [OF assms(1-9) refl, of es, unfolded ends_def rc]
  with assms(10) p rc have q: "q = Val (Ok True)"
    by (cases q) (auto simp: resume_def comp_simps elsewhere_def dest: starved_unfinished split: result.splits if_splits)
  obtain gs bs where pl: "GROUPS u = Some (free_pool gs)" "LOCALSTORES u = Some (free_pool bs)"
    using ends q by (auto simp: switched_back_def returned_def pools_kept_def pools_usable_def)
  note res = wp_Val [OF resume_continuation_wp [OF assms(1,2,4-6)] rc [unfolded q], simplified]
  then obtain v where v: "closures u (functional c) = Return v" "snd J v" by (auto simp: resumed_def)
  from resume_finished_run [OF doc assms(4,5) rc [unfolded q] _ _ v(1) pl, where ks = "[]"] res assms(5,10) v(2)
  have r: "l = Poison" "snd J (Err msg)" "closures t (functional c) = Empty" "GROUPS t = Some (free_pool (gs @ [g]))"
      "LOCALSTORES t = Some (free_pool (bs @ [Some \<lparr>tcb_fs = Some (Mut a)\<rparr>]))"
    by (cases v; auto simp: released_def resumed_def)+
  with resume_poison_post [OF assms(1,2,4-6) assms(10) [unfolded r(1)]] show ?thesis by blast
qed

text \<open>A function on the machine that panics at once.\<close>

definition m_faulty :: "(machine, instruction list, nat) process_state" where
  "m_faulty = m_process\<lparr>closures := (\<lambda>_. Empty)(0 := Function [Fault])\<rparr>"

theorem panic_poisons_witness:
  "\<exists>t. resume m_debug m_user (replicate 3 Steps) u64_MAX (Continuation m_fresh, m_faulty) = (Fail (Panicked ''fault''), (Poison, t)) \<and>
    caller_ok m_debug 0x100000 t \<and> (\<exists>gs. GROUPS t = Some (free_pool (gs @ [1])))"
proof -
  let ?J = "in_time m_user 1 (\<lambda>is. is = [Fault], \<lambda>r. r = Err ''fault'')"
  obtain r l t where run: "resume m_debug m_user (replicate 3 Steps) u64_MAX (Continuation m_fresh, m_faulty) = (r, (l, t))"
    by (metis prod.collapse)
  have doc: "run_doc m_debug m_user ?J" by (rule m_run_doc [OF in_time_kept]) (simp add: user_keeps_def)
  have call: "caller_ok m_debug 0x100000 m_faulty" using m_caller_ok by (simp add: caller_ok_def m_faulty_def)
  have ok: "cont_ok m_debug ?J 0x200000 1 m_fresh m_faulty"
    by (simp add: cont_ok_def m_fresh_def m_faulty_def m_process_def boot_def idle_block_def preempt_tls_default_def
        linger_tls_default_def cont_state_def task_default_def m_group_limit_def in_time_def)
  have rd: "resumable m_fresh m_faulty" "thread_ready 0x100000 m_faulty" "v_pending (view m_debug (world m_faulty)) = {}"
    using m_pools_ready
    by (simp_all add: m_faulty_def resumable_def thread_ready_def pools_usable_def stacks_usable_def signals_left_def)
  have r: "r = Fail (Panicked ''fault'')"
    using resume_quiet [OF doc m_setup_doc m_succeeds call ok _ m_unlimited rd _ _ run, of 1] by (auto simp: in_time_def)
  from panic_poisons [OF doc m_setup_doc m_succeeds call ok _ m_unlimited rd(1,2) run [unfolded r]] run r
  show ?thesis by auto
qed

end
