(* ===== verification/Launch.thy ===== *)
theory Launch
  imports Liveness
begin

text \<open>
  What \<^verbatim>\<open>launch\<close> does: it equips a function with a libset and a thread-control block, and
  from there on it is \<^verbatim>\<open>resume\<close>.
\<close>

section \<open>Equipping a function\<close>

text \<open>The continuation of a function just launched.\<close>

definition launched :: "nat \<Rightarrow> group \<Rightarrow> usize \<Rightarrow> 'm continuation" where
  "launched b g a = \<lparr>functional = b, stateful = task_default, cont_group = \<lparr>reusable_value = Some g\<rparr>,
     cont_tls = \<lparr>reusable_value = Some (Some \<lparr>tcb_fs = Some (Mut a)\<rparr>)\<rparr>\<rparr>"

text \<open>The pools have been used before, and hold a libset and a block.\<close>

definition stocked :: "group list \<Rightarrow> group \<Rightarrow> tcb option list \<Rightarrow> usize \<Rightarrow> ('w, 's) statics_scheme \<Rightarrow> bool" where
  "stocked gs g bs a s \<longleftrightarrow> GROUPS_INIT s = Once_Done \<and> GROUPS s = Some (free_pool (gs @ [g])) \<and>
     LOCALSTORES_INIT s = Once_Done \<and> LOCALSTORES s = Some (free_pool (bs @ [Some \<lparr>tcb_fs = Some (Mut a)\<rparr>]))"

definition launched_state :: "'f \<Rightarrow> group list \<Rightarrow> tcb option list \<Rightarrow> ('w, 'm, 'f, 'a, 's) lingering_scheme \<Rightarrow>
    ('w, 'm, 'f, 'a, 's) lingering_scheme" where
  "launched_state f gs bs s = s\<lparr>heap_next := Suc (heap_next s), closures := (closures s)(heap_next s := Function f),
     GROUPS := Some (free_pool gs), LOCALSTORES := Some (free_pool bs)\<rparr>"

lemma assign_group_stocked:
  assumes "GROUPS_INIT s = Once_Done" and "GROUPS s = Some (free_pool (gs @ [g]))"
  shows "assign_group G s = (Val (Ok \<lparr>reusable_value = Some g\<rparr>), s\<lparr>GROUPS := Some (free_pool gs)\<rparr>)"
  using assms
  by (simp add: assign_group_def comp_simps call_once_def groups_once_def try_from_def inner_of_def place_fields
      holding_def mutex_fields mutex_ready_def)

lemma alloc_localstore_stocked:
  assumes "LOCALSTORES_INIT s = Once_Done" and "LOCALSTORES s = Some (free_pool (bs @ [b]))"
  shows "alloc_localstore G s = (Val \<lparr>reusable_value = Some b\<rparr>, s\<lparr>LOCALSTORES := Some (free_pool bs)\<rparr>)"
  using assms
  by (simp add: alloc_localstore_def comp_simps call_once_def localstores_once_def try_from_def inner_of_def place_fields
      holding_def mutex_fields mutex_ready_def)

lemma launch_linger_run:
  assumes "stocked gs g bs a s"
  shows "launch_linger G f s = (Val (Continuation (launched (heap_next s) g a)), launched_state f gs bs s)"
proof -
  let ?s = "s\<lparr>heap_next := Suc (heap_next s), closures := (closures s)(heap_next s := Function f)\<rparr>"
  let ?t = "?s\<lparr>GROUPS := Some (free_pool gs)\<rparr>"
  have c: "new_closure f s = (Val (heap_next s), ?s)"
    by (simp add: new_closure_def comp_simps set_closure_def)
  have g: "assign_group G ?s = (Val (Ok \<lparr>reusable_value = Some g\<rparr>), ?t)"
    using assms by (intro assign_group_stocked) (simp_all add: stocked_def)
  have b: "alloc_localstore G ?t = (Val \<lparr>reusable_value = Some (Some \<lparr>tcb_fs = Some (Mut a)\<rparr>)\<rparr>, ?t\<lparr>LOCALSTORES := Some (free_pool bs)\<rparr>)"
    using assms by (intro alloc_localstore_stocked) (simp_all add: stocked_def)
  show ?thesis
    by (simp add: launch_linger_def bind_run c g b comp_simps on_panic_def launched_def launched_state_def)
qed

lemma launched_ok:
  assumes "idle_block a s" and "g \<noteq> group_SHARED E" and "\<And>w. group_lookup_errno_location E g w \<noteq> None" and "fst J f"
  shows "cont_ok E J a g (launched (heap_next s) g a) (launched_state f gs bs s)"
  using assms by (simp add: cont_ok_def launched_def launched_state_def idle_block_def cont_state_def task_default_def)

lemma launch_run:
  assumes "group_doc E" and "v_group (view E (world s)) = group_SHARED E" and "stocked gs g bs a s"
  shows "launch E U es f us s = (let l = Continuation (launched (heap_next s) g a); u = launched_state f gs bs s in
    if us = 0 then (Val (Ok l), u)
    else (case resume E U es us (l, u) of
         (Val (Ok _), (l, t)) \<Rightarrow> (Val (Ok l), t)
       | (Val (Err e), (l, t)) \<Rightarrow> andthen (drop_linger E l) (ret (Err e)) t
       | (Fail e, (l, t)) \<Rightarrow> on_panic (failing e) (drop_linger E l) t))"
  using assms(2)
  by (simp add: launch_def comp_simps is_preemptible_run [OF assms(1)] Let_def launch_linger_run [OF assms(3)])

section \<open>Launching\<close>

text \<open>
  C22.  A budget of zero only prepares the function.  \<^verbatim>\<open>launch\<close> takes a libset and a thread-control block
  from their pools and the closure from the heap; the function has not run, nothing else in
  the process has changed, and the continuation can be resumed.
\<close>

theorem launch_zero:
  assumes "group_doc E" and "v_group (view E (world s)) = group_SHARED E" and "stocked gs g bs a s"
    and "idle_block a s" and "g \<noteq> group_SHARED E" and "\<And>w. group_lookup_errno_location E g w \<noteq> None" and "fst J f"
  shows "\<exists>t. launch E U es f 0 s = (Val (Ok (Continuation (launched (heap_next s) g a))), t) \<and>
    cont_ok E J a g (launched (heap_next s) g a) t \<and>
    GROUPS t = Some (free_pool gs) \<and> LOCALSTORES t = Some (free_pool bs) \<and>
    closures t = (closures s)(heap_next s := Function f) \<and> world t = world s \<and> ptls t = ptls s \<and> ltls t = ltls s"
  using launch_run [OF assms(1-3), of U es f 0] launched_ok [OF assms(4-7)]
  by (simp add: Let_def launched_state_def)

text \<open>
  C8.  A launched function completes.  With the pools stocked and everything in place for \<^verbatim>\<open>resume\<close>, a
  function that does not panic, needs at most \<open>n\<close> steps and is left alone for \<open>2 n + 1\<close> steps of its
  thread has completed when \<^verbatim>\<open>launch\<close> returns, with a value it promised.
\<close>

theorem launch_completes:
  assumes "run_doc E U J" and "setup_doc E" and "platform_succeeds E" and "caller_ok E me s" and "stocked gs g bs a s"
    and "idle_block a s" and "a \<noteq> me" and "g \<noteq> group_SHARED E" and "\<And>w. group_lookup_errno_location E g w \<noteq> None"
    and "fst J f" and "finishes U n f" and "\<And>msg. \<not> snd J (Err msg)" and "us \<noteq> 0" and "budget_fits E us"
    and "pools_usable s" and "thread_ready me s" and "v_pending (view E (world s)) = {}" and "2 * n < m"
  shows "\<exists>v t. launch E U (replicate m Steps) f us s = (Val (Ok (Completion v)), t) \<and> snd J (Ok v)"
proof -
  let ?J = "in_time U n J" and ?c = "launched (heap_next s) g a" and ?s = "launched_state f gs bs s"
  obtain r l t where run: "resume E U (replicate m Steps) us (Continuation ?c, ?s) = (r, (l, t))"
    by (metis prod.collapse)
  have doc: "run_doc E U ?J" using assms(1) by (simp add: run_doc_def in_time_kept)
  have fin: "fst ?J f \<Longrightarrow> finishes U n f" for f by (simp add: in_time_def)
  have ok: "cont_ok E ?J a g ?c ?s" using assms(6,8-11) by (intro launched_ok) (simp_all add: in_time_def)
  have rd: "caller_ok E me ?s" "resumable ?c ?s" "thread_ready me ?s" "v_pending (view E (world ?s)) = {}"
    using assms(4,15-17)
    by (auto simp: launched_state_def launched_def caller_ok_def resumable_def thread_ready_def task_full_def task_default_def
        pools_usable_def stacks_usable_def signals_left_def)
  have "r = Val (Ok ()) \<and> (\<exists>v. l = Completion v \<and> snd J (Ok v))"
    using resume_quiet [OF doc assms(2,3) rd(1) ok assms(7,14) rd(2-4) assms(18) fin run] assms(12)
    by (auto simp: in_time_def)
  moreover have "v_group (view E (world s)) = group_SHARED E" using assms(4) by (simp add: caller_ok_def)
  ultimately show ?thesis
    using launch_run [OF preempt_docD(1) [OF run_docD(1) [OF assms(1)]] _ assms(5)] run assms(13) by (auto simp: Let_def)
qed

text \<open>
  C35.  There can be too many functions.  When no libset has been given back and libgotcha has no more,
  \<^verbatim>\<open>launch\<close> panics, saying that there was none, before anything runs, and drops the function; the pool is still usable.
\<close>

theorem launch_too_many:
  assumes "group_doc E" and "v_group (view E (world s)) = group_SHARED E"
    and "GROUPS_INIT s = Once_Done" and "GROUPS s = Some (free_pool [])" and "group_new E (world s) = (None, w)"
  shows "\<exists>t. launch E U es f us s = (Fail (Panicked ''launch(): too many active timed functions: None''), t) \<and>
    GROUPS t = GROUPS s \<and> LOCALSTORES t = LOCALSTORES s \<and> closures t = (closures s)(heap_next s := Empty) \<and>
    ptls t = ptls s \<and> ltls t = ltls s"
  using assms(2-5)
  by (simp add: launch_def comp_simps on_panic_def is_preemptible_run [OF assms(1)] launch_linger_def new_closure_def set_closure_def
      assign_group_def call_once_def groups_once_def try_from_def inner_of_def place_fields holding_def mutex_fields
      mutex_ready_def group_builder_def expect_ok_def debug_option_def)

section \<open>On the machine\<close>

text \<open>A process in which a function has run before: its libset and its block are back.\<close>

definition m_stocked :: "(machine, instruction list, nat) process_state" where
  "m_stocked = (boot m_start)\<lparr>GROUPS_INIT := Once_Done, GROUPS := Some (free_pool ([] @ [1])),
     LOCALSTORES_INIT := Once_Done, LOCALSTORES := Some (free_pool ([] @ [Some \<lparr>tcb_fs = Some (Mut 0x200000)\<rparr>]))\<rparr>"

lemma m_stocked_ok:
  "stocked [] 1 [] 0x200000 m_stocked" "idle_block 0x200000 m_stocked" "caller_ok (m_platform debug) 0x100000 m_stocked"
  "pools_usable m_stocked" "thread_ready 0x100000 m_stocked" "v_pending (view (m_platform debug) (world m_stocked)) = {}"
  "group_lookup_errno_location (m_platform debug) 1 w \<noteq> None" "1 \<noteq> group_SHARED (m_platform debug)"
  by (simp_all add: stocked_def m_stocked_def boot_def idle_block_def preempt_tls_default_def linger_tls_default_def
      caller_ok_def m_start_def signalers_wf_def pools_usable_def thread_ready_def signals_left_def m_group_limit_def)

theorem launch_zero_witness:
  "\<exists>t. launch m_debug m_user [] m_program 0 m_stocked = (Val (Ok (Continuation (launched 0 1 0x200000))), t) \<and>
    cont_ok m_debug m_promise 0x200000 1 (launched 0 1 0x200000) t \<and> closures t 0 = Function m_program"
proof -
  have h: "heap_next m_stocked = 0" by (simp add: m_stocked_def boot_def)
  have "v_group (view m_debug (world m_stocked)) = group_SHARED m_debug" "fst m_promise m_program"
    by (simp_all add: m_stocked_def boot_def m_start_def m_promise_def)
  from launch_zero [OF m_docs(1) this(1) m_stocked_ok(1,2,8,7) this(2), of m_user "[]"] show ?thesis
    unfolding h by auto
qed

theorem launch_completes_witness:
  "\<exists>t. launch m_debug m_user (replicate 5 Steps) m_program u64_MAX m_stocked = (Val (Ok (Completion 42)), t)"
proof -
  have "fst m_promise m_program" by (simp add: m_promise_def)
  from launch_completes [OF m_run_doc [OF m_promise_kept] m_setup_doc m_succeeds m_stocked_ok(3,1,2) _ m_stocked_ok(8,7) this
      m_program_finishes _ _ m_unlimited m_stocked_ok(4-6), where m = 5]
  show ?thesis by (auto simp: m_promise_def u64_MAX_def)
qed

definition m_crowded :: "(machine, instruction list, nat) process_state" where
  "m_crowded = (boot (m_start\<lparr>m_groups := 4\<rparr>))\<lparr>GROUPS_INIT := Once_Done, GROUPS := Some (free_pool [])\<rparr>"

theorem launch_too_many_witness:
  "\<exists>t. launch m_debug m_user [] m_program 5 m_crowded = (Fail (Panicked ''launch(): too many active timed functions: None''), t)"
proof -
  have "v_group (view m_debug (world m_crowded)) = group_SHARED m_debug" "GROUPS_INIT m_crowded = Once_Done"
    "GROUPS m_crowded = Some (free_pool [])" "group_new m_debug (world m_crowded) = (None, world m_crowded)"
    by (simp_all add: m_crowded_def boot_def m_start_def m_group_limit_def)
  from launch_too_many [OF m_docs(1) this, of m_user "[]"] show ?thesis by blast
qed

end
