(* ===== verification/Ownership.thy ===== *)
theory Ownership
  imports Footprint Launch
begin

text \<open>
  Who owns what.  A program that launches, resumes and drops functions from its start on, on any of its threads, never has
  two of them with the same libset, thread-control block, stack or closure, and all of them stay
  well-formed, as long as no call returns an error.
\<close>

section \<open>What libgotcha and the loader hand out\<close>

definition usable :: "('w, 'z) gotcha_scheme \<Rightarrow> group set" where
  "usable G = {g. g \<noteq> group_SHARED G \<and> (\<forall>w. group_lookup_errno_location G g w \<noteq> None)}"

abbreviation block_at :: "usize \<Rightarrow> tcb option" where
  "block_at a \<equiv> Some \<lparr>tcb_fs = Some (Mut a)\<rparr>"

text \<open>
  \<open>iss\<close> says which libsets and which blocks have been handed out and not taken back; a new one is
  none of these, and a new libset is complete.  Making one, or starting one afresh, does not show in the
  thread's view.
\<close>

definition issues_doc :: "('w, 'z) gotcha_scheme \<Rightarrow> ('w \<Rightarrow> group set \<times> usize set) \<Rightarrow> bool" where
  "issues_doc G iss \<longleftrightarrow>
     (\<forall>w. case group_new G w of (r, w') \<Rightarrow> (case r of
        Some g \<Rightarrow> g \<in> usable G \<and> g \<notin> fst (iss w) \<and> insert g (fst (iss w)) \<subseteq> fst (iss w') \<and> snd (iss w') = snd (iss w)
      | None \<Rightarrow> iss w' = iss w)) \<and>
     (\<forall>w. view G (snd (group_new G w)) = view G w) \<and> (\<forall>g w. view G (snd (group_renew G g w)) = view G w) \<and>
     (\<forall>w. case c_dl_allocate_tls G w of (r, w') \<Rightarrow> (case r of
        Some a \<Rightarrow> a \<notin> snd (iss w) \<and> insert a (snd (iss w)) \<subseteq> snd (iss w') \<and> fst (iss w') = fst (iss w)
      | None \<Rightarrow> iss w' = iss w))"

lemma issued_group:
  assumes "issues_doc G iss"
  shows "group_new G w = (Some g, w') \<Longrightarrow> g \<in> usable G \<and> g \<notin> fst (iss w) \<and> insert g (fst (iss w)) \<subseteq> fst (iss w') \<and> snd (iss w') = snd (iss w)"
    and "group_new G w = (None, w') \<Longrightarrow> iss w' = iss w"
    and "view G (snd (group_new G w)) = view G w" and "view G (snd (group_renew G g w)) = view G w"
  using assms unfolding issues_doc_def by (auto dest!: spec [of _ w])

lemma issued_block:
  assumes "issues_doc G iss"
  shows "c_dl_allocate_tls G w = (Some a, w') \<Longrightarrow> a \<notin> snd (iss w) \<and> insert a (snd (iss w)) \<subseteq> snd (iss w') \<and> fst (iss w') = fst (iss w)"
    and "c_dl_allocate_tls G w = (None, w') \<Longrightarrow> iss w' = iss w"
  using assms unfolding issues_doc_def by (auto dest!: spec [of _ w])

definition libset_stock :: "('w, 'z) gotcha_scheme \<Rightarrow> ('w \<Rightarrow> group set \<times> usize set) \<Rightarrow> ('w, 's) process_scheme \<Rightarrow> group set" where
  "libset_stock G iss s = usable G - fst (iss (world s))"

definition block_stock :: "('w \<Rightarrow> group set \<times> usize set) \<Rightarrow> ('w, 's) process_scheme \<Rightarrow> tcb option set" where
  "block_stock iss s = block_at ` (- snd (iss (world s)))"

lemma stock_frame:
  "libset_stock G iss (s\<lparr>GROUPS := x\<rparr>) = libset_stock G iss s" "block_stock iss (s\<lparr>LOCALSTORES := y\<rparr>) = block_stock iss s"
  by (simp_all add: libset_stock_def block_stock_def)

lemma group_builder_Val: "group_builder G s = (Val r, t) \<longleftrightarrow> group_new G (world s) = (r, world t) \<and> t = s\<lparr>world := world t\<rparr>"
  by (cases "group_new G (world s)") (auto simp: group_builder_def comp_simps)

lemma localstore_builder_Val:
  "localstore_builder G s = (Val r, t) \<Longrightarrow> \<exists>a. r = Some (block_at a) \<and> c_dl_allocate_tls G (world s) = (Some a, world t)"
  by (cases "c_dl_allocate_tls G (world s)")
    (auto simp: localstore_builder_def tcb_new_def comp_simps expect_def write_word_def split: option.splits)

interpretation libsets: fresh_pool mutex_ops mutex_ready mx_value groups_place "group_builder G"
    "libset_stock G iss" "\<lambda>_. issues_doc G iss"
  for G :: "('w, 'z) gotcha_scheme" and iss
proof unfold_locales
  fix c and s :: "('w, 's) statics_scheme"
  show "libset_stock G iss (place_put groups_place c s) = libset_stock G iss s"
    by (simp add: place_fields stock_frame)
next
  fix s v and t :: "('w, 's) statics_scheme"
  assume "issues_doc G iss" and "group_builder G s = (Val (Some v), t)"
  then show "v \<in> libset_stock G iss s \<and> libset_stock G iss t \<subseteq> libset_stock G iss s - {v}"
    by (auto simp: group_builder_Val libset_stock_def dest: issued_group(1))
next
  fix s and t :: "('w, 's) statics_scheme"
  assume "issues_doc G iss" and "group_builder G s = (Val None, t)"
  then show "libset_stock G iss t \<subseteq> libset_stock G iss s"
    by (auto simp: group_builder_Val libset_stock_def dest: issued_group(2))
qed

lemma block_builder_fresh:
  assumes "issues_doc G iss" and "localstore_builder G s = (Val r, t)"
  shows "\<exists>v. r = Some v \<and> v \<in> block_stock iss s \<and> block_stock iss t \<subseteq> block_stock iss s - {v}"
  using localstore_builder_Val [OF assms(2)] issued_block(1) [OF assms(1), of "world s" _ "world t"]
  by (fastforce simp: block_stock_def)

interpretation blocks: fresh_pool mutex_ops mutex_ready mx_value localstores_place "localstore_builder G"
    "block_stock iss" "\<lambda>_. issues_doc G iss"
  for G :: "('w, 'z) gotcha_scheme" and iss
proof unfold_locales
  fix c and s :: "('w, 's) statics_scheme"
  show "block_stock iss (place_put localstores_place c s) = block_stock iss s"
    by (simp add: place_fields stock_frame)
qed (auto dest: block_builder_fresh)

text \<open>The pool of blocks while its initializer still fills it.\<close>

interpretation first_blocks: fresh_pool mutex_ops mutex_ready mx_value local_place "elsewhere (localstore_builder G)"
    "\<lambda>(_, s). block_stock iss s" "\<lambda>_. issues_doc G iss"
  for G :: "('w, 'z) gotcha_scheme" and iss
proof unfold_locales
  fix c and s :: "tcb option list mutex \<times> ('w, 's) tcbs_scheme"
  show "(case place_put local_place c s of (_, s) \<Rightarrow> block_stock iss s) = (case s of (_, s) \<Rightarrow> block_stock iss s)"
    by (simp add: local_place_def split_beta)
qed (auto simp: elsewhere_iff dest: block_builder_fresh)

section \<open>Taking a libset\<close>

abbreviation libsets_owned :: "('w, 'z) gotcha_scheme \<Rightarrow> ('w \<Rightarrow> group set \<times> usize set) \<Rightarrow> group set \<Rightarrow> group list \<Rightarrow>
    ('w, 's) statics_scheme \<Rightarrow> bool" where
  "libsets_owned G iss \<equiv> fresh_pool.owned mutex_ready mx_value groups_place (libset_stock G iss)"

text \<open>The pool of libsets has not been used, or no libset in it, held, or to come has two owners.\<close>

definition libsets_ok :: "('w, 'z) gotcha_scheme \<Rightarrow> ('w \<Rightarrow> group set \<times> usize set) \<Rightarrow> group list \<Rightarrow> ('w, 's) statics_scheme \<Rightarrow> bool" where
  "libsets_ok G iss held s \<longleftrightarrow> (GROUPS_INIT s = Once_New \<and> held = []) \<or>
     (GROUPS_INIT s = Once_Done \<and> libsets_owned G iss (usable G) held s)"

lemma libsets_owned_cong:
  "GROUPS t = GROUPS s \<Longrightarrow> fst (iss (world t)) = fst (iss (world s)) \<Longrightarrow>
    libsets_owned G iss A held t = libsets_owned G iss A held s"
  by (simp add: libsets.owned_def groups.holds_def place_fields libset_stock_def)

lemma libsets_ok_cong:
  assumes "GROUPS t = GROUPS s" and "GROUPS_INIT t = GROUPS_INIT s" and "fst (iss (world t)) = fst (iss (world s))"
    and "mset held' = mset held"
  shows "libsets_ok G iss held' t = libsets_ok G iss held s"
proof -
  have "libsets_owned G iss (usable G) held' s = libsets_owned G iss (usable G) held s"
    by (rule libsets.owned_perm) (rule assms(4))
  moreover have "held' = [] \<longleftrightarrow> held = []" using assms(4) by (metis mset_zero_iff)
  ultimately show ?thesis
    using assms(2) libsets_owned_cong [where iss = iss and G = G, OF assms(1,3)] by (simp add: libsets_ok_def)
qed

text \<open>What taking a libset leaves alone.\<close>

definition off_groups :: "('w \<Rightarrow> 'i) \<Rightarrow> ('w, 's) statics_scheme \<Rightarrow>
    'i \<times> tcb option list mutex option \<times> once \<times> (stack list mutex option \<times> once \<times> nat) \<times> once \<times> 's" where
  "off_groups h s = (h (world s), LOCALSTORES s, LOCALSTORES_INIT s, stack_view s, GROUPS_INIT s, statics.more s)"

lemma off_groups_try_from:
  assumes "issues_doc G iss"
  shows "keeps (off_groups (\<lambda>w. (snd (iss w), view G w))) (try_from mutex_ops groups_place (group_builder G))"
proof -
  have i: "snd (iss (snd (group_new G w))) = snd (iss w)" for w
    using issued_group(1,2) [OF assms, of w] by (cases "group_new G w"; cases "fst (group_new G w)") auto
  show ?thesis
    unfolding group_builder_def
    by (intro keeps_rules keeps_prim) (simp_all add: ignores_def place_fields off_groups_def stack_view_def i issued_group(3) [OF assms])
qed

text \<open>The first use makes the pool; then the pool is asked.\<close>

lemma assign_group_asks:
  assumes "libsets_ok G iss held s" and "assign_group G s = (Val r, t)"
  obtains u where "try_from mutex_ops groups_place (group_builder G) u = (Val r, t)" and "libsets_owned G iss (usable G) held u"
    and "GROUPS_INIT u = Once_Done" and "off_groups h u = off_groups h (s\<lparr>GROUPS_INIT := Once_Done\<rparr>)"
proof -
  let ?u = "if GROUPS_INIT s = Once_New then s\<lparr>GROUPS := Some mutex_default, GROUPS_INIT := Once_Done\<rparr> else s"
  have "libsets_owned G iss (usable G) held ?u" "GROUPS_INIT ?u = Once_Done"
    using assms(1)
    by (auto simp: libsets_ok_def libsets.owned_def groups.holds_def place_fields mutex_default_def mutex_ready_def libset_stock_def)
  moreover have "try_from mutex_ops groups_place (group_builder G) ?u = (Val r, t)"
    using assms
    by (auto simp: assign_group_def comp_simps call_once_def groups_once_def libsets_ok_def expect_def
        split: once.splits option.splits)
  moreover have "off_groups h ?u = off_groups h (s\<lparr>GROUPS_INIT := Once_Done\<rparr>)"
    using calculation(2) by (auto simp: off_groups_def stack_view_def)
  ultimately show ?thesis using that by blast
qed

lemma assign_group_owned:
  assumes "issues_doc G iss" and "libsets_ok G iss held s" and "assign_group G s = (Val (Ok r), t)"
  shows "\<exists>g. r = \<lparr>reusable_value = Some g\<rparr> \<and> g \<in> usable G \<and> libsets_ok G iss (g # held) t \<and>
    off_groups (\<lambda>w. (snd (iss w), view G w)) t =
      off_groups (\<lambda>w. (snd (iss w), view G w)) (s\<lparr>GROUPS_INIT := Once_Done\<rparr>)"
proof -
  obtain u where t: "try_from mutex_ops groups_place (group_builder G) u = (Val (Ok r), t)"
    and o: "libsets_owned G iss (usable G) held u" "GROUPS_INIT u = Once_Done"
    and f: "off_groups (\<lambda>w. (snd (iss w), view G w)) u = off_groups (\<lambda>w. (snd (iss w), view G w)) (s\<lparr>GROUPS_INIT := Once_Done\<rparr>)"
    using assms(2,3) by (rule assign_group_asks)
  obtain g where g: "r = \<lparr>reusable_value = Some g\<rparr>" using libsets.try_from_holds_value [OF t] by blast
  have "libsets_owned G iss (usable G) (g # held) t"
    using libsets.owned_take [OF o(1) assms(1) t] g by simp
  moreover note keepsD [OF off_groups_try_from [OF assms(1)] t]
  ultimately show ?thesis
    using g o(2) f libsets.owned_distinct [of G iss "usable G" "g # held"]
    by (auto simp: libsets_ok_def off_groups_def stack_view_def)
qed

lemma assign_group_refused:
  assumes "issues_doc G iss" and "libsets_ok G iss held s" and "assign_group G s = (Val (Err e), t)"
  shows "libsets_ok G iss held t \<and> off_groups (\<lambda>w. (snd (iss w), view G w)) t =
      off_groups (\<lambda>w. (snd (iss w), view G w)) (s\<lparr>GROUPS_INIT := Once_Done\<rparr>)"
proof -
  obtain u where t: "try_from mutex_ops groups_place (group_builder G) u = (Val (Err e), t)"
    and o: "libsets_owned G iss (usable G) held u" "GROUPS_INIT u = Once_Done"
    and f: "off_groups (\<lambda>w. (snd (iss w), view G w)) u = off_groups (\<lambda>w. (snd (iss w), view G w)) (s\<lparr>GROUPS_INIT := Once_Done\<rparr>)"
    using assms(2,3) by (rule assign_group_asks)
  have "libsets_owned G iss (usable G) held t" using libsets.owned_take [OF o(1) assms(1) t] by simp
  moreover note keepsD [OF off_groups_try_from [OF assms(1)] t]
  ultimately show ?thesis using o(2) f by (auto simp: libsets_ok_def off_groups_def stack_view_def)
qed

section \<open>Taking a thread-control block\<close>

abbreviation blocks_owned :: "('w \<Rightarrow> group set \<times> usize set) \<Rightarrow> tcb option set \<Rightarrow> tcb option list \<Rightarrow>
    ('w, 's) statics_scheme \<Rightarrow> bool" where
  "blocks_owned iss \<equiv> fresh_pool.owned mutex_ready mx_value localstores_place (block_stock iss)"

text \<open>The same for blocks; those of the program's own threads \<open>T\<close> are none of them.\<close>

definition others :: "usize set \<Rightarrow> tcb option set" where
  "others T = block_at ` (- T)"

definition blocks_ok :: "usize set \<Rightarrow> ('w \<Rightarrow> group set \<times> usize set) \<Rightarrow> tcb option list \<Rightarrow> ('w, 's) statics_scheme \<Rightarrow> bool" where
  "blocks_ok T iss held s \<longleftrightarrow> T \<subseteq> snd (iss (world s)) \<and> ((LOCALSTORES_INIT s = Once_New \<and> held = []) \<or>
     (LOCALSTORES_INIT s = Once_Done \<and> blocks_owned iss (others T) held s))"

lemma blocks_owned_cong:
  "LOCALSTORES t = LOCALSTORES s \<Longrightarrow> snd (iss (world t)) = snd (iss (world s)) \<Longrightarrow>
    blocks_owned iss A held t = blocks_owned iss A held s"
  by (simp add: blocks.owned_def localstores.holds_def place_fields block_stock_def)

lemma blocks_ok_cong:
  assumes "LOCALSTORES t = LOCALSTORES s" and "LOCALSTORES_INIT t = LOCALSTORES_INIT s"
    and "snd (iss (world t)) = snd (iss (world s))" and "mset held' = mset held"
  shows "blocks_ok T iss held' t = blocks_ok T iss held s"
proof -
  have "blocks_owned iss (others T) held' s = blocks_owned iss (others T) held s"
    by (rule blocks.owned_perm) (rule assms(4))
  moreover have "held' = [] \<longleftrightarrow> held = []" using assms(4) by (metis mset_zero_iff)
  ultimately show ?thesis
    using assms(2,3) blocks_owned_cong [where iss = iss, OF assms(1,3)] by (simp add: blocks_ok_def)
qed

text \<open>What taking a block leaves alone.\<close>

definition off_blocks :: "('w \<Rightarrow> 'i) \<Rightarrow> ('w, 's) statics_scheme \<Rightarrow>
    'i \<times> group list mutex option \<times> once \<times> (stack list mutex option \<times> once \<times> nat) \<times> 's" where
  "off_blocks h s = (h (world s), GROUPS s, GROUPS_INIT s, stack_view s, statics.more s)"

lemma off_blocks_alloc:
  assumes "issues_doc G iss" and "prctl_doc G"
  shows "keeps (off_blocks (\<lambda>w. (fst (iss w), view G w))) (alloc_localstore G)"
proof -
  have i: "fst (iss (snd (c_dl_allocate_tls G w))) = fst (iss w)" for w
    using issued_block [OF assms(1), of w] by (cases "c_dl_allocate_tls G w"; cases "fst (c_dl_allocate_tls G w)") auto
  have b: "keeps (off_blocks (\<lambda>w. (fst (iss w), view G w))) (localstore_builder G)"
    unfolding localstore_builder_def tcb_new_def write_word_def
    by (intro keeps_rules keeps_prim keeps_modify) (simp_all add: off_blocks_def stack_view_def i prctl_laws [OF assms(2)])
  show ?thesis
    unfolding alloc_localstore_def
    by (intro keeps_rules b keeps_modify)
      (simp_all add: ignores_def place_fields localstores_once_def off_blocks_def stack_view_def)
qed

lemma first_blocks_owned:
  "fresh_pool.owned mutex_ready mx_value local_place (\<lambda>(_, s). block_stock iss s) A held (m, s) =
    blocks_owned iss A held (s\<lparr>LOCALSTORES := Some m, LOCALSTORES_INIT := i\<rparr>)"
  unfolding first_blocks.owned_def blocks.owned_def local.holds_def localstores.holds_def
  by (simp add: place_fields local_place_def block_stock_def)

lemma blocks_ok_owned:
  "LOCALSTORES_INIT s = Once_Done \<Longrightarrow> blocks_owned iss (others T) held s \<Longrightarrow> blocks_ok T iss held s"
  by (auto simp: blocks_ok_def blocks.owned_def block_stock_def others_def)

lemma localstores_init_kept:
  "keeps LOCALSTORES_INIT (try_from mutex_ops localstores_place (localstore_builder G))"
  unfolding localstore_builder_def tcb_new_def write_word_def
  by (intro keeps_rules keeps_prim keeps_modify) (simp_all add: ignores_def place_fields)

text \<open>The initializer leaves a pool in which nothing is owned twice.\<close>

lemma localstores_once_owned:
  assumes "issues_doc G iss" and "T \<subseteq> snd (iss (world s))" and "LOCALSTORES_INIT s = Once_New"
    and "call_once localstores_once
       (bind (with_local mutex_default (prealloc mutex_ops local_place (elsewhere (localstore_builder G)) n))
         (\<lambda>(r, localstores). andthen (expect_ok msg dbg r) (modify (\<lambda>s. s\<lparr>LOCALSTORES := Some localstores\<rparr>)))) s = (Val (), t)"
  shows "LOCALSTORES_INIT t = Once_Done \<and> blocks_owned iss (others T) [] t"
proof -
  obtain r m u where p: "prealloc mutex_ops local_place (elsewhere (localstore_builder G)) n (mutex_default, s) = (Val r, (m, u))"
    and t: "t = u\<lparr>LOCALSTORES := Some m, LOCALSTORES_INIT := Once_Done\<rparr>"
    using assms(3,4)
    by (cases "prealloc mutex_ops local_place (elsewhere (localstore_builder G)) n (mutex_default, s)")
      (auto simp: call_once_def localstores_once_def comp_simps with_local_def expect_ok_def
        split: prod.splits outcome.splits failure.splits result.splits)
  have "blocks_owned iss (others T) [] (s\<lparr>LOCALSTORES := Some mutex_default, LOCALSTORES_INIT := Once_Done\<rparr>)"
    using assms(2)
    by (auto simp: blocks.owned_def localstores.holds_def place_fields mutex_default_def mutex_ready_def block_stock_def others_def)
  from first_blocks.owned_prealloc [OF assms(1) this [folded first_blocks_owned] p]
  show ?thesis using t by (simp add: first_blocks_owned [where i = Once_Done])
qed

lemma alloc_localstore_owned:
  assumes "issues_doc G iss" and "blocks_ok T iss held s" and "alloc_localstore G s = (Val r, t)"
  shows "\<exists>a. r = \<lparr>reusable_value = Some (block_at a)\<rparr> \<and> a \<notin> T \<and> blocks_ok T iss (block_at a # held) t"
proof -
  obtain u where o: "LOCALSTORES_INIT u = Once_Done" "blocks_owned iss (others T) held u"
    and t: "try_from mutex_ops localstores_place (localstore_builder G) u = (Val (Ok r), t)"
  proof (cases "LOCALSTORES_INIT s = Once_New")
    case True
    from assms(3) obtain u where once: "call_once localstores_once
       (bind (with_local mutex_default (prealloc mutex_ops local_place (elsewhere (localstore_builder G)) (group_limit G)))
         (\<lambda>(r, localstores). andthen (expect_ok ''libinger: TCB allocator lock was poisoned during init'' (debug_option debug_poison_error) r)
           (modify (\<lambda>s. s\<lparr>LOCALSTORES := Some localstores\<rparr>)))) s = (Val (), u)"
      and u: "try_from mutex_ops localstores_place (localstore_builder G) u = (Val (Ok r), t)"
      by (auto simp: alloc_localstore_def Val_iffs bind_Val_iff)
    with localstores_once_owned [OF assms(1) _ True once, of T] assms(2) True that show ?thesis
      by (auto simp: blocks_ok_def)
  next
    case False
    with assms(2,3) that show ?thesis
      by (auto simp: blocks_ok_def alloc_localstore_def Val_iffs bind_Val_iff call_once_def localstores_once_def)
  qed
  obtain b where b: "r = \<lparr>reusable_value = Some b\<rparr>" using blocks.try_from_holds_value [OF t] by blast
  have w: "blocks_owned iss (others T) (b # held) t"
    using blocks.owned_take [OF o(2) assms(1) t] b by simp
  then obtain a where "b = block_at a" "a \<notin> T" using blocks.owned_distinct [OF w] by (auto simp: others_def)
  moreover have "LOCALSTORES_INIT t = Once_Done"
    using keepsD [OF localstores_init_kept t] o(1) by simp
  ultimately show ?thesis using b w by (auto intro: blocks_ok_owned)
qed

section \<open>Equipping a function\<close>

lemma launch_linger_owned:
  fixes s t :: "('w, 'm, 'f, 'a, 's) lingering_scheme"
  assumes doc: "issues_doc G iss" "prctl_doc G" and ok: "libsets_ok G iss gs s" "blocks_ok T iss bs s"
    and run: "launch_linger G f s = (Val l, t)"
  shows "\<exists>g a. l = Continuation (launched (heap_next s) g a) \<and> g \<in> usable G \<and> a \<notin> T \<and>
    libsets_ok G iss (g # gs) t \<and> blocks_ok T iss (block_at a # bs) t \<and> heap_next t = Suc (heap_next s) \<and>
    closures t = (closures s)(heap_next s := Function f) \<and> ptls t = ptls s \<and> ltls t = ltls s \<and>
    view G (world t) = view G (world s) \<and> STACKS t = STACKS s \<and> STACKS_INIT t = STACKS_INIT s"
proof -
  let ?s = "s\<lparr>heap_next := Suc (heap_next s), closures := (closures s)(heap_next s := Function f)\<rparr>"
  from run obtain r u tls where g: "assign_group G ?s = (Val (Ok r), u)" and b: "alloc_localstore G u = (Val tls, t)"
    and l: "l = Continuation \<lparr>functional = heap_next s, stateful = task_default, cont_group = r, cont_tls = tls\<rparr>"
    by (auto simp: launch_linger_def bind_Val_iff Val_iffs on_panic_Val_iff new_closure_def set_closure_def)
  have "libsets_ok G iss gs ?s" using ok(1) libsets_ok_cong [of ?s s iss gs gs G] by simp
  from assign_group_owned [OF doc(1) this g] obtain x where x: "r = \<lparr>reusable_value = Some x\<rparr>" "x \<in> usable G"
      "libsets_ok G iss (x # gs) u"
    and o: "off_groups (\<lambda>w. (snd (iss w), view G w)) u =
      off_groups (\<lambda>w. (snd (iss w), view G w)) (?s\<lparr>GROUPS_INIT := Once_Done\<rparr>)" by blast
  have "blocks_ok T iss bs u" using ok(2) o blocks_ok_cong [of u s iss bs bs T] by (simp add: off_groups_def stack_view_def)
  from alloc_localstore_owned [OF doc(1) this b] obtain a where a: "tls = \<lparr>reusable_value = Some (block_at a)\<rparr>" "a \<notin> T"
      "blocks_ok T iss (block_at a # bs) t" by blast
  have p: "off_blocks (\<lambda>w. (fst (iss w), view G w)) t = off_blocks (\<lambda>w. (fst (iss w), view G w)) u"
    using keepsD [OF off_blocks_alloc [OF doc] b] .
  have "libsets_ok G iss (x # gs) t" using x(3) p libsets_ok_cong [of t u iss "x # gs" "x # gs" G] by (simp add: off_blocks_def stack_view_def)
  moreover have "statics.more t = statics.more ?s" using o p by (simp add: off_groups_def off_blocks_def stack_view_def)
  moreover have "heap_next t = Suc (heap_next s)" "view G (world t) = view G (world s)" "STACKS t = STACKS s" "STACKS_INIT t = STACKS_INIT s"
    using o p by (simp_all add: off_groups_def off_blocks_def stack_view_def)
  ultimately show ?thesis
    using l x a lingering_eqI [of t ?s] by (auto simp: launched_def)
qed

section \<open>Giving back\<close>

lemma off_groups_drop: "keeps (off_groups h) (drop_group r)"
  by (intro keeps_rules) (simp add: ignores_def place_fields off_groups_def stack_view_def)

lemma off_blocks_drop: "keeps (off_blocks h) (drop_localstore r)" "keeps LOCALSTORES_INIT (drop_localstore r)"
  by (intro keeps_rules; simp add: ignores_def place_fields off_blocks_def stack_view_def)+

lemma drop_continuation_owned:
  assumes doc: "calls_keep G iss" and c: "cont_group c = \<lparr>reusable_value = Some g\<rparr>" "cont_tls c = \<lparr>reusable_value = Some b\<rparr>"
    and ok: "libsets_ok G iss (g # gs) s" "blocks_ok T iss (b # bs) s"
    and run: "drop_continuation G c s = (Val (), t)"
  shows "libsets_ok G iss gs t" and "blocks_ok T iss bs t" and "heap_next t = heap_next s"
    and "moved (task_stacks (stateful c)) s [] t"
proof -
  let ?head = "bind (is_preemptible G) (\<lambda>p.
        andthen (debug_assert (debug_build G) (\<not> p) ''libinger: dropped from preemptible function'')
        (only_if (task_errno (stateful c) \<noteq> None)
          (bind (deref (cont_group c)) (\<lambda>grp.
           bind (prim (group_renew G grp)) (\<lambda>renewed.
           assert renewed ''libinger: failed to reinitialize library group'')))))"
  from run obtain u v w x where h: "?head s = (Val (), u)" and cl: "set_closure (functional c) Empty u = (Val (), v)"
    and cp: "drop_checkpoint (task_checkpoint (stateful c)) v = (Val (), w)"
    and g: "drop_group (cont_group c) w = (Val (), x)" and b: "drop_localstore (cont_tls c) x = (Val (), t)"
    by (auto simp: drop_continuation_def with_cleanup_Val_iff Val_iffs)
  have "keeps (foot iss id) ?head"
    by (intro keeps_rules foot_prim) (use doc in \<open>simp add: calls_keep_def\<close>)
  from keepsD [OF this h] keepsD [OF foot_variables(4) cl] keepsD [OF foot_pools(4) cp]
  have f: "foot iss id w = foot iss id s" by metis
  have d: "GROUPS_INIT s = Once_Done" "LOCALSTORES_INIT s = Once_Done" "libsets_owned G iss (usable G) (g # gs) s"
    using ok by (simp_all add: libsets_ok_def blocks_ok_def)
  have "libsets_owned G iss (usable G) (g # gs) w"
    using d(3) f libsets_owned_cong [of w s iss G] by (simp add: foot_def)
  from libsets.owned_drop [OF this, of g x] g c have "libsets_owned G iss (usable G) gs x" by simp
  moreover have o: "off_groups iss x = off_groups iss w" using keepsD [OF off_groups_drop g] .
  moreover have p: "off_blocks iss t = off_blocks iss x" "LOCALSTORES_INIT t = LOCALSTORES_INIT x"
    using keepsD [OF off_blocks_drop(1) b] keepsD [OF off_blocks_drop(2) b] by simp_all
  ultimately show "libsets_ok G iss gs t"
    using d f libsets_owned_cong [of t x iss G] by (simp add: libsets_ok_def off_groups_def off_blocks_def stack_view_def foot_def)
  have "blocks_owned iss (others T) (b # bs) x"
    using ok(2) o f blocks_owned_cong [of x s iss] by (simp add: blocks_ok_def off_groups_def stack_view_def foot_def)
  from blocks.owned_drop [OF this, of b t] b c have "blocks_owned iss (others T) bs t" by simp
  then show "blocks_ok T iss bs t" using d f o p by (intro blocks_ok_owned) (simp_all add: off_groups_def stack_view_def foot_def)
  show "heap_next t = heap_next s" using f o p by (simp add: off_groups_def off_blocks_def stack_view_def foot_def)
  have "keeps stack_view ?head" "keeps stack_view (set_closure (functional c) Empty)"
    unfolding is_preemptible_def set_closure_def by (intro keeps_rules keeps_prim keeps_modify; simp add: stack_view_def)+
  from keepsD [OF this(1) h] keepsD [OF this(2) cl] have "stack_view v = stack_view s" by simp
  moreover have "stack_view t = stack_view w" using o p by (simp add: off_groups_def off_blocks_def)
  ultimately show "moved (task_stacks (stateful c)) s [] t"
    using moved_start [OF moved_end [OF drop_checkpoint_moved [OF cp]]] by metis
qed

text \<open>A function that has finished can always be dropped.\<close>

lemma drop_finished:
  assumes doc: "group_doc G" and c: "cont_group c = \<lparr>reusable_value = Some g\<rparr>" "cont_tls c = \<lparr>reusable_value = Some b\<rparr>"
    and fin: "task_errno (stateful c) = None" "task_checkpoint (stateful c) = None"
    and ok: "libsets_ok G iss (g # gs) s" "blocks_ok T iss (b # bs) s" and sh: "v_group (view G (world s)) = group_SHARED G"
  shows "\<exists>t. drop_continuation G c s = (Val (), t)"
proof -
  let ?s = "s\<lparr>closures := (closures s)(functional c := Empty)\<rparr>"
  have "libsets_owned G iss (usable G) (g # gs) ?s" "blocks_owned iss (others T) (b # bs) ?s"
    using ok libsets_owned_cong [of ?s s iss G] blocks_owned_cong [of ?s s iss] by (simp_all add: libsets_ok_def blocks_ok_def)
  then obtain u where u: "drop_group (cont_group c) ?s = (Val (), u)" and o: "blocks_owned iss (others T) (b # bs) ?s"
    using libsets.owned_drops c(1) by metis
  have "off_groups iss u = off_groups iss ?s" using keepsD [OF off_groups_drop u] .
  then have "blocks_owned iss (others T) (b # bs) u"
    using o blocks_owned_cong [of u ?s iss] by (simp add: off_groups_def)
  then obtain t where t: "drop_localstore (cont_tls c) u = (Val (), t)" using blocks.owned_drops c(2) by metis
  have "with_cleanup (drop_group (cont_group c)) (drop_localstore (cont_tls c)) ?s = (Val (), t)"
    using u t by (rule with_cleanup_Val)
  then have "with_cleanup (drop_checkpoint (task_checkpoint (stateful c))) (with_cleanup (drop_group (cont_group c))
      (drop_localstore (cont_tls c))) ?s = (Val (), t)"
    by (rule with_cleanup_Val [rotated]) (simp add: drop_checkpoint_def fin(2))
  then have "andthen (set_closure (functional c) Empty) (with_cleanup (drop_checkpoint (task_checkpoint (stateful c)))
      (with_cleanup (drop_group (cont_group c)) (drop_localstore (cont_tls c)))) s = (Val (), t)"
    by (simp add: andthen_run set_closure_def)
  then have "drop_continuation G c s = (Val (), t)"
    unfolding drop_continuation_def
    by (rule with_cleanup_Val [rotated]) (simp add: comp_simps is_preemptible_run [OF doc] sh fin(1))
  then show ?thesis ..
qed

text \<open>What else dropping a function leaves alone.\<close>

definition beyond :: "('w, 'z) libc_scheme \<Rightarrow> nat \<Rightarrow> ('w, 'm, 'f, 'a, 's) lingering_scheme \<Rightarrow>
    kview \<times> (usize \<Rightarrow> preempt_tls) \<times> (usize \<Rightarrow> 'm linger_tls) \<times> (nat \<Rightarrow> ('f, 'a) completion)" where
  "beyond L b s = (view L (world s), ptls s, ltls s, (closures s)(b := Empty))"

lemma drop_continuation_beyond:
  assumes "issues_doc G iss"
  shows "keeps (beyond G (functional c)) (drop_continuation G c)"
proof -
  have i: "ignores (beyond G b) groups_place" "ignores (beyond G b) localstores_place" "ignores (beyond G b) stacks_place" for b
    by (simp_all add: ignores_def place_fields beyond_def)
  have cp: "keeps (beyond G b) (drop_checkpoint cp)" for b cp
    unfolding drop_checkpoint_def drop_stack_def by (intro keeps_rules i)
  show ?thesis
    unfolding drop_continuation_def is_preemptible_def set_closure_def
    by (intro keeps_rules i cp keeps_prim keeps_modify) (simp_all add: beyond_def issued_group(4) [OF assms])
qed

section \<open>A program that uses the library\<close>

definition libset_of :: "'m continuation \<Rightarrow> group" where
  "libset_of c = the (reusable_value (cont_group c))"

definition block_of :: "'m continuation \<Rightarrow> tcb option" where
  "block_of c = the (reusable_value (cont_tls c))"

text \<open>The program holds functions, each with what it promises; those that have not completed are live.\<close>

type_synonym ('f, 'a) clients = "(('f, 'a) promise \<times> ('a, 'f mcontext) linger) list"

fun live :: "('f, 'a) clients \<Rightarrow> 'f mcontext continuation list" where
  "live [] = []"
| "live ((J, Continuation c) # cs) = c # live cs"
| "live ((J, Completion v) # cs) = live cs"
| "live ((J, Poison) # cs) = live cs"

lemma live_append [simp]: "live (xs @ ys) = live xs @ live ys"
  by (induction xs rule: live.induct) simp_all

lemma live_in: "(J, Continuation c) \<in> set cs \<Longrightarrow> c \<in> set (live cs)"
  by (induction cs rule: live.induct) auto

text \<open>The stacks of the functions that are paused.\<close>

definition stacks_of :: "('f, 'a) clients \<Rightarrow> stack list" where
  "stacks_of cs = concat (map (\<lambda>c. task_stacks (stateful c)) (live cs))"

lemma stacks_of_simps [simp]:
  "stacks_of [] = []" "stacks_of (xs @ ys) = stacks_of xs @ stacks_of ys"
  "stacks_of ((J, Continuation c) # cs) = task_stacks (stateful c) @ stacks_of cs"
  "stacks_of ((J, Completion v) # cs) = stacks_of cs" "stacks_of ((J, Poison) # cs) = stacks_of cs"
  by (simp_all add: stacks_of_def)

text \<open>
  It launches a function, resumes one, or drops one, for any time and with any events, and the call reports success.  It may
  catch the panic of a function: out of \<^verbatim>\<open>resume\<close>, when the \<^verbatim>\<open>Linger\<close> is poisoned, or out of \<^verbatim>\<open>launch\<close>, when there is none.  It may
  also catch the panic of a \<^verbatim>\<open>launch\<close> that found no libset left.  In between its own code
  runs, or that of another of its threads; what has been handed out meanwhile stays handed out.

  Not among the steps: a call that returns an error, and one that panics for another reason than these.  What an error leaves
  behind is the subject of \<open>Failures\<close>.
\<close>

definition goes_elsewhere :: "('w, 'z) gotcha_scheme \<Rightarrow> ('w \<Rightarrow> group set \<times> usize set) \<Rightarrow> usize set \<Rightarrow> 'w \<Rightarrow> 'w \<Rightarrow> bool" where
  "goes_elsewhere G iss T w w' \<longleftrightarrow> on_thread G T w' \<and> fst (iss w) \<subseteq> fst (iss w') \<and> snd (iss w) \<subseteq> snd (iss w')"

inductive client_step :: "('w, 'f, 'z) platform_scheme \<Rightarrow> ('w, 'f, 'a) user_code \<Rightarrow> ('w \<Rightarrow> group set \<times> usize set) \<Rightarrow> usize set \<Rightarrow>
    ('f, 'a) clients \<times> ('w, 'f mcontext, 'f, 'a, 's) lingering_scheme \<Rightarrow>
    ('f, 'a) clients \<times> ('w, 'f mcontext, 'f, 'a, 's) lingering_scheme \<Rightarrow> bool" for E U iss T where
  client_launch: "run_doc E U J \<Longrightarrow> fst J f \<Longrightarrow> launch E U es f us s = (Val (Ok l), t) \<Longrightarrow>
    client_step E U iss T (cs, s) ((J, l) # cs, t)"
| client_resume: "resume E U es us (l, s) = (Val (Ok ()), (l', t)) \<Longrightarrow>
    client_step E U iss T (xs @ (J, l) # ys, s) (xs @ (J, l') # ys, t)"
| client_panic: "resume E U es us (Continuation c, s) = (Fail (Panicked msg), (Poison, t)) \<Longrightarrow>
    client_step E U iss T (xs @ (J, Continuation c) # ys, s) (xs @ (J, Poison) # ys, t)"
| client_launch_panic: "run_doc E U J \<Longrightarrow> fst J f \<Longrightarrow> launch E U es f us s = (Fail (Panicked msg), t) \<Longrightarrow>
    launch_linger E f s = (Val l, u) \<Longrightarrow> resume E U es us (l, u) = (Fail (Panicked msg), (Poison, t)) \<Longrightarrow>
    client_step E U iss T (cs, s) (cs, t)"
| client_refused: "launch E U es f us s = (Fail (Panicked msg), t) \<Longrightarrow> new_closure f s = (Val a, u) \<Longrightarrow>
    assign_group E u = (Val (Err None), v) \<Longrightarrow> client_step E U iss T (cs, s) (cs, t)"
| client_drop: "drop_linger E l s = (Val (), t) \<Longrightarrow> client_step E U iss T (xs @ (J, l) # ys, s) (xs @ ys, t)"
| client_switch: "goes_elsewhere E iss T (world s) w \<Longrightarrow> client_step E U iss T (cs, s) (cs, s\<lparr>world := w\<rparr>)"

inductive_cases client_stepE: "client_step E U iss T (cs, s) (cs', t)"

fun fits :: "('w, 'f, 'z) platform_scheme \<Rightarrow> ('f, 'a) promise \<Rightarrow> ('a, 'f mcontext) linger \<Rightarrow>
    ('w, 'f mcontext, 'f, 'a, 's) lingering_scheme \<Rightarrow> bool" where
  "fits E J (Continuation c) s \<longleftrightarrow> (\<exists>a g. cont_ok E J a g c s)"
| "fits E J (Completion v) s \<longleftrightarrow> snd J (Ok v)"
| "fits E J Poison s \<longleftrightarrow> True"

definition client_ok :: "('w, 'f, 'z) platform_scheme \<Rightarrow> ('w, 'f, 'a) user_code \<Rightarrow> ('w \<Rightarrow> group set \<times> usize set) \<Rightarrow> usize set \<Rightarrow>
    ('f, 'a) clients \<Rightarrow> ('w, 'f mcontext, 'f, 'a, 's) lingering_scheme \<Rightarrow> bool" where
  "client_ok E U iss T cs s \<longleftrightarrow> on_thread E T (world s) \<and> signalers_wf (ptls s) \<and> (\<forall>a. a \<notin> T \<longrightarrow> idle_block a s) \<and>
     libsets_ok E iss (map libset_of (live cs)) s \<and> blocks_ok T iss (map block_of (live cs)) s \<and> stacks_ok (stacks_of cs) s \<and>
     distinct (map functional (live cs)) \<and> (\<forall>c \<in> set (live cs). functional c < heap_next s) \<and>
     (\<forall>(J, l) \<in> set cs. run_doc E U J \<and> fits E J l s)"

lemma client_okD:
  assumes "client_ok E U iss T cs s"
  shows "caller_ok E (fs_of E s) s" "a \<notin> T \<Longrightarrow> idle_block a s" "libsets_ok E iss (map libset_of (live cs)) s"
    "blocks_ok T iss (map block_of (live cs)) s" "distinct (map functional (live cs))"
    "c \<in> set (live cs) \<Longrightarrow> functional c < heap_next s"
    "(J, l) \<in> set cs \<Longrightarrow> run_doc E U J" "(J, l) \<in> set cs \<Longrightarrow> fits E J l s" "stacks_ok (stacks_of cs) s"
    "on_thread E T (world s)" "signalers_wf (ptls s)"
  using assms by (auto simp: client_ok_def intro: on_thread_caller)

lemma cont_ok_gear:
  "cont_ok E J a g c s \<Longrightarrow> cont_group c = \<lparr>reusable_value = Some g\<rparr> \<and> cont_tls c = \<lparr>reusable_value = Some (block_at a)\<rparr> \<and>
    libset_of c = g \<and> block_of c = block_at a"
  by (simp add: cont_ok_def libset_of_def block_of_def)

lemma blocks_ok_distinct:
  "blocks_ok T iss held s \<Longrightarrow> distinct held \<and> block_at ` T \<inter> set held = {}"
  by (auto simp: blocks_ok_def others_def dest!: blocks.owned_distinct)

lemma libsets_ok_distinct: "libsets_ok G iss held s \<Longrightarrow> distinct held"
  by (auto simp: libsets_ok_def dest!: libsets.owned_distinct)

text \<open>What one function does leaves the others as they were.\<close>

lemma fits_frame:
  assumes "unchanged_besides a b s t" and "fits E J l s"
    and "\<And>c. l = Continuation c \<Longrightarrow> block_of c \<noteq> block_at a \<and> functional c \<noteq> b"
  shows "fits E J l t"
proof (cases l)
  case (Continuation c)
  then obtain x g where x: "cont_ok E J x g c s" using assms(2) by auto
  then have "x \<noteq> a" using cont_ok_gear [OF x] assms(3) [OF Continuation] by auto
  with linger_ok_frame [OF assms(1), of E J x g "functional c" "Continuation c"] x assms(3) Continuation
  show ?thesis by auto
qed (use assms(2) in simp_all)

lemma idle_frame: "unchanged_besides a b s t \<Longrightarrow> idle_block x s \<Longrightarrow> x \<noteq> a \<Longrightarrow> idle_block x t"
  unfolding unchanged_besides_def idle_block_def
  by (metis (no_types, lifting) preempt_tls.select_convs(2,3) preempt_tls.update_convs(5) preempt_tls.surjective)

lemma client_rest:
  assumes "client_ok E U iss T cs s" and "set rest \<subseteq> set cs" and "unchanged_besides a b s t" and "idle_block a t"
    and "\<And>c. c \<in> set (live rest) \<Longrightarrow> block_of c \<noteq> block_at a \<and> functional c \<noteq> b"
  shows "\<forall>(J, l) \<in> set rest. run_doc E U J \<and> fits E J l t" and "\<forall>x. x \<notin> T \<longrightarrow> idle_block x t"
proof -
  have "run_doc E U J \<and> fits E J l t" if m: "(J, l) \<in> set rest" for J l
    using m assms(2,5) client_okD(7,8) [OF assms(1), of J l] live_in
    by (intro conjI fits_frame [OF assms(3)]) blast+
  then show "\<forall>(J, l) \<in> set rest. run_doc E U J \<and> fits E J l t" by blast
  show "\<forall>x. x \<notin> T \<longrightarrow> idle_block x t"
    using idle_frame [OF assms(3)] assms(4) client_okD(2) [OF assms(1)] by metis
qed

lemma client_launched:
  assumes doc: "issues_doc E iss" "setup_doc E" "run_doc E U J" and ok: "client_ok E U iss T cs s" and f: "fst J f"
    and run: "launch_linger E f s = (Val l, t)"
  shows "client_ok E U iss T ((J, l) # cs) t"
proof -
  from launch_linger_owned [OF doc(1) setup_docD(4) [OF doc(2)] client_okD(3,4) [OF ok] run]
  obtain g a where l: "l = Continuation (launched (heap_next s) g a)" and g: "g \<in> usable E" and a: "a \<notin> T"
    and o: "libsets_ok E iss (g # map libset_of (live cs)) t" "blocks_ok T iss (block_at a # map block_of (live cs)) t"
    and h: "heap_next t = Suc (heap_next s)" and cl: "closures t = (closures s)(heap_next s := Function f)"
    and tls: "ptls t = ptls s" "ltls t = ltls s" and v: "view E (world t) = view E (world s)"
    and st: "STACKS t = STACKS s" "STACKS_INIT t = STACKS_INIT s" by blast
  have "stacks_ok (stacks_of cs) t" using stacks_ok_later [OF st _ client_okD(9) [OF ok]] h by simp
  then have sk: "stacks_ok (stacks_of ((J, l) # cs)) t" using l by (simp add: launched_def task_default_def)
  have u: "unchanged_besides a (heap_next s) s t" using cl tls by (simp add: unchanged_besides_def)
  have i: "idle_block a t" using client_okD(2) [OF ok a] tls by (simp add: idle_block_def)
  have n: "block_of c \<noteq> block_at a \<and> functional c \<noteq> heap_next s" if "c \<in> set (live cs)" for c
    using blocks_ok_distinct [OF o(2)] client_okD(6) [OF ok that] imageI [OF that, of block_of] by auto
  have c: "cont_ok E J a g (launched (heap_next s) g a) t"
    using g i cl f by (simp add: cont_ok_def launched_def usable_def cont_state_def task_default_def)
  have "on_thread E T (world t)" "signalers_wf (ptls t)" using client_okD(10,11) [OF ok] tls v by (simp_all add: on_thread_def)
  moreover have "functional c < heap_next t" if "c \<in> set (live cs)" for c
    using client_okD(6) [OF ok that] h by simp
  moreover have "heap_next s \<notin> functional ` set (live cs)" using n by (metis imageE)
  ultimately show ?thesis
    using client_rest [OF ok _ u i n, of cs] client_okD(5) [OF ok] l o sk c doc(3) h cont_ok_gear [OF c]
    by (auto simp: client_ok_def launched_def)
qed

text \<open>The place of one function among the others.\<close>

lemma client_one:
  assumes "client_ok E U iss T (xs @ (J, Continuation c) # ys) s"
  obtains a g where "run_doc E U J" "cont_ok E J a g c s" "a \<notin> T" "libset_of c = g" "block_of c = block_at a"
    "libsets_ok E iss (g # map libset_of (live (xs @ ys))) s" "blocks_ok T iss (block_at a # map block_of (live (xs @ ys))) s"
    "stacks_ok (task_stacks (stateful c) @ stacks_of (xs @ ys)) s"
    "\<And>d. d \<in> set (live (xs @ ys)) \<Longrightarrow> block_of d \<noteq> block_at a \<and> functional d \<noteq> functional c"
proof -
  let ?cs = "xs @ (J, Continuation c) # ys"
  from client_okD(7,8) [OF assms, of J "Continuation c"] obtain a g where c: "run_doc E U J" "cont_ok E J a g c s" by auto
  note gear = cont_ok_gear [OF c(2)]
  have l: "libsets_ok E iss (g # map libset_of (live (xs @ ys))) s"
    using client_okD(3) [OF assms] libsets_ok_cong [of s s iss "g # map libset_of (live (xs @ ys))" "map libset_of (live ?cs)" E] gear
    by simp
  have b: "blocks_ok T iss (block_at a # map block_of (live (xs @ ys))) s"
    using client_okD(4) [OF assms] blocks_ok_cong [of s s iss "block_at a # map block_of (live (xs @ ys))" "map block_of (live ?cs)" T] gear
    by simp
  have k: "stacks_ok (task_stacks (stateful c) @ stacks_of (xs @ ys)) s"
    by (rule stacks_ok_perm [THEN iffD1, OF _ client_okD(9) [OF assms]]) simp
  have "a \<notin> T" using blocks_ok_distinct [OF b] by auto
  moreover have "block_of d \<noteq> block_at a \<and> functional d \<noteq> functional c" if "d \<in> set (live (xs @ ys))" for d
    using blocks_ok_distinct [OF b] client_okD(5) [OF assms] imageI [OF that, of block_of] imageI [OF that, of functional]
    by auto
  ultimately show ?thesis using that [OF c] gear l b k by blast
qed

lemma beyond_unchanged: "beyond L b t = beyond L b s \<Longrightarrow> unchanged_besides a b s t"
  by (auto simp: beyond_def unchanged_besides_def fun_eq_iff split: if_splits)

lemma client_dropped:
  assumes doc: "issues_doc E iss" "untouched E U iss" and ok: "client_ok E U iss T (xs @ (J, l) # ys) s"
    and run: "drop_linger E l s = (Val (), t)"
  shows "client_ok E U iss T (xs @ ys) t"
proof (cases l)
  case (Continuation c)
  from client_one [OF ok [unfolded Continuation]] obtain a g where c: "cont_ok E J a g c s" "a \<notin> T"
    and o: "libsets_ok E iss (g # map libset_of (live (xs @ ys))) s" "blocks_ok T iss (block_at a # map block_of (live (xs @ ys))) s"
    and k: "stacks_ok (task_stacks (stateful c) @ stacks_of (xs @ ys)) s"
    and n: "\<And>d. d \<in> set (live (xs @ ys)) \<Longrightarrow> block_of d \<noteq> block_at a \<and> functional d \<noteq> functional c" by blast
  have d: "drop_continuation E c s = (Val (), t)" using run Continuation by (simp add: drop_linger_def)
  have b: "beyond E (functional c) t = beyond E (functional c) s"
    using keepsD [OF drop_continuation_beyond [OF doc(1)] d] .
  have i: "idle_block a t" using client_okD(2) [OF ok c(2)] b by (simp add: idle_block_def beyond_def)
  have "on_thread E T (world t)" "signalers_wf (ptls t)" using client_okD(10,11) [OF ok] b by (simp_all add: on_thread_def beyond_def)
  moreover note dr = drop_continuation_owned [OF untouchedD(1) [OF doc(2)] _ _ o d] cont_ok_gear [OF c(1)]
  moreover have "stacks_ok (stacks_of (xs @ ys)) t"
    using movedD [OF dr(4) k] cont_ok_gear [OF c(1)] by simp
  ultimately show ?thesis
    using client_rest [OF ok _ beyond_unchanged [OF b] i n, of "xs @ ys"] client_okD(5,6) [OF ok] Continuation
    by (auto simp: client_ok_def)
qed (use ok run in \<open>auto simp: client_ok_def drop_linger_def\<close>)

text \<open>A function that finished has been dropped, and what is left of it holds nothing.\<close>

lemma client_finished:
  fixes s t :: "('w, 'f mcontext, 'f, 'a, 's) lingering_scheme"
  assumes doc: "issues_doc E iss" "untouched E U iss" and ok: "client_ok E U iss T (xs @ (J, Continuation c) # ys) s"
    and c: "cont_ok E J a g c s" and rc: "resume_continuation E U es us (c, s) = (Val (Ok True), (c', u))"
    and res: "resumed E J me a g c s True c' u" "cont_tls c' = cont_tls c"
    and d: "drop_continuation E c' (u\<lparr>closures := (closures u)(functional c := Empty)\<rparr>) = (Val (), t)"
    and post: "on_thread E T (world t)" "signalers_wf (ptls t)" "unchanged_besides a (functional c) s t" "idle_block a t"
    and l: "live [(J, l)] = []" "fits E J l t"
  shows "client_ok E U iss T (xs @ (J, l) # ys) t"
proof -
  let ?u = "u\<lparr>closures := (closures u)(functional c := Empty)\<rparr>"
  from client_one [OF ok] cont_ok_gear [OF c] have o: "run_doc E U J" "libsets_ok E iss (g # map libset_of (live (xs @ ys))) s"
      "blocks_ok T iss (block_at a # map block_of (live (xs @ ys))) s" "stacks_ok (task_stacks (stateful c) @ stacks_of (xs @ ys)) s"
    and n: "\<And>d. d \<in> set (live (xs @ ys)) \<Longrightarrow> block_of d \<noteq> block_at a \<and> functional d \<noteq> functional c" by metis+
  have gr: "cont_group c' = \<lparr>reusable_value = Some g\<rparr>" "cont_tls c' = \<lparr>reusable_value = Some (block_at a)\<rparr>"
    using res cont_ok_gear [OF c] by (simp_all add: resumed_def)
  note f = foot_resume_continuation [OF doc(2) rc]
  have lo: "libsets_ok E iss (g # map libset_of (live (xs @ ys))) ?u"
    by (rule libsets_ok_cong [of ?u s, THEN iffD2, OF _ _ _ _ o(2)]) (use f(1) in \<open>simp_all add: foot_def\<close>)
  have bo: "blocks_ok T iss (block_at a # map block_of (live (xs @ ys))) ?u"
    by (rule blocks_ok_cong [of ?u s, THEN iffD2, OF _ _ _ _ o(3)]) (use f(1) in \<open>simp_all add: foot_def\<close>)
  note dr = drop_continuation_owned [OF untouchedD(1) [OF doc(2)] gr lo bo d]
  have "moved (task_stacks (stateful c)) s [] t"
    using res(1) moved_trans [OF _ moved_start [OF dr(4)], of _ _ u] by (auto simp: resumed_def stack_view_def)
  from movedD [OF this o(4)] have "stacks_ok (stacks_of (xs @ ys)) t" by simp
  moreover have "stacks_of (xs @ (J, l) # ys) = stacks_of (xs @ ys)" "live (xs @ (J, l) # ys) = live (xs @ ys)"
    using l(1) by (cases l; simp)+
  moreover have "functional d < heap_next t" if "d \<in> set (live (xs @ ys))" for d
    using client_okD(6) [OF ok, of d] that f(2) dr(3) by auto
  moreover note client_rest [OF ok _ post(3,4) n, of "xs @ ys"]
  ultimately show ?thesis
    using dr(1,2) post(1,2) l(2) o(1) client_okD(5) [OF ok] by (auto simp: client_ok_def)
qed

text \<open>A function that is paused anew holds what it held, on the stack it was given.\<close>

lemma client_paused:
  fixes s t :: "('w, 'f mcontext, 'f, 'a, 's) lingering_scheme"
  assumes ok: "client_ok E U iss T (xs @ (J, Continuation c) # ys) s"
    and c: "cont_ok E J a g c s" "cont_ok E J a g c' t" "functional c' = functional c"
    and f: "foot iss p t = foot iss p s" "heap_next s \<le> heap_next t"
    and m: "moved (task_stacks (stateful c)) s (task_stacks (stateful c')) t"
    and post: "on_thread E T (world t)" "signalers_wf (ptls t)" "unchanged_besides a (functional c) s t" "idle_block a t"
  shows "client_ok E U iss T (xs @ (J, Continuation c') # ys) t"
proof -
  let ?cs = "xs @ (J, Continuation c') # ys"
  from client_one [OF ok] cont_ok_gear [OF c(1)] have o: "run_doc E U J" "libsets_ok E iss (g # map libset_of (live (xs @ ys))) s"
      "blocks_ok T iss (block_at a # map block_of (live (xs @ ys))) s" "stacks_ok (task_stacks (stateful c) @ stacks_of (xs @ ys)) s"
    and n: "\<And>d. d \<in> set (live (xs @ ys)) \<Longrightarrow> block_of d \<noteq> block_at a \<and> functional d \<noteq> functional c" by metis+
  have "libsets_ok E iss (map libset_of (live ?cs)) t = libsets_ok E iss (g # map libset_of (live (xs @ ys))) s"
    using f(1) cont_ok_gear [OF c(2)] by (intro libsets_ok_cong) (simp_all add: foot_def)
  moreover have "blocks_ok T iss (map block_of (live ?cs)) t = blocks_ok T iss (block_at a # map block_of (live (xs @ ys))) s"
    using f(1) cont_ok_gear [OF c(2)] by (intro blocks_ok_cong) (simp_all add: foot_def)
  moreover have "stacks_ok (stacks_of ?cs) t"
    using movedD [OF m o(4)] by (rule stacks_ok_perm [THEN iffD1, rotated]) simp
  moreover have "functional d < heap_next t" if "d \<in> set (live (xs @ (J, Continuation c) # ys))" for d
    using client_okD(6) [OF ok that] f(2) by simp
  moreover note client_rest [OF ok _ post(3,4) n, of "xs @ ys"]
  ultimately show ?thesis
    using c(2,3) post(1,2) o client_okD(5) [OF ok] by (auto simp: client_ok_def)
qed

lemma client_panicked:
  fixes s t :: "('w, 'f mcontext, 'f, 'a, 's) lingering_scheme"
  assumes doc: "issues_doc E iss" "untouched E U iss" "setup_doc E" and ok: "client_ok E U iss T (xs @ (J, Continuation c) # ys) s"
    and run: "resume E U es us (Continuation c, s) = (r, (Poison, t))"
  shows "client_ok E U iss T (xs @ (J, Poison) # ys) t"
proof -
  from client_one [OF ok] obtain a g where c: "run_doc E U J" "cont_ok E J a g c s" "a \<notin> T"
    and o: "libsets_ok E iss (g # map libset_of (live (xs @ ys))) s" "blocks_ok T iss (block_at a # map block_of (live (xs @ ys))) s"
    by metis
  note call = client_okD(1) [OF ok]
  have T: "fs_of E s \<in> T" using client_okD(10) [OF ok] by (simp add: on_thread_def)
  then have me: "a \<noteq> fs_of E s" using c(3) by auto
  note post = resume_poison_post [OF c(1) doc(3) call c(2) me run]
  from c(1) doc(3) call c(2) me run show ?thesis
  proof (rule resume_poisons)
    fix c' u d
    assume rc: "resume_continuation E U es us (c, s) = (Val (Ok True), (c', u))"
      and res: "resumed E J (fs_of E s) a g c s True c' u" "cont_tls c' = cont_tls c"
      and d: "drop_continuation E c' (u\<lparr>closures := (closures u)(functional c := Empty)\<rparr>) = (d, t)"
    let ?u = "u\<lparr>closures := (closures u)(functional c := Empty)\<rparr>"
    note f = foot_resume_continuation(1) [OF doc(2) rc]
    have "libsets_ok E iss (g # map libset_of (live (xs @ ys))) ?u"
      by (rule libsets_ok_cong [of ?u s, THEN iffD2, OF _ _ _ _ o(1)]) (use f in \<open>simp_all add: foot_def\<close>)
    moreover have "blocks_ok T iss (block_at a # map block_of (live (xs @ ys))) ?u"
      by (rule blocks_ok_cong [of ?u s, THEN iffD2, OF _ _ _ _ o(2)]) (use f in \<open>simp_all add: foot_def\<close>)
    ultimately have "\<exists>t. drop_continuation E c' ?u = (Val (), t)"
      using res cont_ok_gear [OF c(2)]
      by (intro drop_finished [OF preempt_docD(1) [OF setup_docD(1) [OF doc(3)]]]) (simp_all add: resumed_def)
    with d have "drop_continuation E c' ?u = (Val (), t)" by auto
    then show ?thesis
      using client_finished [OF doc(1,2) ok c(2) rc res] post caller_on_thread [OF conjunct1 [OF post] T] by simp
  qed
qed

lemma client_resumed:
  fixes s t :: "('w, 'f mcontext, 'f, 'a, 's) lingering_scheme"
  assumes doc: "issues_doc E iss" "untouched E U iss" "setup_doc E" and ok: "client_ok E U iss T (xs @ (J, l) # ys) s"
    and run: "resume E U es us (l, s) = (Val (Ok ()), (l', t))"
  shows "client_ok E U iss T (xs @ (J, l') # ys) t"
proof (cases l)
  case (Continuation c)
  note ok' = ok [unfolded Continuation]
  from client_one [OF ok'] obtain a g where c: "run_doc E U J" "cont_ok E J a g c s" "a \<notin> T" by metis
  note call = client_okD(1) [OF ok]
  have me: "a \<noteq> fs_of E s" using c(3) client_okD(10) [OF ok] by (auto simp: on_thread_def)
  have post: "resume_post E J (fs_of E s) a g s (functional c) l' t"
    using wp_Val [OF resume_wp [OF c(1) doc(3) call c(2) me]] run Continuation by auto
  then have u: "unchanged_besides a (functional c) s t" "idle_block a t" and "caller_ok E (fs_of E s) t"
    by (simp_all add: resume_post_def)
  then have ct: "on_thread E T (world t)" "signalers_wf (ptls t)"
    using client_okD(10) [OF ok] caller_on_thread by (auto simp: on_thread_def)
  note res = wp_Val [OF resume_continuation_wp [OF c(1) doc(3) call c(2) me]]
  from doc(2) run [unfolded Continuation] show ?thesis
  proof (cases rule: resume_foot)
    case (paused c')
    have "moved (task_stacks (stateful c)) s (task_stacks (stateful c')) t"
      using res [OF paused(2)] by (auto simp: resumed_def)
    with post paused show ?thesis
      using client_paused [OF ok' c(2) _ _ paused(3,4) _ ct u] by (simp add: resume_post_def)
  next
    case (dropped v c' u')
    note r = res [OF dropped(2), simplified]
    show ?thesis
      using client_finished [OF doc(1,2) ok' c(2) dropped(2) _ _ dropped(5) ct u, of "fs_of E s" l'] r dropped(1) post
      by (auto simp: resume_post_def)
  qed
next
  case (Completion v)
  then show ?thesis
    using resume_over [OF preempt_docD(1) [OF setup_docD(1) [OF doc(3)]] client_okD(1) [OF ok], of l U es us] run ok by simp
next
  case Poison
  then show ?thesis
    using resume_over [OF preempt_docD(1) [OF setup_docD(1) [OF doc(3)]] client_okD(1) [OF ok], of l U es us] run ok by simp
qed

text \<open>What the program's own code does, on this thread or another, shows only in what has been handed out.\<close>

lemma owned_later:
  assumes "goes_elsewhere G iss T (world s) w"
  shows "libsets_ok G iss held s \<Longrightarrow> libsets_ok G iss held (s\<lparr>world := w\<rparr>)"
    and "blocks_ok T iss held' s \<Longrightarrow> blocks_ok T iss held' (s\<lparr>world := w\<rparr>)"
proof -
  have "libset_stock G iss (s\<lparr>world := w\<rparr>) \<subseteq> libset_stock G iss s" "block_stock iss (s\<lparr>world := w\<rparr>) \<subseteq> block_stock iss s"
    using assms by (auto simp: goes_elsewhere_def libset_stock_def block_stock_def)
  then show "libsets_ok G iss held s \<Longrightarrow> libsets_ok G iss held (s\<lparr>world := w\<rparr>)"
    and "blocks_ok T iss held' s \<Longrightarrow> blocks_ok T iss held' (s\<lparr>world := w\<rparr>)"
    using assms libsets.owned_less [of G iss _ held s "s\<lparr>world := w\<rparr>"] blocks.owned_less [of iss _ held' s "s\<lparr>world := w\<rparr>"]
    by (auto simp: libsets_ok_def blocks_ok_def goes_elsewhere_def place_fields)
qed

lemma client_switched:
  assumes ok: "client_ok E U iss T cs s" and w: "goes_elsewhere E iss T (world s) w"
  shows "client_ok E U iss T cs (s\<lparr>world := w\<rparr>)"
proof -
  have "fits E J l (s\<lparr>world := w\<rparr>) = fits E J l s" for J l by (cases l) simp_all
  moreover have "stacks_ok (stacks_of cs) (s\<lparr>world := w\<rparr>)" by (rule stacks_ok_later [OF _ _ _ client_okD(9) [OF ok]]) simp_all
  ultimately show ?thesis
    using ok w owned_later(1) [OF w client_okD(3) [OF ok]] owned_later(2) [OF w client_okD(4) [OF ok]]
    by (simp add: client_ok_def goes_elsewhere_def)
qed

text \<open>A function that cannot be launched for want of a libset takes only its own closure with it.\<close>

lemma client_refusal:
  fixes s t :: "('w, 'f mcontext, 'f, 'a, 's) lingering_scheme"
  assumes doc: "issues_doc E iss" "setup_doc E" and ok: "client_ok E U iss T cs s"
    and run: "launch E U es f us s = (Fail x, t)" "new_closure f s = (Val a, u)" "assign_group E u = (Val (Err e), v)"
  shows "client_ok E U iss T cs t"
proof -
  have g: "group_doc E" using setup_docD(1) [OF doc(2)] by (rule preempt_docD)
  have u: "u = s\<lparr>heap_next := Suc (heap_next s), closures := (closures s)(heap_next s := Function f)\<rparr>" "a = heap_next s"
    using run(2) by (auto simp: new_closure_def set_closure_def comp_simps)
  have t: "t = v\<lparr>closures := (closures v)(a := Empty)\<rparr>"
    using run client_okD(1) [OF ok]
    by (auto simp: launch_def launch_linger_def bind_run andthen_run on_panic_def set_closure_def is_preemptible_run [OF g] caller_ok_def)
  have "libsets_ok E iss (map libset_of (live cs)) u"
    by (rule libsets_ok_cong [of u s, THEN iffD2, OF _ _ _ _ client_okD(3) [OF ok]]) (simp_all add: u)
  from assign_group_refused [OF doc(1) this run(3)] have l: "libsets_ok E iss (map libset_of (live cs)) v"
    and o: "off_groups (\<lambda>w. (snd (iss w), view E w)) v = off_groups (\<lambda>w. (snd (iss w), view E w)) (u\<lparr>GROUPS_INIT := Once_Done\<rparr>)" by simp_all
  have more: "statics.more v = statics.more u" using o by (simp add: off_groups_def)
  have tls: "ptls t = ptls s" "ltls t = ltls s" "closures t = (closures s)(heap_next s := Empty)"
    using lingering_eqI [OF more] t u by auto
  have st: "STACKS t = STACKS s" "STACKS_INIT t = STACKS_INIT s" "heap_next t = Suc (heap_next s)" "view E (world t) = view E (world s)"
    using o u t by (simp_all add: off_groups_def stack_view_def)
  have lt: "libsets_ok E iss (map libset_of (live cs)) t"
    by (rule libsets_ok_cong [of t v, THEN iffD2, OF _ _ _ _ l]) (simp_all add: t)
  have bt: "blocks_ok T iss (map block_of (live cs)) t"
    by (rule blocks_ok_cong [of t s, THEN iffD2, OF _ _ _ _ client_okD(4) [OF ok]]) (use o u t in \<open>simp_all add: off_groups_def\<close>)
  have "fs_of E s \<in> T" using client_okD(10) [OF ok] by (simp add: on_thread_def)
  then have n: "block_of c \<noteq> block_at (fs_of E s) \<and> functional c \<noteq> heap_next s" if "c \<in> set (live cs)" for c
    using blocks_ok_distinct [OF client_okD(4) [OF ok]] client_okD(6) [OF ok that] that by auto
  have "unchanged_besides (fs_of E s) (heap_next s) s t" using tls by (simp add: unchanged_besides_def)
  then have fit: "fits E J l t" if "(J, l) \<in> set cs" for J l
    by (rule fits_frame [OF _ client_okD(8) [OF ok that]]) (use that n live_in in metis)
  show ?thesis
    using ok lt bt fit tls st stacks_ok_later [OF st(1,2) _ client_okD(9) [OF ok]] unfolding client_ok_def
    by (auto simp: on_thread_def idle_block_def intro: less_SucI)
qed

lemma client_stepped:
  assumes doc: "issues_doc E iss" "untouched E U iss" "setup_doc E" and ok: "client_ok E U iss T cs s"
    and step: "client_step E U iss T (cs, s) (cs', t)"
  shows "client_ok E U iss T cs' t"
  using step
proof (rule client_stepE)
  fix J f es us l
  assume cs': "cs' = (J, l) # cs" and J: "run_doc E U J" "fst J f" and run: "launch E U es f us s = (Val (Ok l), t)"
  from run obtain l1 u where first: "launch_linger E f s = (Val l1, u)"
    and rest: "l1 = l \<and> u = t \<or> resume E U es us (l1, u) = (Val (Ok ()), (l, t))"
    by (auto simp: launch_def bind_Val_iff Val_iffs is_preemptible_def comp_simps debug_assert_def on_panic_def
        split: if_splits prod.splits outcome.splits result.splits failure.splits)
  have "client_ok E U iss T ((J, l1) # cs) u" using client_launched [OF doc(1,3) J(1) ok J(2) first] .
  with rest client_resumed [OF doc, of T "[]" J l1 cs u es us l t] cs' show ?thesis by auto
next
  fix J f es us msg l u
  assume cs': "cs' = cs" and J: "run_doc E U J" "fst J f" and first: "launch_linger E f s = (Val l, u)"
    and panic: "resume E U es us (l, u) = (Fail (Panicked msg), (Poison, t))"
  have u: "client_ok E U iss T ((J, l) # cs) u" using client_launched [OF doc(1,3) J(1) ok J(2) first] .
  obtain c where "l = Continuation c"
    using launch_linger_owned [OF doc(1) setup_docD(4) [OF doc(3)] client_okD(3,4) [OF ok] first] by blast
  with client_panicked [OF doc, of T "[]" J c cs u es us] u panic have "client_ok E U iss T ((J, Poison) # cs) t" by simp
  then show ?thesis using client_dropped [OF doc(1,2), of T "[]" J Poison cs t t] cs' by (simp add: drop_linger_def)
qed (use ok client_resumed [OF doc] client_panicked [OF doc] client_dropped [OF doc(1,2)] client_switched client_refusal [OF doc(1,3)] in auto)

lemma client_steps:
  assumes "issues_doc E iss" and "untouched E U iss" and "setup_doc E"
    and "(client_step E U iss T)\<^sup>*\<^sup>* (cs, s) (cs', t)" and "client_ok E U iss T cs s"
  shows "client_ok E U iss T cs' t"
  using assms(4,5)
proof (induction "(cs', t)" arbitrary: cs' t rule: rtranclp_induct)
  case (step y)
  then show ?case by (cases y) (auto intro: client_stepped [OF assms(1-3)])
qed simp

section \<open>From the start\<close>

text \<open>A process in which the library has not been used: its pools have not been made, and no function has run.\<close>

definition starting :: "('w, 'z) gotcha_scheme \<Rightarrow> ('w \<Rightarrow> group set \<times> usize set) \<Rightarrow> usize set \<Rightarrow>
    ('w, 'm, 'f, 'a, 's) lingering_scheme \<Rightarrow> bool" where
  "starting G iss T s \<longleftrightarrow> on_thread G T (world s) \<and> signalers_wf (ptls s) \<and> T \<subseteq> snd (iss (world s)) \<and> GROUPS_INIT s = Once_New \<and>
     LOCALSTORES_INIT s = Once_New \<and> STACKS_INIT s = Once_New \<and> (\<forall>a. a \<notin> T \<longrightarrow> idle_block a s)"

lemma client_start: "starting E iss T s \<Longrightarrow> client_ok E U iss T [] s"
  by (simp add: starting_def client_ok_def libsets_ok_def blocks_ok_def stacks_ok_def)

lemma libsets_ok_apart:
  assumes "libsets_ok G iss held s"
  shows "group_SHARED G \<notin> set held" and "GROUPS s = Some m \<Longrightarrow> set (mx_value m) \<inter> set held = {}"
  using assms by (auto simp: libsets_ok_def libsets.owned_def groups.holds_def place_fields usable_def)

lemma stacks_ok_apart: "stacks_ok held s \<Longrightarrow> STACKS s = Some m \<Longrightarrow> set (mx_value m) \<inter> set held = {}"
  by (auto simp: stacks_ok_def stacks.owned_def stacks.holds_def place_fields)

lemma blocks_ok_apart:
  assumes "blocks_ok T iss held s"
  shows "LOCALSTORES s = Some m \<Longrightarrow> set (mx_value m) \<inter> set held = {}"
  using assms by (auto simp: blocks_ok_def blocks.owned_def localstores.holds_def place_fields)

text \<open>
  C2.  Functions share nothing.  Let a program with threads \<open>T\<close> start with the library unused, and then launch,
  resume and drop functions in any order and each on any of its threads.  As long as no call returns an error, and none panics
  but for the panic of the function it ran or for want of a libset, the following holds at every moment.  The functions that
  have neither completed nor panicked have libsets, thread-control blocks, closures and, once they have
  run, stacks of their own, none of which is the shared libset, the block of a thread, or in a pool where another
  function could take it; every one of them is well-formed, as \<^verbatim>\<open>resume\<close> requires; every completed one has a value it
  promised; and the thread is outside the library with its own thread pointer.
\<close>

theorem functions_own:
  assumes "issues_doc E iss" and "untouched E U iss" and "setup_doc E" and "starting E iss T s"
    and "(client_step E U iss T)\<^sup>*\<^sup>* ([], s) (cs, t)"
  shows "distinct (map libset_of (live cs)) \<and> distinct (map block_of (live cs)) \<and> distinct (map functional (live cs)) \<and>
    distinct (stacks_of cs) \<and> group_SHARED E \<notin> libset_of ` set (live cs) \<and> block_at ` T \<inter> block_of ` set (live cs) = {} \<and>
    (\<forall>m. GROUPS t = Some m \<longrightarrow> set (mx_value m) \<inter> libset_of ` set (live cs) = {}) \<and>
    (\<forall>m. LOCALSTORES t = Some m \<longrightarrow> set (mx_value m) \<inter> block_of ` set (live cs) = {}) \<and>
    (\<forall>m. STACKS t = Some m \<longrightarrow> set (mx_value m) \<inter> set (stacks_of cs) = {}) \<and>
    (\<forall>(J, l) \<in> set cs. fits E J l t) \<and> on_thread E T (world t)"
proof -
  have ok: "client_ok E U iss T cs t" using client_steps [OF assms(1-3,5) client_start [OF assms(4)]] .
  note l = client_okD(3) [OF ok] and b = client_okD(4) [OF ok] and k = client_okD(9) [OF ok]
  show ?thesis
    using libsets_ok_distinct [OF l] blocks_ok_distinct [OF b] libsets_ok_apart [OF l] blocks_ok_apart [OF b]
      stacks_ok_distinct [OF k] stacks_ok_apart [OF k] client_okD(5,8,10) [OF ok] by auto
qed

section \<open>On the machine\<close>

definition m_issued :: "machine \<Rightarrow> group set \<times> usize set" where
  "m_issued w = ({g. g \<le> m_groups w}, {a. a < m_tls w})"

lemma m_tls_next: "a < m_tls_end \<Longrightarrow> a < a + 0x1000" for a :: usize
  unfolding m_tls_end_def by (simp add: word_less_nat_alt unat_word_ariths)

lemma m_issues_doc: "issues_doc (m_platform debug) m_issued"
  by (auto simp: issues_doc_def m_issued_def usable_def m_group_limit_def dest: m_tls_next)

lemma m_user_untouched: "m_groups (snd (m_user f w)) = m_groups w \<and> m_tls (snd (m_user f w)) = m_tls w"
  by (induction f w rule: m_user.induct) simp_all

lemma m_untouched: "untouched (m_platform debug) m_user m_issued"
  by (auto simp: untouched_def calls_keep_def m_user_untouched m_issued_def m_sigaction_def m_sigmask_def m_errno_def
      m_pending_def Let_def split: option.split)

definition m_threads :: "usize set" where
  "m_threads = {0x100000, 0x101000}"

text \<open>The machine as its second thread sees it.\<close>

definition m_aside :: "machine \<Rightarrow> machine" where
  "m_aside w = w\<lparr>m_view := (m_view w)\<lparr>v_fs := 0x101000, v_mask := {}, v_pending := {}\<rparr>\<rparr>"

lemma m_starting: "starting (m_platform debug) m_issued m_threads (boot m_start)"
  by (simp add: starting_def m_issued_def on_thread_def m_threads_def boot_def m_start_def signalers_wf_def preempt_tls_default_def
      idle_block_def linger_tls_default_def)

lemma m_four: "m_group_limit = Suc (Suc (Suc (Suc 0)))"
  by (simp add: m_group_limit_def)

text \<open>Two launches, the first of which makes the pools, the second on another thread.\<close>

lemmas m_launching = launch_def launch_linger_def new_closure_def set_closure_def assign_group_def groups_once_def
  group_builder_def alloc_localstore_def call_once_def localstores_once_def with_local_def prealloc_def try_from_def inner_of_def
  holding_def place_fields mutex_fields local_place_def elsewhere_def mutex_default_def localstore_builder_def tcb_new_def
  write_word_def m_tls_end_def drop_reusable_def vec_push_def vec_pop_def on_panic_def is_preemptible_def comp_simps

lemma m_first_launch:
  "\<exists>t. launch m_debug m_user [] m_program 0 (boot m_start) = (Val (Ok (Continuation (launched 0 1 0x203000))), t) \<and>
    world t = m_start\<lparr>m_groups := 1, m_tls := 0x204000\<rparr> \<and> heap_next t = 1 \<and> GROUPS_INIT t = Once_Done \<and>
    GROUPS t = Some mutex_default \<and> LOCALSTORES_INIT t = Once_Done \<and>
    LOCALSTORES t = Some \<lparr>mx_value = [block_at 0x200000, block_at 0x201000, block_at 0x202000], mx_locked = False, mx_poisoned = False\<rparr>"
  by (simp add: m_launching boot_def m_start_def m_four launched_def)

lemma m_second_launch:
  assumes "world t = m_aside (m_start\<lparr>m_groups := 1, m_tls := 0x204000\<rparr>)" "heap_next t = 1" "GROUPS_INIT t = Once_Done"
    "GROUPS t = Some mutex_default" "LOCALSTORES_INIT t = Once_Done"
    "LOCALSTORES t = Some \<lparr>mx_value = [block_at 0x200000, block_at 0x201000, block_at 0x202000], mx_locked = False, mx_poisoned = False\<rparr>"
  shows "\<exists>u. launch m_debug m_user [] m_other 0 t = (Val (Ok (Continuation (launched 1 2 0x202000))), u)"
  using assms by (simp add: m_launching m_start_def m_four launched_def m_aside_def)

theorem functions_own_witness:
  "\<exists>cs t. (client_step m_debug m_user m_issued m_threads)\<^sup>*\<^sup>* ([], boot m_start) (cs, t) \<and> map libset_of (live cs) = [2, 1] \<and>
    map block_of (live cs) = [block_at 0x202000, block_at 0x203000] \<and> (\<forall>(J, l) \<in> set cs. fits m_debug J l t) \<and>
    v_fs (m_view (world t)) \<in> m_threads"
proof -
  let ?step = "client_step m_debug m_user m_issued m_threads" and ?J = "own_results m_user"
  have J: "fst (?J f) f" "run_doc m_debug m_user (?J f)" for f
    by (simp_all add: own_results_def m_run_doc [OF own_results_kept, unfolded own_results_def])
  obtain t where t: "launch m_debug m_user [] m_program 0 (boot m_start) = (Val (Ok (Continuation (launched 0 1 0x203000))), t)"
    and w: "world t = m_start\<lparr>m_groups := 1, m_tls := 0x204000\<rparr>" "heap_next t = 1" "GROUPS_INIT t = Once_Done"
    "GROUPS t = Some mutex_default" "LOCALSTORES_INIT t = Once_Done"
    "LOCALSTORES t = Some \<lparr>mx_value = [block_at 0x200000, block_at 0x201000, block_at 0x202000], mx_locked = False, mx_poisoned = False\<rparr>"
    using m_first_launch by blast
  let ?t = "t\<lparr>world := m_aside (world t)\<rparr>"
  have "goes_elsewhere m_debug m_issued m_threads (world t) (m_aside (world t))"
    by (simp add: goes_elsewhere_def on_thread_def m_threads_def m_aside_def m_issued_def w m_start_def)
  note switch = client_switch [OF this]
  obtain u where u: "launch m_debug m_user [] m_other 0 ?t = (Val (Ok (Continuation (launched 1 2 0x202000))), u)"
    using m_second_launch [of ?t] w by auto
  let ?cs = "[(?J m_other, Continuation (launched 1 2 0x202000)), (?J m_program, Continuation (launched 0 1 0x203000))]"
  have run: "?step\<^sup>*\<^sup>* ([], boot m_start) (?cs, u)"
    using client_launch [OF J(2,1) t] switch client_launch [OF J(2,1) u]
    by (meson converse_rtranclp_into_rtranclp r_into_rtranclp)
  from functions_own [OF m_issues_doc m_untouched m_setup_doc m_starting run]
  have "(\<forall>(J, l) \<in> set ?cs. fits m_debug J l u) \<and> on_thread m_debug m_threads (world u)" by blast
  with run show ?thesis
    by (intro exI [of _ ?cs] exI [of _ u]) (simp add: libset_of_def block_of_def launched_def on_thread_def)
qed

end
