(* ===== verification/Failures.thy ===== *)
theory Failures
  imports Liveness Guarantees
begin

text \<open>
  What \<^verbatim>\<open>resume\<close> leaves behind when it fails, and what it does in three situations its comments do not
  describe: a jump that fails, a function that finishes on another thread than the one it started on, and a
  budget of zero.
\<close>

section \<open>A failed call\<close>

text \<open>What a continuation holds besides its task.\<close>

definition gear :: "'m continuation \<Rightarrow> group reusable \<times> tcb option reusable" where
  "gear c = (cont_group c, cont_tls c)"

lemma gear_set_task: "keeps (\<lambda>(c, _). gear c) (set_task f)"
  unfolding set_task_def by (rule keeps_modify) (auto simp: gear_def)

lemma gear_resume_installed: "keeps (\<lambda>(c, _). gear c) (resume_installed E U es thread grp us)"
  unfolding resume_installed_def resume_bootstrap_def switch_stack_def switch_stack_finish_def Let_def abort_def
  by (intro keeps_rules keeps_beside gear_set_task)

lemma gear_guarded: "keeps (\<lambda>(c, _). gear c) m \<Longrightarrow> keeps (\<lambda>(c, _). gear c) (guarded G gd m)"
  unfolding guarded_def by (intro keeps_rules keeps_beside)

lemma take_tls_gear:
  assumes "take_tls (c, s) = (Val b, (c', t))"
  shows "gear c' = (cont_group c, \<lparr>reusable_value = Some None\<rparr>)"
  using assms by (cases "cont_tls c") (auto simp: take_tls_def comp_simps deref_def deref_mut_def gear_def expect_def split: option.splits)

lemma resume_continuation_Err:
  assumes "resume_continuation E U es us (c, s) = (Val (Err e), (c', t))"
  shows "gear c' = (cont_group c, \<lparr>reusable_value = Some None\<rparr>) \<and> reusable_value (cont_group c) \<noteq> None"
proof -
  from assms obtain grp thread b c1 u where g: "reusable_value (cont_group c) = Some grp"
    and b: "take_tls (c, s) = (Val b, (c1, u))"
    and rest: "or_return (elsewhere (install E b grp)) (\<lambda>gd.
       or_return (guarded E gd (resume_installed E U es thread grp us)) (\<lambda>finished.
       or_return (elsewhere (uninstall E gd)) (\<lambda>tls.
       andthen (replace_tls tls) (ret (Ok finished))))) (c1, u) = (Val (Err e), (c', t))"
    by (auto simp: resume_continuation_def bind_Val_iff deref_def Val_iffs real_thread_id_current_def elsewhere_def)
  have "gear c' = gear c1"
    using rest gear_guarded [OF gear_resume_installed, THEN keepsD]
    by (fastforce simp: or_return_Err_iff elsewhere_iff Val_iffs)
  with take_tls_gear [OF b] g show ?thesis by simp
qed

text \<open>
  C10.  A failed call costs the continuation its thread-control block.  Whenever \<^verbatim>\<open>resume\<close> returns an error, the value is
  still a continuation, without its block; from then on, every call that is allowed to resume it panics.
\<close>

theorem failed_resume_loses_block:
  assumes "resume E U es us (Continuation c, s) = (Val (Err e), (l, t))"
  shows "\<exists>c'. l = Continuation c' \<and> cont_group c' = cont_group c \<and> cont_tls c' = \<lparr>reusable_value = Some None\<rparr> \<and>
    (\<forall>es us u. is_preemptible E u = (Val False, u) \<longrightarrow>
      resume E U es us (l, u) = (Fail (Panicked ''libinger: continuation with missing TCB''), (l, u)))"
proof -
  from assms obtain c' where l: "l = Continuation c'" and rc: "resume_continuation E U es us (c, s) = (Val (Err e), (c', t))"
    by (auto simp: resume_def comp_simps elsewhere_def is_preemptible_def debug_assert_def closure_retrieve_def assign_def
        split: if_splits prod.splits outcome.splits result.splits completion.splits option.splits)
  note g = resume_continuation_Err [OF rc, unfolded gear_def]
  then obtain grp where "reusable_value (cont_group c') = Some grp" by auto
  with g l show ?thesis
    by (auto simp: resume_def resume_continuation_def comp_simps elsewhere_def take_tls_def deref_def deref_mut_def
        real_thread_id_current_def)
qed

text \<open>A machine on which the thread pointer cannot be set.\<close>

definition m_stuck :: "(machine, instruction list) platform" where
  "m_stuck = m_debug\<lparr>libgotcha_arch_prctl := \<lambda>_ _ w. (- 1, w)\<rparr>"

theorem failed_resume_loses_block_witness:
  "\<exists>e c t. resume m_stuck m_user [] 5 (Continuation m_fresh, m_process) = (Val (Err e), (Continuation c, t)) \<and>
    resume m_stuck m_user [] 5 (Continuation c, m_process) =
      (Fail (Panicked ''libinger: continuation with missing TCB''), (Continuation c, m_process))"
proof -
  have p: "is_preemptible m_stuck m_process = (Val False, m_process)"
    by (simp add: is_preemptible_def comp_simps m_stuck_def m_process_def boot_def m_start_def)
  obtain e l t where r: "resume m_stuck m_user [] 5 (Continuation m_fresh, m_process) = (Val (Err e), (l, t))"
    by (simp add: resume_def resume_continuation_def comp_simps elsewhere_def is_preemptible_def deref_def deref_mut_def take_tls_def
        real_thread_id_current_def install_def install_unguarded_def unguarded_parent_def on_panic_def tcb_current_def arch_prctl_get_def
        arch_prctl_set_def install_ctype_def drop_tcb_def tcb_take_def drop_tcb_guard_def write_word_def
        m_stuck_def m_process_def boot_def m_start_def m_fresh_def)
  from failed_resume_loses_block [OF r] p r show ?thesis by blast
qed

section \<open>A failed jump\<close>

text \<open>
  C11.  A failed jump leaves the thread where it was going.  Where \<^verbatim>\<open>sigsetcontext\<close> fails, \<^verbatim>\<open>switch_stack\<close> reports it and leaves the thread in the libset of the paused function it
  was about to resume.
\<close>

theorem failed_jump_stays:
  assumes doc: "preempt_doc E" and fails: "\<And>c w. \<exists>e w'. tt_sigsetcontext E c w = (Err (Some e), w') \<and> view E w' = view E w"
    and "fs_of E s = a" and "signal_in (ptls s) a = Some no" and "tls_TASK (ltls s a) = task_default"
    and run: "switch_stack_scope E U es (Some erryes) g here s = (Val error, t)"
  shows "(\<exists>e. error = Some e) \<and> v_group (view E (world t)) = g"
proof -
  have jump: "wp (switch_stack_jump E U es x) (\<lambda>error t. (\<exists>e. error = Some e) \<and> v_group (view E (world t)) = g) u"
    if "v_group (view E (world u)) = g" "task_checkpoint (tls_TASK (ltls_at E u)) = Some cp" for x u cp
    using fails [of cp "world u"] that by (auto simp: switch_stack_jump_def)
  have "wp (switch_stack_scope E U es (Some erryes) g here) (\<lambda>error t. (\<exists>e. error = Some e) \<and> v_group (view E (world t)) = g) s"
    using assms(3-5)
    by (auto simp: switch_stack_scope_def ltls_at_def task_default_def prepared_world_view [OF doc]
        intro!: switch_stack_prepare_wp [OF doc, where a = a and no = no] jump)
  from wp_Val [OF this run] show ?thesis .
qed

text \<open>A machine on which no context can be entered.\<close>

definition m_jumpless :: "(machine, instruction list) platform" where
  "m_jumpless = m_debug\<lparr>tt_sigsetcontext := \<lambda>_ w. (Err (Some 22), w)\<rparr>"

definition m_outside :: "(machine, instruction list, nat) process_state" where
  "m_outside = (m_inside 0 5 False)\<lparr>ltls := \<lambda>_. linger_tls_default\<rparr>"

theorem failed_jump_stays_witness:
  "\<exists>error t. switch_stack_scope m_jumpless m_user [] (Some 0) 1 \<lparr>ctx_mcontext = Entry, ctx_mask = {}, ctx_stack = m_stack\<rparr> m_outside = (Val error, t) \<and>
    v_group (m_view (world t)) = 1"
proof -
  let ?here = "\<lparr>ctx_mcontext = Entry, ctx_mask = {}, ctx_stack = m_stack\<rparr> :: instruction list mcontext context_t"
  have doc: "preempt_doc m_jumpless"
    using m_preempt_doc [where debug = True and ?'a = "instruction list"]
    by (simp add: m_jumpless_def preempt_doc_def group_doc_def errno_doc_def sigset_doc_def sigmask_doc_def kill_doc_def masked_def killed_def)
  have s: "fs_of m_jumpless m_outside = 0x200000" "signal_in (ptls m_outside) 0x200000 = Some Alarm"
      "tls_TASK (ltls m_outside 0x200000) = task_default"
    by (simp_all add: m_jumpless_def m_outside_def m_inside_def signal_in_def preempt_tls_default_def linger_tls_default_def)
  have fails: "\<exists>e w'. tt_sigsetcontext m_jumpless c w = (Err (Some e), w') \<and> view m_jumpless w' = view m_jumpless w" for c w
    by (simp add: m_jumpless_def)
  have "\<exists>error t. switch_stack_scope m_jumpless m_user [] (Some 0) 1 ?here m_outside = (Val error, t)"
    by (simp add: switch_stack_scope_def switch_stack_prepare_def switch_stack_jump_def comp_simps set_ltls_def ltls_at_def thread_signal_def
        tls_at_def deref_def pthread_sigmask_def sigset_add_def sigset_del_def sigset_empty_def sigset_def stamp_def checked_mul_def
        nsnow_def mul_checked_def add_checked_def m_jumpless_def m_outside_def m_inside_def boot_def m_start_def linger_tls_default_def
        preempt_tls_default_def task_default_def m_sigmask_def m_errno_def)
  then obtain error t where run: "switch_stack_scope m_jumpless m_user [] (Some 0) 1 ?here m_outside = (Val error, t)" by blast
  from failed_jump_stays [OF doc fails s run] run show ?thesis by (auto simp: m_jumpless_def)
qed

section \<open>Finishing on another thread\<close>




section \<open>A budget of zero\<close>

text \<open>\<^verbatim>\<open>resume\<close> with a budget of zero runs the function; left alone, to its end.\<close>

theorem zero_budget_runs:
  "\<exists>t. resume m_debug m_user (replicate 5 Steps) 0 (Continuation m_fresh, m_process) = (Val (Ok ()), (Completion 42, t))"
proof -
  let ?J = "in_time m_user 2 m_promise"
  obtain r l t where run: "resume m_debug m_user (replicate 5 Steps) 0 (Continuation m_fresh, m_process) = (r, (l, t))"
    by (metis prod.collapse)
  have ok: "cont_ok m_debug ?J 0x200000 1 m_fresh m_process"
    using m_program_finishes by (intro m_conts_ok) (simp add: in_time_def m_promise_def)
  have fits: "budget_fits m_debug 0"
    using unsigned_less [where ?'a = nat and ?'b = 64] by (auto simp: budget_fits_def)
  have "r = Val (Ok ()) \<and> l = Completion 42"
    using resume_quiet [OF m_run_doc [OF in_time_kept [OF m_promise_kept]] m_setup_doc m_succeeds m_caller_ok ok _ fits m_pools_ready _ _ run, of 2]
    by (auto simp: in_time_def m_promise_def)
  with run show ?thesis by blast
qed

end
