(* ===== verification/Header.thy ===== *)
theory Header
  imports Prelude
begin

text \<open>
  \<^verbatim>\<open>src/main.rs\<close>: the program that prints the C header.  The size of the C interface's \<^verbatim>\<open>Linger\<close>,
  which the compiler decides, is an argument; it is printed in decimal.
\<close>

section \<open>Decimal numbers\<close>

definition digit :: "nat \<Rightarrow> char" where
  "digit d = char_of (48 + d)"

fun decimal :: "nat \<Rightarrow> string" where
  "decimal n = (if n < 10 then [digit n] else decimal (n div 10) @ [digit (n mod 10)])"

declare decimal.simps [simp del]

definition read_decimal :: "string \<Rightarrow> nat" where
  "read_decimal ds = foldl (\<lambda>n c. 10 * n + (of_char c - 48)) 0 ds"

lemma of_char_digit [simp]: "d < 10 \<Longrightarrow> (of_char (digit d) :: nat) = 48 + d"
  by (simp add: digit_def)

lemma read_decimal_decimal: "read_decimal (decimal n) = n"
proof (induction n rule: decimal.induct)
  case (1 n)
  show ?case
  proof (cases "n < 10")
    case True
    then show ?thesis by (simp add: decimal.simps [of n] read_decimal_def)
  next
    case False
    have "read_decimal (decimal n) = 10 * read_decimal (decimal (n div 10)) + n mod 10"
      using False by (simp add: decimal.simps [of n] read_decimal_def)
    with 1 [OF False] show ?thesis by simp
  qed
qed

lemma decimal_digits: "c \<in> set (decimal n) \<Longrightarrow> \<exists>d < 10. c = digit d"
proof (induction n rule: decimal.induct)
  case (1 n)
  then show ?case
    by (cases "n < 10") (auto simp: decimal.simps [of n] intro: exI [of _ "n mod 10"])
qed

section \<open>The header\<close>

definition line :: "string \<Rightarrow> string" where
  "line text = text @ [CHR 0x0A]"

definition star :: string where
  "star = [CHR 0x2A]"

text \<open>A backslash at the end of a line of the literal swallows the indentation of the next.\<close>

definition main_output :: "nat \<Rightarrow> string" where
  "main_output size_of_Linger =
     line ''#ifndef LIBINGER_H_'' @
     line ''#define LIBINGER_H_'' @
     line [] @
     line ''#include <stdbool.h>'' @
     line ''#include <stdint.h>'' @
     line [] @
     line ''typedef struct {'' @
     line ''bool is_complete;'' @
     line (''uint8_t continuation['' @ decimal size_of_Linger @ ''];'') @
     line ''} linger_t;'' @
     line [] @
     line (''linger_t launch(void ('' @ star @ '')(void '' @ star @ ''), uint64_t, void '' @ star @ '');'') @
     line (''void resume(linger_t '' @ star @ '', uint64_t);'') @
     line (''void cancel(linger_t '' @ star @ '');'') @
     line [] @
     line ''void pause(void);'' @
     line [] @
     line ''#endif''"

text \<open>What a C compiler finds between the first brackets is the size it was printed with.\<close>

definition between :: "char \<Rightarrow> char \<Rightarrow> string \<Rightarrow> string" where
  "between l r text = takeWhile (\<lambda>c. c \<noteq> r) (tl (dropWhile (\<lambda>c. c \<noteq> l) text))"

lemma header_size: "read_decimal (between CHR ''['' CHR '']'' (main_output n)) = n"
proof -
  have "c \<noteq> CHR '']''" if "c \<in> set (decimal n)" for c
  proof -
    obtain d where d: "d < 10" "c = digit d" using decimal_digits [OF \<open>c \<in> set (decimal n)\<close>] by blast
    have "(of_char CHR '']'' :: nat) = 93" by simp
    moreover have "(of_char c :: nat) < 58" using d by simp
    ultimately show ?thesis by fastforce
  qed
  then have "takeWhile (\<lambda>c. c \<noteq> CHR '']'') (decimal n @ CHR '']'' # rest) = decimal n" for rest
    by (simp add: takeWhile_append2 del: takeWhile_append)
  then have "between CHR ''['' CHR '']'' (main_output n) = decimal n"
    by (simp add: between_def main_output_def line_def)
  then show ?thesis by (simp add: read_decimal_decimal)
qed

end
