(* ===== verification/Spec2Isabelle.thy ===== *)
theory Spec2Isabelle
  imports Pool_Guarantees Guarantees Thread_Guarantees Ffi Profiler Future Ownership Failures Header
begin

text \<open>
  A verification development of libinger, a library that runs a function with a time budget,
  pauses it when the budget is spent, and lets the caller resume it later, on any thread.

  \<^bold>\<open>The program and its parts.\<close>  A caller hands a function to \<^verbatim>\<open>launch\<close>
  (\<^verbatim>\<open>src/src/linger.rs\<close>).  It is given its own copy of the loaded libraries (a libset,
  \<^verbatim>\<open>groups.rs\<close>), its own thread-control block (\<^verbatim>\<open>localstores.rs\<close>, \<^verbatim>\<open>tcb.rs\<close>) and, when it is first
  resumed, its own stack (\<^verbatim>\<open>stacks.rs\<close>); all come from pools (\<^verbatim>\<open>reusable.rs\<close>).  Each kernel
  thread that runs functions owns one signal (\<^verbatim>\<open>signals.rs\<close>) raised by a timer (\<^verbatim>\<open>timer.rs\<close>); its
  handler \<^verbatim>\<open>preempt\<close> decides whether the running function has to pause.  \<^verbatim>\<open>preemption.rs\<close> turns
  preemption on and off and defers it while the function is in a library it shares with the
  rest of the process.  \<^verbatim>\<open>internal/libsignal\<close> wraps the signal calls of the C library.

  \<^bold>\<open>The theories.\<close>
  \<^item> \<open>Prelude\<close>: machine words, results, and computations that thread a state and can panic,
    abort, block, be undefined, or not have finished when a trace ends.
  \<^item> \<open>Reusable\<close>: \<^verbatim>\<open>reusable.rs\<close>.  The locale \<open>shared_mut\<close> is the trait \<^verbatim>\<open>SharedMut\<close>, interpreted for
    \<^verbatim>\<open>RefCell\<close> and \<^verbatim>\<open>Mutex\<close>; \<open>pool\<close> and \<open>fresh_pool\<close> are what a pool promises its clients.
  \<^item> \<open>Platform\<close>: the C library, libgotcha and libtimetravel are not part of the sources.  Each
    is a record of functions on an abstract world \<open>'w\<close>; what is known of them is a predicate named
    \<open>..._doc\<close>, over the part of the world the kernel keeps for a thread (\<open>kview\<close>): its libset, signal
    mask, pending signals, thread pointer, \<^verbatim>\<open>errno\<close> and signal handlers.
  \<^item> \<open>Libsignal\<close>, \<open>Timer\<close>, \<open>Tcb\<close>: the modules of those names.  \<open>tcb_provider\<close> is the contract of a
    thread-control block, interpreted for \<^verbatim>\<open>tcb.rs\<close> and for \<^verbatim>\<open>tcbstub.rs\<close>.
  \<^item> \<open>Pools\<close>: \<^verbatim>\<open>groups.rs\<close>, \<^verbatim>\<open>stacks.rs\<close>, \<^verbatim>\<open>signals.rs\<close>, \<^verbatim>\<open>localstores.rs\<close>, each an interpretation of a pool.
  \<^item> \<open>Preemption\<close>: \<^verbatim>\<open>preemption.rs\<close>.
  \<^item> \<open>Linger\<close>, \<open>Execution\<close>, \<open>Resume\<close>: \<^verbatim>\<open>linger.rs\<close>, in three parts: data, deadline and signal handler;
    what happens on the thread while a function runs; \<^verbatim>\<open>switch_stack\<close>, \<^verbatim>\<open>resume\<close>, \<^verbatim>\<open>launch\<close>.
  \<^item> \<open>Machine\<close>: a platform on which every parameter is a concrete function that behaves as
    documented, and a small language of preemptible functions.  Theorems are applied there.
  \<^item> \<open>Reasoning\<close>, \<open>Frames\<close>, \<open>Threads\<close>, \<open>Stacks\<close>, \<open>Contract\<close>: weakest preconditions for computations, what
    each operation leaves alone, the invariant of a running function, how stacks change hands, and the
    contract of \<^verbatim>\<open>resume\<close>.
  \<^item> \<open>Pool_Guarantees\<close>, \<open>Thread_Guarantees\<close>, \<open>Guarantees\<close>: the properties of the pools; of
    thread-control blocks, preemption signals, deadlines and the switch that turns preemption on;
    of what signals do to a running function.
  \<^item> \<open>Release\<close>: what becomes of the resources of a dropped continuation.
  \<^item> \<open>Ffi\<close>, \<open>Profiler\<close>, \<open>Future\<close>: \<^verbatim>\<open>ffi.rs\<close> and \<^verbatim>\<open>force.rs\<close>, \<^verbatim>\<open>profiler.rs\<close>, \<^verbatim>\<open>future.rs\<close>, with their
    properties.
  \<^item> \<open>Header\<close>: \<^verbatim>\<open>main.rs\<close>, the C header it prints.
  \<^item> \<open>Scheduling\<close>: a program that resumes many functions in any order, on any of its threads, and catches their
    panics, none of its calls returning an error; and the references it is compared with: a function that runs alone, without interruption, and the
    abstract life of a function.
  \<^item> \<open>Progress\<close>, \<open>Success\<close>, \<open>Liveness\<close>, \<open>Launch\<close>: total correctness.  A calculus for computations that
    have to return; pools, thread setup and deadlines; \<^verbatim>\<open>resume\<close> from its first call to its last; functions that
    are left alone, and those that panic; \<^verbatim>\<open>launch\<close>.
  \<^item> \<open>Failures\<close>: what a failed \<^verbatim>\<open>resume\<close> leaves behind, and three situations the comments in the code do not describe.
  \<^item> \<open>Footprint\<close>, \<open>Ownership\<close>: what \<^verbatim>\<open>resume\<close> does to the pools; a program that launches, resumes and drops
    functions from the start of the process on, on any of its threads, and who owns what in it.  \<open>fresh_pool\<close> is interpreted for
    libsets and blocks, given which of them libgotcha and the loader have handed out.

  \<^bold>\<open>How code is modelled.\<close>  The process is one record, extended by each component with its
  statics; thread-local variables are functions of the thread pointer, which is what makes them
  virtual.  A Rust function is a computation on that record; \<^verbatim>\<open>?\<close> is \<open>or_return\<close>, unwinding runs the
  destructors through \<open>on_panic\<close> and \<open>with_cleanup\<close>, and a \<^verbatim>\<open>debug_assert!\<close> depends on the kind of
  build.  A preemptible function is a parameter, one step at a time.  What happens while it runs
  is a list of events (a signal becomes pending, a signal is delivered, the function takes a
  step, a library does); an impossible event ends the run as \<open>Unfinished\<close>, and theorems quantify
  over all lists, so over every interleaving.  No other bound or fuel is used; \<open>run_alone\<close>, the
  reference, counts steps, and \<open>runs_to\<close> is the relation it computes.

  \<^bold>\<open>What is shown.\<close>  \<^verbatim>\<open>resume\<close> never does anything undefined and, where it succeeds, gives the
  caller's thread back unchanged, with the function paused in a state it can be resumed from or
  completed with a result it promised, which is what the abstract life of a function allows.  Where the calls of the platform succeed it does succeed,
  unless the function panics: nothing else can go wrong but that the events end, and a function that
  needs \<open>n\<close> steps and is left alone completes within \<open>2 n + 1\<close>.  A function that panics poisons its value and gives
  back what it held.  So functions resumed in any order, and each time on any thread, do not disturb each other while no call
  returns an error, and each whose steps do not depend on the world completes only with the result it has alone.  That no two of
  them have the same libset, block, stack or closure is
  not an assumption about the caller: it holds of every program that starts with the library unused
  and only uses \<^verbatim>\<open>launch\<close>, \<^verbatim>\<open>resume\<close> and \<^verbatim>\<open>drop\<close>, as long as no call returns an error and none panics but for the panic of
  its function or for want of a libset.  What a \<^verbatim>\<open>resume\<close> that returns an error leaves behind is shown too, and it is less: the
  function cannot be resumed any more, and the thread may be left in its libset.  Underneath: an execution comes
  back whatever events happen; the deadline decides whether a tick pauses a function; preemptions in
  shared libraries are deferred and not lost; a preemption signal comes with a timer armed to raise it, and no two threads use
  one signal; what a continuation
  holds goes back to the pools; a block that is installed is uninstalled.  For C callers and futures,
  the flag and the value they read are right.

  \<^bold>\<open>What it found.\<close>  Budgets near the end of the range of a \<^verbatim>\<open>u64\<close> are spent at once
  (\<open>huge_budget_expired\<close>, \<open>budget_overflows\<close>); a dropped preemption signal keeps its handler
  (\<open>dropped_signal_keeps_handler\<close>); a thread whose timer cannot be armed leaves the timer behind
  (\<open>failed_arming_leaks_timer\<close>); polling a future twice can block forever (\<open>poll_blocks\<close>); a \<^verbatim>\<open>resume\<close> that
  fails loses the function's block (\<open>failed_resume_loses_block\<close>) and can leave the thread in the function's libset
  (\<open>failed_jump_stays\<close>); a function that finishes on another thread blocks the wrong signal (\<open>finishes_elsewhere\<close>); a
  budget of zero is not a no-op (\<open>zero_budget_runs\<close>).

  \<^bold>\<open>Not modelled.\<close>  libgotcha and libtimetravel (not part of the sources); \<^verbatim>\<open>lifetime.rs\<close> and
  \<^verbatim>\<open>compile_assert.rs\<close>, which only speak to the type checker; the text the profiler prints.  The instructions of a function, and those of the library itself between
  two of its calls, are atomic steps; what the hardware does below them is not modelled.  Threads take turns between
  calls of \<^verbatim>\<open>launch\<close>, \<^verbatim>\<open>resume\<close> and \<^verbatim>\<open>drop\<close>; within a call, what other threads do shows only as signals.

  \<^bold>\<open>Simplifications.\<close>
  \<^item> Where a thread-control block is freed, which only failing calls do, \<open>c_call_tls_dtors\<close> acts on the world; what the
    destructors do to the library's own variables in that block (\<^verbatim>\<open>TASK\<close>, which may own a stack, \<^verbatim>\<open>SIGNAL\<close>, \<^verbatim>\<open>DEADLINE\<close>) is not
    modelled, so nothing is claimed of them after a failure.
  \<^item> Closures and stacks have addresses from a counter and none is given twice, as if freed memory were not used again; what is
    shown of them is that the live ones are distinct.
  \<^item> A closure called for its return value while it still holds the function is undefined here (\<open>closure_retrieve\<close>); the
    code would run the function on the caller's stack.  The contract of \<^verbatim>\<open>resume\<close> shows that this does not happen.
  \<^item> The return of \<^verbatim>\<open>schedule\<close> to the call site is a function of libtimetravel, \<open>tt_return\<close>; that it leaves the signal mask alone
    is a hypothesis, part of \<open>context_doc\<close>.
  \<^item> The text of an operating-system error is a parameter; that of a poisoned lock is the one current standard libraries print.
\<close>

section \<open>Resuming\<close>

text \<open>
  C1.  The contract of \<^verbatim>\<open>resume\<close>.  Given a well-formed continuation on a thread in the shared
  libset, and whatever happens while the function runs (\<open>es\<close>), nothing undefined occurs.  If
  \<^verbatim>\<open>resume\<close> reports success, the thread is back in the shared libset with its own thread pointer;
  no other function's variables or closure have changed; the function's block is idle; and the
  value is either the same continuation, well-formed and paused, or a completion with a value
  the function promised.
\<close>

theorem resume_contract:
  assumes "run_doc E U J" and "setup_doc E" and "caller_ok E me s" and "cont_ok E J a g c s" and "a \<noteq> me"
    and "resume E U es us (Continuation c, s) = (r, (l, t))"
  shows "r \<noteq> Fail Undefined \<and> (r = Val (Ok ()) \<longrightarrow> resume_post E J me a g s (functional c) l t)"
  using wp_Val [OF resume_wp [OF assms(1-5)]] wp_Fail [OF resume_wp [OF assms(1-5)]] assms(6)
  by (cases r) auto

theorem resume_contract_witness:
  "\<exists>r l t. resume m_debug m_user [Steps, Steps, Steps, Steps] 1000 (Continuation m_fresh, m_process) = (r, (l, t)) \<and>
    r \<noteq> Fail Undefined \<and> (r = Val (Ok ()) \<longrightarrow> resume_post m_debug m_promise 0x100000 0x200000 1 m_process 0 l t)"
proof -
  obtain r l t where run: "resume m_debug m_user [Steps, Steps, Steps, Steps] 1000 (Continuation m_fresh, m_process) = (r, (l, t))"
    by (metis prod.collapse)
  have "fst m_promise m_program" by (simp add: m_promise_def)
  from resume_contract [OF m_run_doc [OF m_promise_kept] m_setup_doc m_caller_ok m_conts_ok(1) [OF this] _ run] run
  show ?thesis by (auto simp: m_fresh_def)
qed

section \<open>Interleavings\<close>

text \<open>
  A program on the machine with two threads and two functions.  The first function was started and paused on
  the first thread; the second thread takes over and resumes it.
\<close>

definition m_begun :: "instruction list" where
  "m_begun = [Compute 500, Give 3]"

definition m_fns :: "(instruction list \<times> usize \<times> group \<times> nat) list" where
  "m_fns = [(m_begun, 0x200000, 1, 0), (m_other, 0x201000, 2, 1)]"

definition m_ids :: "(instruction list, nat) identity list" where
  "m_ids = map (\<lambda>(f, place). (own_results m_user f, place)) m_fns"

definition m_halfway :: "(machine, instruction list, nat) process_state" where
  "m_halfway = m_pools\<lparr>SIGNALS := Some (free_pool []), SIGNALS_free := 1, SIGNALS_INIT := Once_Done, HOOK_INIT := Once_Done,
     ptls := (\<lambda>_. preempt_tls_default)(
       0x100000 := preempt_tls_default\<lparr>tls_SIGNALER := Some \<lparr>ps_signal = \<lparr>reusable_value = Some Alarm\<rparr>, ps_timer = 7\<rparr>\<rparr>,
       0x200000 := preempt_tls_default\<lparr>tls_ERRNO_LOCATION := Some 1\<rparr>),
     closures := (\<lambda>_. Empty)(1 := Function m_other)\<rparr>"

lemma m_world_free: "world_free m_user"
  unfolding world_free_def
proof (intro allI)
  fix f w w'
  show "fst (m_user f w) = fst (m_user f w')" by (induction f w rule: m_user.induct) simp_all
qed

lemmas m_halfway_defs = m_halfway_def m_pools_def boot_def preempt_tls_default_def linger_tls_default_def

lemma m_begun_ok:
  assumes "fst J [Give 3]"
  shows "cont_ok m_debug J 0x200000 1 m_paused m_halfway"
proof -
  have "locates m_debug 1 (Some 1)" by (rule m_locates)
  then show ?thesis
    using assms by (auto simp: cont_ok_def m_paused_def m_halfway_defs idle_block_def cont_state_def paused_at_def m_group_limit_def)
qed

lemma m_all_ok: "all_ok m_debug m_threads m_ids [Continuation m_paused, Continuation m_second] m_halfway"
proof -
  have "runs_to m_user [Give 3] r \<Longrightarrow> runs_to m_user m_begun r" for r
    using runs_to.works [of m_user m_begun undefined "[Give 3]"] by (simp add: m_begun_def)
  then have "cont_ok m_debug (own_results m_user m_begun) 0x200000 1 m_paused m_halfway"
    by (intro m_begun_ok) (simp add: own_results_def)
  moreover have "cont_ok m_debug (own_results m_user m_other) 0x201000 2 m_second m_halfway"
    by (simp add: cont_ok_def m_second_def m_halfway_defs idle_block_def cont_state_def task_default_def own_results_def m_group_limit_def)
  moreover have "on_thread m_debug m_threads (world m_halfway)" "signalers_wf (ptls m_halfway)"
    by (simp_all add: on_thread_def m_threads_def m_halfway_defs m_start_def signalers_wf_def)
  ultimately show ?thesis
    by (simp add: all_ok_def m_ids_def m_fns_def m_paused_def m_second_def m_threads_def)
qed

lemma m_sched:
  "\<exists>t. (sched_step m_debug m_user m_threads)\<^sup>*\<^sup>* ([Continuation m_paused, Continuation m_second], m_halfway)
      ([Completion 3, Continuation m_second], t)"
proof -
  let ?J = "in_time m_user 1 (\<lambda>is. is = [Give 3], \<lambda>r. r = Ok 3)"
    and ?s = "m_halfway\<lparr>world := m_aside (world m_halfway)\<rparr>" and ?ls = "[Continuation m_paused, Continuation m_second]"
  have there: "on_thread m_debug m_threads (m_aside (world m_halfway))" "caller_ok m_debug 0x101000 ?s"
    by (simp_all add: on_thread_def caller_ok_def m_aside_def m_threads_def m_halfway_defs m_start_def signalers_wf_def)
  obtain r l t where run: "resume m_debug m_user (replicate 5 Steps) u64_MAX (Continuation m_paused, ?s) = (r, (l, t))"
    by (metis prod.collapse)
  have doc: "run_doc m_debug m_user ?J" by (rule m_run_doc [OF in_time_kept]) (simp add: user_keeps_def)
  have ok: "cont_ok m_debug ?J 0x200000 1 m_paused ?s" using m_begun_ok [of ?J] by (simp add: in_time_def)
  have rd: "resumable m_paused ?s" "thread_ready 0x101000 ?s" "v_pending (view m_debug (world ?s)) = {}"
    by (simp_all add: resumable_def task_full_def full_def m_paused_def pools_usable_def stacks_usable_def thread_ready_def
        signals_left_def m_halfway_defs m_aside_def)
  have "r = Val (Ok ()) \<and> l = Completion 3"
    using resume_quiet [OF doc m_setup_doc m_succeeds there(2) ok _ m_unlimited rd _ _ run, of 1] by (auto simp: in_time_def)
  then have "sched_step m_debug m_user m_threads (?ls, ?s) (?ls [0 := Completion 3], t)"
    using run by (intro sched_resume) simp_all
  with sched_switch [OF there(1), of m_user ?ls m_halfway] show ?thesis
    by simp (meson converse_rtranclp_into_rtranclp r_into_rtranclp)
qed

text \<open>
  C6.  Functions do not get in each other's way.  Let a program hold any number of functions, no two
  with the same thread-control block or closure, and resume them in any order, each time on any of its
  threads \<open>T\<close>, for any budget and through any events.  As long as each call reports success or passes on the panic of its
  function, all of them stay
  well-formed and every call leaves its thread as it was, outside the library with its own thread pointer.  (What a call
  that returns an error may leave behind is the subject of \<open>Failures\<close>.)
\<close>

theorem interleaving_safe:
  assumes "\<And>d. d \<in> set ids \<Longrightarrow> run_doc E U (fst d)" and "setup_doc E" and "all_ok E T ids ls s"
    and "(sched_step E U T)\<^sup>*\<^sup>* (ls, s) (ls', t)"
  shows "all_ok E T ids ls' t"
  using all_ok_steps [OF assms(1,2,4,3)] .

theorem interleaving_safe_witness:
  "\<exists>t. (sched_step m_debug m_user m_threads)\<^sup>*\<^sup>* ([Continuation m_paused, Continuation m_second], m_halfway) ([Completion 3, Continuation m_second], t) \<and>
    all_ok m_debug m_threads m_ids [Completion 3, Continuation m_second] t"
proof -
  obtain t where run: "(sched_step m_debug m_user m_threads)\<^sup>*\<^sup>* ([Continuation m_paused, Continuation m_second], m_halfway)
      ([Completion 3, Continuation m_second], t)" using m_sched by blast
  have "run_doc m_debug m_user (fst d)" if "d \<in> set m_ids" for d
    using that by (auto simp: m_ids_def m_run_doc [OF own_results_kept])
  from interleaving_safe [OF this m_setup_doc m_all_ok run] run show ?thesis by blast
qed

text \<open>
  C5.  Preemption does not show.  In the same situation, let what each function does next depend only
  on its own state and not on the world, so neither on the clock nor on what other functions share with it.  Then, as long as each
  call reports success or passes on the panic of its function, a function that completes does so with the value it returns
  when it runs alone, from its first step to its last without interruption.
\<close>

theorem interleaving_transparent:
  assumes "preempt_doc E" and "context_doc E" and "kernel_doc E" and "clock_doc E" and "user_doc E U" and "setup_doc E"
    and "world_free U" and "all_ok E T (map (\<lambda>(f, place). (own_results U f, place)) fns) ls s"
    and "(sched_step E U T)\<^sup>*\<^sup>* (ls, s) (ls', t)"
    and "i < length ls" and "ls' ! i = Completion v" and "run_alone U n (fst (fns ! i)) w = Some (r, w')"
  shows "r = Ok v"
proof -
  let ?ids = "map (\<lambda>(f, place). (own_results U f, place)) fns"
  have "run_doc E U (fst d)" if "d \<in> set ?ids" for d
    using that assms(1-5) by (auto simp: run_doc_def own_results_kept)
  then have ok: "all_ok E T ?ids ls' t"
    using all_ok_steps [OF _ assms(6,9,8)] by blast
  have "length ?ids = length ls" using assms(8) by (auto simp: all_ok_def dest: list_all2_lengthD)
  then have "i < length fns" using assms(10) by simp
  moreover obtain f a g b where d: "fns ! i = (f, a, g, b)" by (metis prod.collapse)
  ultimately have "runs_to U f (Ok v)"
    using ok assms(11) by (auto simp: all_ok_def list_all2_conv_all_nth own_results_def dest!: spec [of _ i])
  with run_alone_runs_to [OF assms(12)] d show ?thesis
    by (auto intro: runs_to_unique [OF assms(7)])
qed

theorem interleaving_transparent_witness:
  "\<exists>t. (sched_step m_debug m_user m_threads)\<^sup>*\<^sup>* ([Continuation m_paused, Continuation m_second], m_halfway) ([Completion 3, Continuation m_second], t) \<and>
    map_option fst (run_alone m_user 2 m_begun m_start) = Some (Ok 3)"
proof -
  obtain t where run: "(sched_step m_debug m_user m_threads)\<^sup>*\<^sup>* ([Continuation m_paused, Continuation m_second], m_halfway)
      ([Completion 3, Continuation m_second], t)" using m_sched by blast
  obtain r w where alone: "run_alone m_user 2 m_begun m_start = Some (r, w)"
    by (simp add: m_begun_def numeral_2_eq_2)
  have "r = Ok 3"
    by (rule interleaving_transparent [OF m_preempt_doc m_docs(10) m_docs(9) m_clock_doc m_user_doc m_setup_doc
        m_world_free m_all_ok [unfolded m_ids_def] run, of 0 3 2 m_start r w])
      (simp_all add: m_fns_def alone)
  with run alone show ?thesis by auto
qed

text \<open>
  C7.  A function has one life.  Seen through \<open>life_of\<close>, what \<^verbatim>\<open>resume\<close> does to each of a program's functions, on
  whichever threads, as long as each call reports success or passes on the panic of its function, is what the abstract life of a
  function allows: it starts once, is paused any number of times, completes once and keeps its value, or is poisoned for good; it
  never starts again.
\<close>

theorem life_refined:
  assumes "\<And>d. d \<in> set ids \<Longrightarrow> run_doc E U (fst d)" and "setup_doc E" and "all_ok E T ids ls s"
    and "(sched_step E U T)\<^sup>*\<^sup>* (ls, s) (ls', t)" and "i < length ls"
  shows "life_step\<^sup>*\<^sup>* (life_of (ls ! i)) (life_of (ls' ! i))"
  using life_scheds [OF assms(1,2,4,3)] .

theorem life_refined_witness:
  "\<exists>t. (sched_step m_debug m_user m_threads)\<^sup>*\<^sup>* ([Continuation m_paused, Continuation m_second], m_halfway) ([Completion 3, Continuation m_second], t) \<and>
    life_of (Continuation m_paused :: (nat, instruction list mcontext) linger) = Paused \<and>
    life_step\<^sup>*\<^sup>* (life_of (Continuation m_paused)) (life_of (Completion 3 :: (nat, instruction list mcontext) linger))"
proof -
  obtain t where run: "(sched_step m_debug m_user m_threads)\<^sup>*\<^sup>* ([Continuation m_paused, Continuation m_second], m_halfway)
      ([Completion 3, Continuation m_second], t)" using m_sched by blast
  have "run_doc m_debug m_user (fst d)" if "d \<in> set m_ids" for d
    using that by (auto simp: m_ids_def m_run_doc [OF own_results_kept])
  from life_refined [OF this m_setup_doc m_all_ok run, of 0] run show ?thesis
    by (auto simp: m_paused_def)
qed

end
